(* ===== verification/Prelude.thy ===== *)
theory Prelude
  imports Main "HOL-Library.Word" "HOL-Library.Sublist"
begin

text \<open>
  Shared vocabulary of the development: bytes and byte buffers, big-endian
  fields of the wire format, C integers of fixed width as bounded naturals and
  integers, checked reads and writes of a buffer, NUL-terminated strings and
  the errno values the library returns.  Every read of a buffer is checked:
  \<^term>\<open>None\<close> stands for an access outside the buffer, so that a lemma that a
  parser never returns it is a lemma of memory safety.
\<close>

named_theorems wire \<open>round trips and sizes of encoded fields\<close>
named_theorems buf_simps \<open>laws of reads and writes of buffers\<close>

section \<open>Bytes and words\<close>

type_synonym byte = "8 word"
type_synonym bytes = "8 word list"

text \<open>A C \<open>unsigned\<close> value of \<open>w\<close> bits is a natural below \<open>2 ^ w\<close>; the
  truncation a store performs is written out.\<close>

definition u8 :: "nat \<Rightarrow> nat" where
  "u8 n = n mod 2 ^ 8"

definition u16 :: "nat \<Rightarrow> nat" where
  "u16 n = n mod 2 ^ 16"

definition u32 :: "nat \<Rightarrow> nat" where
  "u32 n = n mod 2 ^ 32"

definition u64 :: "nat \<Rightarrow> nat" where
  "u64 n = n mod 2 ^ 64"

text \<open>Subtraction of \<open>size_t\<close> values wraps.\<close>

definition size_t_sub :: "nat \<Rightarrow> nat \<Rightarrow> nat" where
  "size_t_sub a b = nat ((int a - int b) mod 2 ^ 64)"

text \<open>The \<open>int\<close> a 32-bit pattern reads as, and the pattern of an \<open>int\<close>.\<close>

definition s32 :: "nat \<Rightarrow> int" where
  "s32 n = (if u32 n < 2 ^ 31 then int (u32 n) else int (u32 n) - 2 ^ 32)"

definition u32_of_int :: "int \<Rightarrow> nat" where
  "u32_of_int i = nat (i mod 2 ^ 32)"

lemma u8_bound [simp]: "u8 n < 256"
  by (simp add: u8_def)

lemma u16_bound [simp]: "u16 n < 65536"
  by (simp add: u16_def)

lemma u32_bound [simp]: "u32 n < 4294967296"
  by (simp add: u32_def)

lemma u64_bound [simp]: "u64 n < 18446744073709551616"
  by (simp add: u64_def)

lemma u16_id [simp]: "n < 65536 \<Longrightarrow> u16 n = n"
  by (simp add: u16_def)

lemma u32_id [simp]: "n < 4294967296 \<Longrightarrow> u32 n = n"
  by (simp add: u32_def)

lemma u64_id [simp]: "n < 18446744073709551616 \<Longrightarrow> u64 n = n"
  by (simp add: u64_def)

lemma u8_id [simp]: "n < 256 \<Longrightarrow> u8 n = n"
  by (simp add: u8_def)

lemma size_t_sub_le [simp]:
  "b \<le> a \<Longrightarrow> a < 18446744073709551616 \<Longrightarrow> size_t_sub a b = a - b"
  by (simp add: size_t_sub_def nat_diff_distrib)

lemma s32_range: "- (2 ^ 31) \<le> s32 n \<and> s32 n < 2 ^ 31"
  by (simp add: s32_def less_trans [OF u32_bound])

lemma s32_u32_of_int:
  assumes "- (2 ^ 31) \<le> i" "i < 2 ^ 31"
  shows "s32 (u32_of_int i) = i"
proof (cases "0 \<le> i")
  case True
  then have "i mod 2 ^ 32 = i" using assms by simp
  then show ?thesis using True assms by (simp add: s32_def u32_of_int_def)
next
  case False
  then have "i mod 2 ^ 32 = i + 2 ^ 32"
    using assms mod_add_self2 [of i "2 ^ 32"] mod_pos_pos_trivial [of "i + 2 ^ 32" "2 ^ 32"]
    by simp
  then show ?thesis using False assms by (simp add: s32_def u32_of_int_def)
qed

section \<open>Big-endian fields\<close>

fun be_bytes :: "nat \<Rightarrow> nat \<Rightarrow> bytes" where
  "be_bytes 0 n = []"
| "be_bytes (Suc k) n = be_bytes k (n div 256) @ [of_nat (n mod 256)]"

lemma be_bytes_numeral:
  "be_bytes (numeral k) n = be_bytes (pred_numeral k) (n div 256) @ [of_nat (n mod 256)]"
  by (simp only: numeral_eq_Suc [of k] be_bytes.simps)

definition be_nat :: "bytes \<Rightarrow> nat" where
  "be_nat bs = foldl (\<lambda>a b. a * 256 + unat b) 0 bs"

lemma be_nat_Nil [simp]: "be_nat [] = 0"
  by (simp add: be_nat_def)

lemma be_nat_snoc [simp]: "be_nat (bs @ [b]) = be_nat bs * 256 + unat b"
  by (simp add: be_nat_def)

lemma unat_byte_bound [simp]: "unat (b :: byte) < 256"
  using unsigned_less [of b] by simp

lemma unat_of_nat_byte [simp]: "n < 256 \<Longrightarrow> unat (of_nat n :: byte) = n"
  by (simp add: unat_of_nat)

lemma length_be_bytes [simp, wire]: "length (be_bytes k n) = k"
  by (induction k arbitrary: n) auto

lemma be_nat_bound [wire]: "be_nat bs < 256 ^ length bs"
proof (induction bs rule: rev_induct)
  case (snoc b bs)
  have "unat b < 256" by simp
  then have "be_nat bs * 256 + unat b < (be_nat bs + 1) * 256" by simp
  also have "\<dots> \<le> 256 ^ length bs * 256" using snoc by (intro mult_le_mono1) simp
  finally show ?case by (simp add: mult.commute)
qed simp

lemma be_nat_be_bytes [simp, wire]: "be_nat (be_bytes k n) = n mod 256 ^ k"
proof (induction k arbitrary: n)
  case (Suc k)
  have "n mod 256 ^ Suc k = 256 * (n div 256 mod 256 ^ k) + n mod 256"
    using mod_mult2_eq [of n 256 "256 ^ k"] by simp
  then show ?case by (simp add: Suc)
qed simp

lemma be_bytes_be_nat [wire]: "be_bytes (length bs) (be_nat bs) = bs"
  by (induction bs rule: rev_induct) auto

section \<open>Checked access to a buffer\<close>

definition rd :: "nat \<Rightarrow> bytes \<Rightarrow> nat \<Rightarrow> nat option" where
  "rd k buf off = (if off + k \<le> length buf then Some (be_nat (take k (drop off buf))) else None)"

abbreviation rd8 :: "bytes \<Rightarrow> nat \<Rightarrow> nat option" where "rd8 \<equiv> rd 1"
abbreviation rd16 :: "bytes \<Rightarrow> nat \<Rightarrow> nat option" where "rd16 \<equiv> rd 2"
abbreviation rd32 :: "bytes \<Rightarrow> nat \<Rightarrow> nat option" where "rd32 \<equiv> rd 4"
abbreviation rd64 :: "bytes \<Rightarrow> nat \<Rightarrow> nat option" where "rd64 \<equiv> rd 8"

definition rd_bytes :: "bytes \<Rightarrow> nat \<Rightarrow> nat \<Rightarrow> bytes option" where
  "rd_bytes buf off k = (if off + k \<le> length buf then Some (take k (drop off buf)) else None)"

text \<open>\<open>write_at\<close> is a \<open>memcpy\<close> into a buffer.\<close>

definition write_at :: "bytes \<Rightarrow> nat \<Rightarrow> bytes \<Rightarrow> bytes" where
  "write_at buf off bs = take off buf @ bs @ drop (off + length bs) buf"

lemma rd_Some [buf_simps]: "off + k \<le> length buf \<Longrightarrow> rd k buf off = Some (be_nat (take k (drop off buf)))"
  by (simp add: rd_def)

lemma rd_None_iff: "rd k buf off = None \<longleftrightarrow> length buf < off + k"
  by (auto simp: rd_def)

lemma rd_bytes_Some [buf_simps]: "off + k \<le> length buf \<Longrightarrow> rd_bytes buf off k = Some (take k (drop off buf))"
  by (simp add: rd_bytes_def)

lemma rd_bound: "rd k buf off = Some v \<Longrightarrow> v < 256 ^ k"
  using be_nat_bound [of "take k (drop off buf)"]
  by (auto simp: rd_def split: if_splits)

lemma rd_append_field [wire]:
  "length pre = off \<Longrightarrow> rd k (pre @ be_bytes k n @ post) off = Some (n mod 256 ^ k)"
  by (simp add: rd_def)

lemma length_write_at [simp, buf_simps]:
  "off + length bs \<le> length buf \<Longrightarrow> length (write_at buf off bs) = length buf"
  by (simp add: write_at_def)

lemma take_write_at [buf_simps]:
  "n \<le> off \<Longrightarrow> off \<le> length buf \<Longrightarrow> take n (write_at buf off bs) = take n buf"
  by (simp add: write_at_def min_def)

lemma take_write_at_end [buf_simps]:
  "off \<le> length buf \<Longrightarrow> take (off + length bs) (write_at buf off bs) = take off buf @ bs"
  by (simp add: write_at_def min_def)

lemma write_at_Nil [simp]: "off \<le> length buf \<Longrightarrow> write_at buf off [] = buf"
  by (simp add: write_at_def)

lemma split_at_length: "length h = n \<Longrightarrow> take n (h @ x) = h \<and> drop n (h @ x) = x"
  by auto

section \<open>Strings\<close>

text \<open>A C string is the list of its characters before the NUL; as bytes of a
  packet it is their codes.\<close>

definition bytes_of :: "string \<Rightarrow> bytes" where
  "bytes_of s = map of_char s"

definition string_of :: "bytes \<Rightarrow> string" where
  "string_of bs = map (\<lambda>b. char_of (unat b)) bs"

lemma length_bytes_of [simp, wire]: "length (bytes_of s) = length s"
  by (simp add: bytes_of_def)

lemma length_string_of [simp, wire]: "length (string_of s) = length s"
  by (simp add: string_of_def)

lemma of_char_byte: "(of_char c :: byte) = of_nat (of_char c)"
  by (cases c) (simp add: of_char_def)

lemma string_of_bytes_of [simp, wire]: "string_of (bytes_of s) = s"
proof -
  have "char_of (unat (of_char c :: byte)) = c" for c
  proof -
    have "of_char c < (256 :: nat)" by simp
    then have "unat (of_char c :: byte) = of_char c"
      by (subst of_char_byte) (rule unat_of_nat_byte)
    then show ?thesis by simp
  qed
  then show ?thesis by (simp add: string_of_def bytes_of_def comp_def)
qed

text \<open>The bytes up to the first NUL of a buffer, as \<open>strlen\<close> and \<open>strcpy\<close>
  read it.\<close>

definition cstr :: "bytes \<Rightarrow> bytes" where
  "cstr bs = takeWhile (\<lambda>b. b \<noteq> 0) bs"

lemma cstr_no_nul [simp]: "0 \<notin> set (cstr bs)"
  by (auto simp: cstr_def dest: set_takeWhileD)

lemma length_cstr: "length (cstr bs) \<le> length bs"
  by (simp add: cstr_def length_takeWhile_le)

lemma cstr_append_nul [simp]: "0 \<notin> set s \<Longrightarrow> cstr (s @ 0 # r) = s"
  unfolding cstr_def by (subst takeWhile_append2) auto

section \<open>errno\<close>

abbreviation (input) ENOENT :: int where "ENOENT \<equiv> 2"
abbreviation (input) EIO :: int where "EIO \<equiv> 5"
abbreviation (input) EBADF :: int where "EBADF \<equiv> 9"
abbreviation (input) ENOMEM :: int where "ENOMEM \<equiv> 12"
abbreviation (input) EACCES :: int where "EACCES \<equiv> 13"
abbreviation (input) EBUSY :: int where "EBUSY \<equiv> 16"
abbreviation (input) EEXIST :: int where "EEXIST \<equiv> 17"
abbreviation (input) EXDEV :: int where "EXDEV \<equiv> 18"
abbreviation (input) ENODEV :: int where "ENODEV \<equiv> 19"
abbreviation (input) ENOTDIR :: int where "ENOTDIR \<equiv> 20"
abbreviation (input) EISDIR :: int where "EISDIR \<equiv> 21"
abbreviation (input) EINVAL :: int where "EINVAL \<equiv> 22"
abbreviation (input) EMFILE :: int where "EMFILE \<equiv> 24"
abbreviation (input) EFBIG :: int where "EFBIG \<equiv> 27"
abbreviation (input) ENOSPC :: int where "ENOSPC \<equiv> 28"
abbreviation (input) EROFS :: int where "EROFS \<equiv> 30"
abbreviation (input) ENAMETOOLONG :: int where "ENAMETOOLONG \<equiv> 36"
abbreviation (input) ENOSYS :: int where "ENOSYS \<equiv> 38"
abbreviation (input) ENOTEMPTY :: int where "ENOTEMPTY \<equiv> 39"
abbreviation (input) EOVERFLOW :: int where "EOVERFLOW \<equiv> 75"
abbreviation (input) EILSEQ :: int where "EILSEQ \<equiv> 84"
abbreviation (input) EOPNOTSUPP :: int where "EOPNOTSUPP \<equiv> 95"
abbreviation (input) ETIMEDOUT :: int where "ETIMEDOUT \<equiv> 110"
abbreviation (input) EDQUOT :: int where "EDQUOT \<equiv> 122"

end
