(* ===== verification/Unicode_Table.thy ===== *)
theory Unicode_Table
  imports Prelude
begin

text \<open>
  The canonical compositions of \<open>lib/unicode.c\<close>: each entry of \<open>table[]\<close> is a
  precomposed character and its pattern, the base character in the upper and the
  combining character in the lower 16 bits.  Entry 0 is a dummy; the 997 others
  are in pattern order.
\<close>

definition table :: "(nat \<times> nat) list" where
  "table = [
    (0x0, 0x0), (0xC0, 0x410300), (0xC1, 0x410301), (0xC2, 0x410302),
    (0xC3, 0x410303), (0x100, 0x410304), (0x102, 0x410306), (0x226, 0x410307),
    (0xC4, 0x410308), (0x1EA2, 0x410309), (0xC5, 0x41030A), (0x1CD, 0x41030C),
    (0x200, 0x41030F), (0x202, 0x410311), (0x1EA0, 0x410323), (0x1E00, 0x410325),
    (0x104, 0x410328), (0x1E02, 0x420307), (0x1E04, 0x420323), (0x1E06, 0x420331),
    (0x106, 0x430301), (0x108, 0x430302), (0x10A, 0x430307), (0x10C, 0x43030C),
    (0xC7, 0x430327), (0x1E0A, 0x440307), (0x10E, 0x44030C), (0x1E0C, 0x440323),
    (0x1E10, 0x440327), (0x1E12, 0x44032D), (0x1E0E, 0x440331), (0xC8, 0x450300),
    (0xC9, 0x450301), (0xCA, 0x450302), (0x1EBC, 0x450303), (0x112, 0x450304),
    (0x114, 0x450306), (0x116, 0x450307), (0xCB, 0x450308), (0x1EBA, 0x450309),
    (0x11A, 0x45030C), (0x204, 0x45030F), (0x206, 0x450311), (0x1EB8, 0x450323),
    (0x228, 0x450327), (0x118, 0x450328), (0x1E18, 0x45032D), (0x1E1A, 0x450330),
    (0x1E1E, 0x460307), (0x1F4, 0x470301), (0x11C, 0x470302), (0x1E20, 0x470304),
    (0x11E, 0x470306), (0x120, 0x470307), (0x1E6, 0x47030C), (0x122, 0x470327),
    (0x124, 0x480302), (0x1E22, 0x480307), (0x1E26, 0x480308), (0x21E, 0x48030C),
    (0x1E24, 0x480323), (0x1E28, 0x480327), (0x1E2A, 0x48032E), (0xCC, 0x490300),
    (0xCD, 0x490301), (0xCE, 0x490302), (0x128, 0x490303), (0x12A, 0x490304),
    (0x12C, 0x490306), (0x130, 0x490307), (0xCF, 0x490308), (0x1EC8, 0x490309),
    (0x1CF, 0x49030C), (0x208, 0x49030F), (0x20A, 0x490311), (0x1ECA, 0x490323),
    (0x12E, 0x490328), (0x1E2C, 0x490330), (0x134, 0x4A0302), (0x1E30, 0x4B0301),
    (0x1E8, 0x4B030C), (0x1E32, 0x4B0323), (0x136, 0x4B0327), (0x1E34, 0x4B0331),
    (0x139, 0x4C0301), (0x13D, 0x4C030C), (0x1E36, 0x4C0323), (0x13B, 0x4C0327),
    (0x1E3C, 0x4C032D), (0x1E3A, 0x4C0331), (0x1E3E, 0x4D0301), (0x1E40, 0x4D0307),
    (0x1E42, 0x4D0323), (0x1F8, 0x4E0300), (0x143, 0x4E0301), (0xD1, 0x4E0303),
    (0x1E44, 0x4E0307), (0x147, 0x4E030C), (0x1E46, 0x4E0323), (0x145, 0x4E0327),
    (0x1E4A, 0x4E032D), (0x1E48, 0x4E0331), (0xD2, 0x4F0300), (0xD3, 0x4F0301),
    (0xD4, 0x4F0302), (0xD5, 0x4F0303), (0x14C, 0x4F0304), (0x14E, 0x4F0306),
    (0x22E, 0x4F0307), (0xD6, 0x4F0308), (0x1ECE, 0x4F0309), (0x150, 0x4F030B),
    (0x1D1, 0x4F030C), (0x20C, 0x4F030F), (0x20E, 0x4F0311), (0x1A0, 0x4F031B),
    (0x1ECC, 0x4F0323), (0x1EA, 0x4F0328), (0x1E54, 0x500301), (0x1E56, 0x500307),
    (0x154, 0x520301), (0x1E58, 0x520307), (0x158, 0x52030C), (0x210, 0x52030F),
    (0x212, 0x520311), (0x1E5A, 0x520323), (0x156, 0x520327), (0x1E5E, 0x520331),
    (0x15A, 0x530301), (0x15C, 0x530302), (0x1E60, 0x530307), (0x160, 0x53030C),
    (0x1E62, 0x530323), (0x218, 0x530326), (0x15E, 0x530327), (0x1E6A, 0x540307),
    (0x164, 0x54030C), (0x1E6C, 0x540323), (0x21A, 0x540326), (0x162, 0x540327),
    (0x1E70, 0x54032D), (0x1E6E, 0x540331), (0xD9, 0x550300), (0xDA, 0x550301),
    (0xDB, 0x550302), (0x168, 0x550303), (0x16A, 0x550304), (0x16C, 0x550306),
    (0xDC, 0x550308), (0x1EE6, 0x550309), (0x16E, 0x55030A), (0x170, 0x55030B),
    (0x1D3, 0x55030C), (0x214, 0x55030F), (0x216, 0x550311), (0x1AF, 0x55031B),
    (0x1EE4, 0x550323), (0x1E72, 0x550324), (0x172, 0x550328), (0x1E76, 0x55032D),
    (0x1E74, 0x550330), (0x1E7C, 0x560303), (0x1E7E, 0x560323), (0x1E80, 0x570300),
    (0x1E82, 0x570301), (0x174, 0x570302), (0x1E86, 0x570307), (0x1E84, 0x570308),
    (0x1E88, 0x570323), (0x1E8A, 0x580307), (0x1E8C, 0x580308), (0x1EF2, 0x590300),
    (0xDD, 0x590301), (0x176, 0x590302), (0x1EF8, 0x590303), (0x232, 0x590304),
    (0x1E8E, 0x590307), (0x178, 0x590308), (0x1EF6, 0x590309), (0x1EF4, 0x590323),
    (0x179, 0x5A0301), (0x1E90, 0x5A0302), (0x17B, 0x5A0307), (0x17D, 0x5A030C),
    (0x1E92, 0x5A0323), (0x1E94, 0x5A0331), (0xE0, 0x610300), (0xE1, 0x610301),
    (0xE2, 0x610302), (0xE3, 0x610303), (0x101, 0x610304), (0x103, 0x610306),
    (0x227, 0x610307), (0xE4, 0x610308), (0x1EA3, 0x610309), (0xE5, 0x61030A),
    (0x1CE, 0x61030C), (0x201, 0x61030F), (0x203, 0x610311), (0x1EA1, 0x610323),
    (0x1E01, 0x610325), (0x105, 0x610328), (0x1E03, 0x620307), (0x1E05, 0x620323),
    (0x1E07, 0x620331), (0x107, 0x630301), (0x109, 0x630302), (0x10B, 0x630307),
    (0x10D, 0x63030C), (0xE7, 0x630327), (0x1E0B, 0x640307), (0x10F, 0x64030C),
    (0x1E0D, 0x640323), (0x1E11, 0x640327), (0x1E13, 0x64032D), (0x1E0F, 0x640331),
    (0xE8, 0x650300), (0xE9, 0x650301), (0xEA, 0x650302), (0x1EBD, 0x650303),
    (0x113, 0x650304), (0x115, 0x650306), (0x117, 0x650307), (0xEB, 0x650308),
    (0x1EBB, 0x650309), (0x11B, 0x65030C), (0x205, 0x65030F), (0x207, 0x650311),
    (0x1EB9, 0x650323), (0x229, 0x650327), (0x119, 0x650328), (0x1E19, 0x65032D),
    (0x1E1B, 0x650330), (0x1E1F, 0x660307), (0x1F5, 0x670301), (0x11D, 0x670302),
    (0x1E21, 0x670304), (0x11F, 0x670306), (0x121, 0x670307), (0x1E7, 0x67030C),
    (0x123, 0x670327), (0x125, 0x680302), (0x1E23, 0x680307), (0x1E27, 0x680308),
    (0x21F, 0x68030C), (0x1E25, 0x680323), (0x1E29, 0x680327), (0x1E2B, 0x68032E),
    (0x1E96, 0x680331), (0xEC, 0x690300), (0xED, 0x690301), (0xEE, 0x690302),
    (0x129, 0x690303), (0x12B, 0x690304), (0x12D, 0x690306), (0xEF, 0x690308),
    (0x1EC9, 0x690309), (0x1D0, 0x69030C), (0x209, 0x69030F), (0x20B, 0x690311),
    (0x1ECB, 0x690323), (0x12F, 0x690328), (0x1E2D, 0x690330), (0x135, 0x6A0302),
    (0x1F0, 0x6A030C), (0x1E31, 0x6B0301), (0x1E9, 0x6B030C), (0x1E33, 0x6B0323),
    (0x137, 0x6B0327), (0x1E35, 0x6B0331), (0x13A, 0x6C0301), (0x13E, 0x6C030C),
    (0x1E37, 0x6C0323), (0x13C, 0x6C0327), (0x1E3D, 0x6C032D), (0x1E3B, 0x6C0331),
    (0x1E3F, 0x6D0301), (0x1E41, 0x6D0307), (0x1E43, 0x6D0323), (0x1F9, 0x6E0300),
    (0x144, 0x6E0301), (0xF1, 0x6E0303), (0x1E45, 0x6E0307), (0x148, 0x6E030C),
    (0x1E47, 0x6E0323), (0x146, 0x6E0327), (0x1E4B, 0x6E032D), (0x1E49, 0x6E0331),
    (0xF2, 0x6F0300), (0xF3, 0x6F0301), (0xF4, 0x6F0302), (0xF5, 0x6F0303),
    (0x14D, 0x6F0304), (0x14F, 0x6F0306), (0x22F, 0x6F0307), (0xF6, 0x6F0308),
    (0x1ECF, 0x6F0309), (0x151, 0x6F030B), (0x1D2, 0x6F030C), (0x20D, 0x6F030F),
    (0x20F, 0x6F0311), (0x1A1, 0x6F031B), (0x1ECD, 0x6F0323), (0x1EB, 0x6F0328),
    (0x1E55, 0x700301), (0x1E57, 0x700307), (0x155, 0x720301), (0x1E59, 0x720307),
    (0x159, 0x72030C), (0x211, 0x72030F), (0x213, 0x720311), (0x1E5B, 0x720323),
    (0x157, 0x720327), (0x1E5F, 0x720331), (0x15B, 0x730301), (0x15D, 0x730302),
    (0x1E61, 0x730307), (0x161, 0x73030C), (0x1E63, 0x730323), (0x219, 0x730326),
    (0x15F, 0x730327), (0x1E6B, 0x740307), (0x1E97, 0x740308), (0x165, 0x74030C),
    (0x1E6D, 0x740323), (0x21B, 0x740326), (0x163, 0x740327), (0x1E71, 0x74032D),
    (0x1E6F, 0x740331), (0xF9, 0x750300), (0xFA, 0x750301), (0xFB, 0x750302),
    (0x169, 0x750303), (0x16B, 0x750304), (0x16D, 0x750306), (0xFC, 0x750308),
    (0x1EE7, 0x750309), (0x16F, 0x75030A), (0x171, 0x75030B), (0x1D4, 0x75030C),
    (0x215, 0x75030F), (0x217, 0x750311), (0x1B0, 0x75031B), (0x1EE5, 0x750323),
    (0x1E73, 0x750324), (0x173, 0x750328), (0x1E77, 0x75032D), (0x1E75, 0x750330),
    (0x1E7D, 0x760303), (0x1E7F, 0x760323), (0x1E81, 0x770300), (0x1E83, 0x770301),
    (0x175, 0x770302), (0x1E87, 0x770307), (0x1E85, 0x770308), (0x1E98, 0x77030A),
    (0x1E89, 0x770323), (0x1E8B, 0x780307), (0x1E8D, 0x780308), (0x1EF3, 0x790300),
    (0xFD, 0x790301), (0x177, 0x790302), (0x1EF9, 0x790303), (0x233, 0x790304),
    (0x1E8F, 0x790307), (0xFF, 0x790308), (0x1EF7, 0x790309), (0x1E99, 0x79030A),
    (0x1EF5, 0x790323), (0x17A, 0x7A0301), (0x1E91, 0x7A0302), (0x17C, 0x7A0307),
    (0x17E, 0x7A030C), (0x1E93, 0x7A0323), (0x1E95, 0x7A0331), (0x1FED, 0xA80300),
    (0x385, 0xA80301), (0x1FC1, 0xA80342), (0x1EA6, 0xC20300), (0x1EA4, 0xC20301),
    (0x1EAA, 0xC20303), (0x1EA8, 0xC20309), (0x1DE, 0xC40304), (0x1FA, 0xC50301),
    (0x1FC, 0xC60301), (0x1E2, 0xC60304), (0x1E08, 0xC70301), (0x1EC0, 0xCA0300),
    (0x1EBE, 0xCA0301), (0x1EC4, 0xCA0303), (0x1EC2, 0xCA0309), (0x1E2E, 0xCF0301),
    (0x1ED2, 0xD40300), (0x1ED0, 0xD40301), (0x1ED6, 0xD40303), (0x1ED4, 0xD40309),
    (0x1E4C, 0xD50301), (0x22C, 0xD50304), (0x1E4E, 0xD50308), (0x22A, 0xD60304),
    (0x1FE, 0xD80301), (0x1DB, 0xDC0300), (0x1D7, 0xDC0301), (0x1D5, 0xDC0304),
    (0x1D9, 0xDC030C), (0x1EA7, 0xE20300), (0x1EA5, 0xE20301), (0x1EAB, 0xE20303),
    (0x1EA9, 0xE20309), (0x1DF, 0xE40304), (0x1FB, 0xE50301), (0x1FD, 0xE60301),
    (0x1E3, 0xE60304), (0x1E09, 0xE70301), (0x1EC1, 0xEA0300), (0x1EBF, 0xEA0301),
    (0x1EC5, 0xEA0303), (0x1EC3, 0xEA0309), (0x1E2F, 0xEF0301), (0x1ED3, 0xF40300),
    (0x1ED1, 0xF40301), (0x1ED7, 0xF40303), (0x1ED5, 0xF40309), (0x1E4D, 0xF50301),
    (0x22D, 0xF50304), (0x1E4F, 0xF50308), (0x22B, 0xF60304), (0x1FF, 0xF80301),
    (0x1DC, 0xFC0300), (0x1D8, 0xFC0301), (0x1D6, 0xFC0304), (0x1DA, 0xFC030C),
    (0x1EB0, 0x1020300), (0x1EAE, 0x1020301), (0x1EB4, 0x1020303), (0x1EB2, 0x1020309),
    (0x1EB1, 0x1030300), (0x1EAF, 0x1030301), (0x1EB5, 0x1030303), (0x1EB3, 0x1030309),
    (0x1E14, 0x1120300), (0x1E16, 0x1120301), (0x1E15, 0x1130300), (0x1E17, 0x1130301),
    (0x1E50, 0x14C0300), (0x1E52, 0x14C0301), (0x1E51, 0x14D0300), (0x1E53, 0x14D0301),
    (0x1E64, 0x15A0307), (0x1E65, 0x15B0307), (0x1E66, 0x1600307), (0x1E67, 0x1610307),
    (0x1E78, 0x1680301), (0x1E79, 0x1690301), (0x1E7A, 0x16A0308), (0x1E7B, 0x16B0308),
    (0x1E9B, 0x17F0307), (0x1EDC, 0x1A00300), (0x1EDA, 0x1A00301), (0x1EE0, 0x1A00303),
    (0x1EDE, 0x1A00309), (0x1EE2, 0x1A00323), (0x1EDD, 0x1A10300), (0x1EDB, 0x1A10301),
    (0x1EE1, 0x1A10303), (0x1EDF, 0x1A10309), (0x1EE3, 0x1A10323), (0x1EEA, 0x1AF0300),
    (0x1EE8, 0x1AF0301), (0x1EEE, 0x1AF0303), (0x1EEC, 0x1AF0309), (0x1EF0, 0x1AF0323),
    (0x1EEB, 0x1B00300), (0x1EE9, 0x1B00301), (0x1EEF, 0x1B00303), (0x1EED, 0x1B00309),
    (0x1EF1, 0x1B00323), (0x1EE, 0x1B7030C), (0x1EC, 0x1EA0304), (0x1ED, 0x1EB0304),
    (0x1E0, 0x2260304), (0x1E1, 0x2270304), (0x1E1C, 0x2280306), (0x1E1D, 0x2290306),
    (0x230, 0x22E0304), (0x231, 0x22F0304), (0x1EF, 0x292030C), (0x344, 0x3080301),
    (0x1FBA, 0x3910300), (0x386, 0x3910301), (0x1FB9, 0x3910304), (0x1FB8, 0x3910306),
    (0x1F08, 0x3910313), (0x1F09, 0x3910314), (0x1FBC, 0x3910345), (0x1FC8, 0x3950300),
    (0x388, 0x3950301), (0x1F18, 0x3950313), (0x1F19, 0x3950314), (0x1FCA, 0x3970300),
    (0x389, 0x3970301), (0x1F28, 0x3970313), (0x1F29, 0x3970314), (0x1FCC, 0x3970345),
    (0x1FDA, 0x3990300), (0x38A, 0x3990301), (0x1FD9, 0x3990304), (0x1FD8, 0x3990306),
    (0x3AA, 0x3990308), (0x1F38, 0x3990313), (0x1F39, 0x3990314), (0x1FF8, 0x39F0300),
    (0x38C, 0x39F0301), (0x1F48, 0x39F0313), (0x1F49, 0x39F0314), (0x1FEC, 0x3A10314),
    (0x1FEA, 0x3A50300), (0x38E, 0x3A50301), (0x1FE9, 0x3A50304), (0x1FE8, 0x3A50306),
    (0x3AB, 0x3A50308), (0x1F59, 0x3A50314), (0x1FFA, 0x3A90300), (0x38F, 0x3A90301),
    (0x1F68, 0x3A90313), (0x1F69, 0x3A90314), (0x1FFC, 0x3A90345), (0x1FB4, 0x3AC0345),
    (0x1FC4, 0x3AE0345), (0x1F70, 0x3B10300), (0x3AC, 0x3B10301), (0x1FB1, 0x3B10304),
    (0x1FB0, 0x3B10306), (0x1F00, 0x3B10313), (0x1F01, 0x3B10314), (0x1FB6, 0x3B10342),
    (0x1FB3, 0x3B10345), (0x1F72, 0x3B50300), (0x3AD, 0x3B50301), (0x1F10, 0x3B50313),
    (0x1F11, 0x3B50314), (0x1F74, 0x3B70300), (0x3AE, 0x3B70301), (0x1F20, 0x3B70313),
    (0x1F21, 0x3B70314), (0x1FC6, 0x3B70342), (0x1FC3, 0x3B70345), (0x1F76, 0x3B90300),
    (0x3AF, 0x3B90301), (0x1FD1, 0x3B90304), (0x1FD0, 0x3B90306), (0x3CA, 0x3B90308),
    (0x1F30, 0x3B90313), (0x1F31, 0x3B90314), (0x1FD6, 0x3B90342), (0x1F78, 0x3BF0300),
    (0x3CC, 0x3BF0301), (0x1F40, 0x3BF0313), (0x1F41, 0x3BF0314), (0x1FE4, 0x3C10313),
    (0x1FE5, 0x3C10314), (0x1F7A, 0x3C50300), (0x3CD, 0x3C50301), (0x1FE1, 0x3C50304),
    (0x1FE0, 0x3C50306), (0x3CB, 0x3C50308), (0x1F50, 0x3C50313), (0x1F51, 0x3C50314),
    (0x1FE6, 0x3C50342), (0x1F7C, 0x3C90300), (0x3CE, 0x3C90301), (0x1F60, 0x3C90313),
    (0x1F61, 0x3C90314), (0x1FF6, 0x3C90342), (0x1FF3, 0x3C90345), (0x1FD2, 0x3CA0300),
    (0x390, 0x3CA0301), (0x1FD7, 0x3CA0342), (0x1FE2, 0x3CB0300), (0x3B0, 0x3CB0301),
    (0x1FE7, 0x3CB0342), (0x1FF4, 0x3CE0345), (0x3D3, 0x3D20301), (0x3D4, 0x3D20308),
    (0x407, 0x4060308), (0x4D0, 0x4100306), (0x4D2, 0x4100308), (0x403, 0x4130301),
    (0x400, 0x4150300), (0x4D6, 0x4150306), (0x401, 0x4150308), (0x4C1, 0x4160306),
    (0x4DC, 0x4160308), (0x4DE, 0x4170308), (0x40D, 0x4180300), (0x4E2, 0x4180304),
    (0x419, 0x4180306), (0x4E4, 0x4180308), (0x40C, 0x41A0301), (0x4E6, 0x41E0308),
    (0x4EE, 0x4230304), (0x40E, 0x4230306), (0x4F0, 0x4230308), (0x4F2, 0x423030B),
    (0x4F4, 0x4270308), (0x4F8, 0x42B0308), (0x4EC, 0x42D0308), (0x4D1, 0x4300306),
    (0x4D3, 0x4300308), (0x453, 0x4330301), (0x450, 0x4350300), (0x4D7, 0x4350306),
    (0x451, 0x4350308), (0x4C2, 0x4360306), (0x4DD, 0x4360308), (0x4DF, 0x4370308),
    (0x45D, 0x4380300), (0x4E3, 0x4380304), (0x439, 0x4380306), (0x4E5, 0x4380308),
    (0x45C, 0x43A0301), (0x4E7, 0x43E0308), (0x4EF, 0x4430304), (0x45E, 0x4430306),
    (0x4F1, 0x4430308), (0x4F3, 0x443030B), (0x4F5, 0x4470308), (0x4F9, 0x44B0308),
    (0x4ED, 0x44D0308), (0x457, 0x4560308), (0x476, 0x474030F), (0x477, 0x475030F),
    (0x4DA, 0x4D80308), (0x4DB, 0x4D90308), (0x4EA, 0x4E80308), (0x4EB, 0x4E90308),
    (0xFB2E, 0x5D005B7), (0xFB2F, 0x5D005B8), (0xFB30, 0x5D005BC), (0xFB31, 0x5D105BC),
    (0xFB4C, 0x5D105BF), (0xFB32, 0x5D205BC), (0xFB33, 0x5D305BC), (0xFB34, 0x5D405BC),
    (0xFB4B, 0x5D505B9), (0xFB35, 0x5D505BC), (0xFB36, 0x5D605BC), (0xFB38, 0x5D805BC),
    (0xFB1D, 0x5D905B4), (0xFB39, 0x5D905BC), (0xFB3A, 0x5DA05BC), (0xFB3B, 0x5DB05BC),
    (0xFB4D, 0x5DB05BF), (0xFB3C, 0x5DC05BC), (0xFB3E, 0x5DE05BC), (0xFB40, 0x5E005BC),
    (0xFB41, 0x5E105BC), (0xFB43, 0x5E305BC), (0xFB44, 0x5E405BC), (0xFB4E, 0x5E405BF),
    (0xFB46, 0x5E605BC), (0xFB47, 0x5E705BC), (0xFB48, 0x5E805BC), (0xFB49, 0x5E905BC),
    (0xFB2A, 0x5E905C1), (0xFB2B, 0x5E905C2), (0xFB4A, 0x5EA05BC), (0xFB1F, 0x5F205B7),
    (0x622, 0x6270653), (0x623, 0x6270654), (0x625, 0x6270655), (0x624, 0x6480654),
    (0x626, 0x64A0654), (0x6C2, 0x6C10654), (0x6D3, 0x6D20654), (0x6C0, 0x6D50654),
    (0x958, 0x915093C), (0x959, 0x916093C), (0x95A, 0x917093C), (0x95B, 0x91C093C),
    (0x95C, 0x921093C), (0x95D, 0x922093C), (0x929, 0x928093C), (0x95E, 0x92B093C),
    (0x95F, 0x92F093C), (0x931, 0x930093C), (0x934, 0x933093C), (0x9DC, 0x9A109BC),
    (0x9DD, 0x9A209BC), (0x9DF, 0x9AF09BC), (0x9CB, 0x9C709BE), (0x9CC, 0x9C709D7),
    (0xA59, 0xA160A3C), (0xA5A, 0xA170A3C), (0xA5B, 0xA1C0A3C), (0xA5E, 0xA2B0A3C),
    (0xA33, 0xA320A3C), (0xA36, 0xA380A3C), (0xB5C, 0xB210B3C), (0xB5D, 0xB220B3C),
    (0xB4B, 0xB470B3E), (0xB48, 0xB470B56), (0xB4C, 0xB470B57), (0xB94, 0xB920BD7),
    (0xBCA, 0xBC60BBE), (0xBCC, 0xBC60BD7), (0xBCB, 0xBC70BBE), (0xC48, 0xC460C56),
    (0xCC0, 0xCBF0CD5), (0xCCA, 0xCC60CC2), (0xCC7, 0xCC60CD5), (0xCC8, 0xCC60CD6),
    (0xCCB, 0xCCA0CD5), (0xD4A, 0xD460D3E), (0xD4C, 0xD460D57), (0xD4B, 0xD470D3E),
    (0xDDA, 0xDD90DCA), (0xDDC, 0xDD90DCF), (0xDDE, 0xDD90DDF), (0xDDD, 0xDDC0DCA),
    (0xF69, 0xF400FB5), (0xF43, 0xF420FB7), (0xF4D, 0xF4C0FB7), (0xF52, 0xF510FB7),
    (0xF57, 0xF560FB7), (0xF5C, 0xF5B0FB7), (0xF73, 0xF710F72), (0xF75, 0xF710F74),
    (0xF81, 0xF710F80), (0xFB9, 0xF900FB5), (0xF93, 0xF920FB7), (0xF9D, 0xF9C0FB7),
    (0xFA2, 0xFA10FB7), (0xFA7, 0xFA60FB7), (0xFAC, 0xFAB0FB7), (0xF76, 0xFB20F80),
    (0xF78, 0xFB30F80), (0x1026, 0x1025102E), (0x1B06, 0x1B051B35), (0x1B08, 0x1B071B35),
    (0x1B0A, 0x1B091B35), (0x1B0C, 0x1B0B1B35), (0x1B0E, 0x1B0D1B35), (0x1B12, 0x1B111B35),
    (0x1B3B, 0x1B3A1B35), (0x1B3D, 0x1B3C1B35), (0x1B40, 0x1B3E1B35), (0x1B41, 0x1B3F1B35),
    (0x1B43, 0x1B421B35), (0x1E38, 0x1E360304), (0x1E39, 0x1E370304), (0x1E5C, 0x1E5A0304),
    (0x1E5D, 0x1E5B0304), (0x1E68, 0x1E620307), (0x1E69, 0x1E630307), (0x1EAC, 0x1EA00302),
    (0x1EB6, 0x1EA00306), (0x1EAD, 0x1EA10302), (0x1EB7, 0x1EA10306), (0x1EC6, 0x1EB80302),
    (0x1EC7, 0x1EB90302), (0x1ED8, 0x1ECC0302), (0x1ED9, 0x1ECD0302), (0x1F02, 0x1F000300),
    (0x1F04, 0x1F000301), (0x1F06, 0x1F000342), (0x1F80, 0x1F000345), (0x1F03, 0x1F010300),
    (0x1F05, 0x1F010301), (0x1F07, 0x1F010342), (0x1F81, 0x1F010345), (0x1F82, 0x1F020345),
    (0x1F83, 0x1F030345), (0x1F84, 0x1F040345), (0x1F85, 0x1F050345), (0x1F86, 0x1F060345),
    (0x1F87, 0x1F070345), (0x1F0A, 0x1F080300), (0x1F0C, 0x1F080301), (0x1F0E, 0x1F080342),
    (0x1F88, 0x1F080345), (0x1F0B, 0x1F090300), (0x1F0D, 0x1F090301), (0x1F0F, 0x1F090342),
    (0x1F89, 0x1F090345), (0x1F8A, 0x1F0A0345), (0x1F8B, 0x1F0B0345), (0x1F8C, 0x1F0C0345),
    (0x1F8D, 0x1F0D0345), (0x1F8E, 0x1F0E0345), (0x1F8F, 0x1F0F0345), (0x1F12, 0x1F100300),
    (0x1F14, 0x1F100301), (0x1F13, 0x1F110300), (0x1F15, 0x1F110301), (0x1F1A, 0x1F180300),
    (0x1F1C, 0x1F180301), (0x1F1B, 0x1F190300), (0x1F1D, 0x1F190301), (0x1F22, 0x1F200300),
    (0x1F24, 0x1F200301), (0x1F26, 0x1F200342), (0x1F90, 0x1F200345), (0x1F23, 0x1F210300),
    (0x1F25, 0x1F210301), (0x1F27, 0x1F210342), (0x1F91, 0x1F210345), (0x1F92, 0x1F220345),
    (0x1F93, 0x1F230345), (0x1F94, 0x1F240345), (0x1F95, 0x1F250345), (0x1F96, 0x1F260345),
    (0x1F97, 0x1F270345), (0x1F2A, 0x1F280300), (0x1F2C, 0x1F280301), (0x1F2E, 0x1F280342),
    (0x1F98, 0x1F280345), (0x1F2B, 0x1F290300), (0x1F2D, 0x1F290301), (0x1F2F, 0x1F290342),
    (0x1F99, 0x1F290345), (0x1F9A, 0x1F2A0345), (0x1F9B, 0x1F2B0345), (0x1F9C, 0x1F2C0345),
    (0x1F9D, 0x1F2D0345), (0x1F9E, 0x1F2E0345), (0x1F9F, 0x1F2F0345), (0x1F32, 0x1F300300),
    (0x1F34, 0x1F300301), (0x1F36, 0x1F300342), (0x1F33, 0x1F310300), (0x1F35, 0x1F310301),
    (0x1F37, 0x1F310342), (0x1F3A, 0x1F380300), (0x1F3C, 0x1F380301), (0x1F3E, 0x1F380342),
    (0x1F3B, 0x1F390300), (0x1F3D, 0x1F390301), (0x1F3F, 0x1F390342), (0x1F42, 0x1F400300),
    (0x1F44, 0x1F400301), (0x1F43, 0x1F410300), (0x1F45, 0x1F410301), (0x1F4A, 0x1F480300),
    (0x1F4C, 0x1F480301), (0x1F4B, 0x1F490300), (0x1F4D, 0x1F490301), (0x1F52, 0x1F500300),
    (0x1F54, 0x1F500301), (0x1F56, 0x1F500342), (0x1F53, 0x1F510300), (0x1F55, 0x1F510301),
    (0x1F57, 0x1F510342), (0x1F5B, 0x1F590300), (0x1F5D, 0x1F590301), (0x1F5F, 0x1F590342),
    (0x1F62, 0x1F600300), (0x1F64, 0x1F600301), (0x1F66, 0x1F600342), (0x1FA0, 0x1F600345),
    (0x1F63, 0x1F610300), (0x1F65, 0x1F610301), (0x1F67, 0x1F610342), (0x1FA1, 0x1F610345),
    (0x1FA2, 0x1F620345), (0x1FA3, 0x1F630345), (0x1FA4, 0x1F640345), (0x1FA5, 0x1F650345),
    (0x1FA6, 0x1F660345), (0x1FA7, 0x1F670345), (0x1F6A, 0x1F680300), (0x1F6C, 0x1F680301),
    (0x1F6E, 0x1F680342), (0x1FA8, 0x1F680345), (0x1F6B, 0x1F690300), (0x1F6D, 0x1F690301),
    (0x1F6F, 0x1F690342), (0x1FA9, 0x1F690345), (0x1FAA, 0x1F6A0345), (0x1FAB, 0x1F6B0345),
    (0x1FAC, 0x1F6C0345), (0x1FAD, 0x1F6D0345), (0x1FAE, 0x1F6E0345), (0x1FAF, 0x1F6F0345),
    (0x1FB2, 0x1F700345), (0x1FC2, 0x1F740345), (0x1FF2, 0x1F7C0345), (0x1FB7, 0x1FB60345),
    (0x1FCD, 0x1FBF0300), (0x1FCE, 0x1FBF0301), (0x1FCF, 0x1FBF0342), (0x1FC7, 0x1FC60345),
    (0x1FF7, 0x1FF60345), (0x1FDD, 0x1FFE0300), (0x1FDE, 0x1FFE0301), (0x1FDF, 0x1FFE0342),
    (0x219A, 0x21900338), (0x219B, 0x21920338), (0x21AE, 0x21940338), (0x21CD, 0x21D00338),
    (0x21CF, 0x21D20338), (0x21CE, 0x21D40338), (0x2204, 0x22030338), (0x2209, 0x22080338),
    (0x220C, 0x220B0338), (0x2224, 0x22230338), (0x2226, 0x22250338), (0x2241, 0x223C0338),
    (0x2244, 0x22430338), (0x2247, 0x22450338), (0x2249, 0x22480338), (0x226D, 0x224D0338),
    (0x2262, 0x22610338), (0x2270, 0x22640338), (0x2271, 0x22650338), (0x2274, 0x22720338),
    (0x2275, 0x22730338), (0x2278, 0x22760338), (0x2279, 0x22770338), (0x2280, 0x227A0338),
    (0x2281, 0x227B0338), (0x22E0, 0x227C0338), (0x22E1, 0x227D0338), (0x2284, 0x22820338),
    (0x2285, 0x22830338), (0x2288, 0x22860338), (0x2289, 0x22870338), (0x22E2, 0x22910338),
    (0x22E3, 0x22920338), (0x22AC, 0x22A20338), (0x22AD, 0x22A80338), (0x22AE, 0x22A90338),
    (0x22AF, 0x22AB0338), (0x22EA, 0x22B20338), (0x22EB, 0x22B30338), (0x22EC, 0x22B40338),
    (0x22ED, 0x22B50338), (0x2ADC, 0x2ADD0338), (0x3094, 0x30463099), (0x304C, 0x304B3099),
    (0x304E, 0x304D3099), (0x3050, 0x304F3099), (0x3052, 0x30513099), (0x3054, 0x30533099),
    (0x3056, 0x30553099), (0x3058, 0x30573099), (0x305A, 0x30593099), (0x305C, 0x305B3099),
    (0x305E, 0x305D3099), (0x3060, 0x305F3099), (0x3062, 0x30613099), (0x3065, 0x30643099),
    (0x3067, 0x30663099), (0x3069, 0x30683099), (0x3070, 0x306F3099), (0x3071, 0x306F309A),
    (0x3073, 0x30723099), (0x3074, 0x3072309A), (0x3076, 0x30753099), (0x3077, 0x3075309A),
    (0x3079, 0x30783099), (0x307A, 0x3078309A), (0x307C, 0x307B3099), (0x307D, 0x307B309A),
    (0x309E, 0x309D3099), (0x30F4, 0x30A63099), (0x30AC, 0x30AB3099), (0x30AE, 0x30AD3099),
    (0x30B0, 0x30AF3099), (0x30B2, 0x30B13099), (0x30B4, 0x30B33099), (0x30B6, 0x30B53099),
    (0x30B8, 0x30B73099), (0x30BA, 0x30B93099), (0x30BC, 0x30BB3099), (0x30BE, 0x30BD3099),
    (0x30C0, 0x30BF3099), (0x30C2, 0x30C13099), (0x30C5, 0x30C43099), (0x30C7, 0x30C63099),
    (0x30C9, 0x30C83099), (0x30D0, 0x30CF3099), (0x30D1, 0x30CF309A), (0x30D3, 0x30D23099),
    (0x30D4, 0x30D2309A), (0x30D6, 0x30D53099), (0x30D7, 0x30D5309A), (0x30D9, 0x30D83099),
    (0x30DA, 0x30D8309A), (0x30DC, 0x30DB3099), (0x30DD, 0x30DB309A), (0x30F7, 0x30EF3099),
    (0x30F8, 0x30F03099), (0x30F9, 0x30F13099), (0x30FA, 0x30F23099), (0x30FE, 0x30FD3099),
    (0xFB2C, 0xFB4905C1), (0xFB2D, 0xFB4905C2)]"

definition delta :: "nat list" where
  "delta = [499, 249, 125, 62, 31, 16, 8, 4, 2, 1, 0]"

section \<open>What the search relies on\<close>

fun ascending :: "nat list \<Rightarrow> bool" where
  "ascending (x # y # zs) \<longleftrightarrow> x < y \<and> ascending (y # zs)"
| "ascending _ \<longleftrightarrow> True"

lemma ascending_sorted: "ascending xs \<Longrightarrow> sorted xs \<and> distinct xs"
  by (induction xs rule: ascending.induct) auto

lemma length_table [simp]: "length table = 998"
  by (simp add: table_def)

lemma table_patterns: "sorted (map snd table) \<and> distinct (map snd table)"
proof -
  have "ascending (map snd table)" by (simp add: table_def)
  then show ?thesis by (rule ascending_sorted)
qed

lemma table_precomposed_bounds: "list_all (\<lambda>(c, p). c < 65536 \<and> p < 4294967296) table"
  by (simp add: table_def)

end
