(* ===== verification/Unicode.thy ===== *)
theory Unicode
  imports Unicode_Table
begin

text \<open>
  The UTF-8 and UCS-2 routines of \<open>lib/unicode.c\<close>.  A UCS-2 character is a
  natural below 65536 and a C string the bytes of its buffer.  Masks and shifts
  of a byte are written as \<open>mod\<close> and \<open>div\<close>, an \<open>OR\<close> of disjoint bits as a sum.
  A read outside the string's buffer or outside a table is \<^term>\<open>None\<close>.
\<close>

type_synonym char16 = nat

section \<open>Composition\<close>

text \<open>\<open>UCS2precompose\<close>: the list is \<open>delta + j\<close>, the loop ends at its 0.\<close>

fun UCS2precompose_loop :: "int \<Rightarrow> nat list \<Rightarrow> nat \<Rightarrow> int option" where
  "UCS2precompose_loop i [] needle = None"
| "UCS2precompose_loop i (d # ds) needle =
     (if d = 0 then Some (-1)
      else case ds of
          [] \<Rightarrow> None
        | d' # _ \<Rightarrow>
            if i < 0 \<or> int (length table) \<le> i then None
            else if needle < snd (table ! nat i) then UCS2precompose_loop (i - int d') ds needle
            else if needle > snd (table ! nat i) then UCS2precompose_loop (i + int d') ds needle
            else Some (int (fst (table ! nat i))))"

definition UCS2precompose :: "char16 \<Rightarrow> char16 \<Rightarrow> int option" where
  "UCS2precompose first second = UCS2precompose_loop (int (hd delta)) delta (first * 65536 + second)"

section \<open>Lengths\<close>

text \<open>The leading one bits of a byte, from bit \<open>k - 1\<close> down.\<close>

fun leading_ones :: "byte \<Rightarrow> nat \<Rightarrow> nat" where
  "leading_ones c 0 = 0"
| "leading_ones c (Suc k) = (if unat c div 2 ^ k mod 2 = 1 then Suc (leading_ones c k) else 0)"

definition mbCharLen :: "byte \<Rightarrow> nat" where
  "mbCharLen c =
     (if c \<noteq> 0 then
        (let count = leading_ones c 8 in
         if count = 0 then 1 else if count = 1 then 0 else count)
      else 0)"

function mbStrLen_loop :: "bytes \<Rightarrow> nat \<Rightarrow> nat \<Rightarrow> nat \<Rightarrow> nat option" where
  "mbStrLen_loop str lim p len =
     (if p < lim then
        (if length str \<le> p then None
         else if str ! p \<noteq> 0 \<and> mbCharLen (str ! p) > 0 then
           (let clen = mbCharLen (str ! p) in
            if p + clen > lim then Some len
            else mbStrLen_loop str lim (p + clen) (len + 1))
         else Some len)
      else Some len)"
  by pat_completeness auto
termination by (relation "measure (\<lambda>(str, lim, p, len). lim - p)") auto

definition mbStrLen :: "bytes option \<Rightarrow> nat \<Rightarrow> nat option" where
  "mbStrLen str max_bytes =
     (case str of
        None \<Rightarrow> Some 0
      | Some s \<Rightarrow> if max_bytes = 0 then Some 0 else mbStrLen_loop s max_bytes 0 0)"

section \<open>Decoding\<close>

text \<open>One sequence of \<open>clen\<close> bytes: the character and whether it was replaced
  (by an asterisk, code 42; a character beyond UCS-2 is a tilde, code 126).\<close>

definition continuation :: "byte \<Rightarrow> bool" where
  "continuation b \<longleftrightarrow> unat b div 64 = 2"

definition decode_sequence :: "bytes \<Rightarrow> char16 \<times> bool" where
  "decode_sequence q =
     (let b0 = unat (q ! 0); b1 = unat (q ! 1); b2 = unat (q ! 2) in
      if length q = 1 then (b0, False)
      else if length q = 2 then
        (let c16 = b1 mod 64 + (b0 mod 32) * 64 in
         if c16 \<le> 0x7f \<or> \<not> continuation (q ! 1) then (42, True) else (c16, False))
      else if length q = 3 then
        (let c16 = b2 mod 64 + (b1 mod 64) * 64 + (b0 mod 16) * 4096 in
         if c16 \<le> 0x7ff \<or> \<not> continuation (q ! 1) \<or> \<not> continuation (q ! 2)
            \<or> (0xd800 \<le> c16 \<and> c16 \<le> 0xdfff)
         then (42, True) else (c16, False))
      else if length q = 4 \<and> b0 \<le> 0xf4 \<and> continuation (q ! 1) \<and> continuation (q ! 2)
              \<and> continuation (q ! 3) \<and> (b0 \<noteq> 0xf0 \<or> 0x90 \<le> b1) \<and> (b0 \<noteq> 0xf4 \<or> b1 \<le> 0x8f)
      then (126, False) else (42, True))"

text \<open>What \<open>UTF8toUCS2\<close> leaves: its result, the characters before the
  terminator of \<open>dest\<close>, the bytes consumed and the sequences replaced.\<close>

record decoded =
  dec_ret :: int
  dec_dest :: "char16 list"
  dec_consumed :: nat
  dec_substituted :: nat

definition decode_failed :: decoded where
  "decode_failed = \<lparr>dec_ret = -1, dec_dest = [], dec_consumed = 0, dec_substituted = 0\<rparr>"

function UTF8toUCS2_loop ::
  "bytes \<Rightarrow> nat \<Rightarrow> nat \<Rightarrow> nat \<Rightarrow> char16 list \<Rightarrow> nat \<Rightarrow> decoded option" where
  "UTF8toUCS2_loop str lim dest_chars p out replaced =
     (let stop = Some \<lparr>dec_ret = int (length out), dec_dest = out, dec_consumed = p,
                        dec_substituted = replaced\<rparr> in
      if p < lim then
        (if length str \<le> p then None
         else if str ! p \<noteq> 0 \<and> mbCharLen (str ! p) > 0 then
           (let clen = mbCharLen (str ! p) in
            if p + clen > lim then stop
            else if length out + 1 \<ge> dest_chars then Some decode_failed
            else if p + clen > length str then None
            else (let (c16, rep) = decode_sequence (take clen (drop p str)) in
                  UTF8toUCS2_loop str lim dest_chars (p + clen) (out @ [c16])
                    (if rep then replaced + 1 else replaced)))
         else stop)
      else stop)"
  by pat_completeness auto
termination by (relation "measure (\<lambda>(str, lim, dest_chars, p, out, replaced). lim - p)") auto

definition UTF8toUCS2 :: "bytes option \<Rightarrow> nat \<Rightarrow> nat \<Rightarrow> decoded option" where
  "UTF8toUCS2 str max_bytes dest_chars =
     (if dest_chars = 0 then Some decode_failed
      else case str of
          None \<Rightarrow> Some \<lparr>dec_ret = 0, dec_dest = [], dec_consumed = 0, dec_substituted = 0\<rparr>
        | Some s \<Rightarrow>
            if max_bytes = 0
            then Some \<lparr>dec_ret = 0, dec_dest = [], dec_consumed = 0, dec_substituted = 0\<rparr>
            else UTF8toUCS2_loop s max_bytes dest_chars 0 [] 0)"

section \<open>Encoding\<close>

text \<open>The bytes of one character, from the low and the high byte of its
  little-endian representation.\<close>

definition encode_char16 :: "char16 \<Rightarrow> bytes" where
  "encode_char16 c =
     (let lo = c mod 256; hi = c div 256 in
      if c < 0x80 then [of_nat lo]
      else if c < 0x800 then
        [of_nat (0xc0 + (hi mod 8) * 4 + lo div 64), of_nat (0x80 + lo mod 64)]
      else
        [of_nat (0xe0 + hi div 16), of_nat (0x80 + (hi mod 16) * 4 + lo div 64),
         of_nat (0x80 + lo mod 64)])"

fun UCS2toUTF8_loop :: "char16 list \<Rightarrow> nat \<Rightarrow> nat \<Rightarrow> bytes \<Rightarrow> bytes option" where
  "UCS2toUTF8_loop [] max_chars dest_len out = Some out"
| "UCS2toUTF8_loop (c # cs) max_chars dest_len out =
     (if max_chars = 0 \<or> c = 0 then Some out
      else if length out + length (encode_char16 c) + 1 > dest_len then None
      else UCS2toUTF8_loop cs (max_chars - 1) dest_len (out @ encode_char16 c))"

text \<open>\<open>UCS2toUTF8\<close>: the result and the string in \<open>dest\<close>; the characters end at
  their terminator.\<close>

definition UCS2toUTF8 :: "char16 list option \<Rightarrow> nat \<Rightarrow> nat \<Rightarrow> int \<times> bytes" where
  "UCS2toUTF8 str16 max_chars dest_len =
     (case str16 of
        None \<Rightarrow> (-1, [])
      | Some cs \<Rightarrow>
          if dest_len = 0 then (-1, [])
          else case UCS2toUTF8_loop cs max_chars dest_len [] of
              None \<Rightarrow> (-1, [])
            | Some out \<Rightarrow> (0, out))"

section \<open>Decomposition\<close>

text \<open>\<open>build_decompose_index\<close>: the indices of the entries behind the dummy,
  sorted by precomposed character.\<close>

definition build_decompose_index :: "nat list" where
  "build_decompose_index = 0 # sort_key (\<lambda>i. fst (table ! i)) [1..<length table]"

function UCS2decompose_loop :: "nat list \<Rightarrow> nat \<Rightarrow> nat \<Rightarrow> char16 \<Rightarrow> (char16 \<times> char16) option" where
  "UCS2decompose_loop index low high c =
     (if low < high then
        (let mid = low + (high - low) div 2; entry = index ! mid in
         if fst (table ! entry) < c then UCS2decompose_loop index (mid + 1) high c
         else if fst (table ! entry) > c then UCS2decompose_loop index low mid c
         else Some (snd (table ! entry) div 65536 mod 65536, snd (table ! entry) mod 65536))
      else None)"
  by pat_completeness auto
termination by (relation "measure (\<lambda>(index, low, high, c). high - low)") auto

text \<open>\<open>UCS2decompose\<close>: the pair it stores when it returns 1.\<close>

definition UCS2decompose :: "char16 \<Rightarrow> (char16 \<times> char16) option" where
  "UCS2decompose c = UCS2decompose_loop build_decompose_index 1 (length table) c"

declare mbStrLen_loop.simps [simp del] UTF8toUCS2_loop.simps [simp del]
  UCS2decompose_loop.simps [simp del]

section \<open>The uniform binary search\<close>

text \<open>A list of steps reaches every index within the sum of the later steps.\<close>

fun reaching :: "nat list \<Rightarrow> bool" where
  "reaching [] \<longleftrightarrow> False"
| "reaching [d] \<longleftrightarrow> d = 0"
| "reaching (d # d' # ds) \<longleftrightarrow> d \<noteq> 0 \<and> (d' = 0 \<longrightarrow> ds = []) \<and> d' \<le> sum_list ds + 1 \<and> reaching (d' # ds)"

lemma pattern_less:
  "k < length table \<Longrightarrow> j < length table \<Longrightarrow> snd (table ! k) < snd (table ! j) \<longleftrightarrow> k < j"
proof -
  assume k: "k < length table" and j: "j < length table"
  have sw: "sorted_wrt (<) (map snd table)"
    using table_patterns by (simp add: strict_sorted_iff)
  have lt: "a < b \<Longrightarrow> b < length table \<Longrightarrow> snd (table ! a) < snd (table ! b)" for a b
    using sorted_wrt_nth_less [OF sw, of a b] by simp
  show ?thesis using lt [of k j] lt [of j k] k j by (metis less_asym' linorder_neqE_nat)
qed

lemma search_hit:
  assumes "reaching ds" "ds \<noteq> [0]" "k < length table"
    and "int k - i \<le> int (sum_list (tl ds))" "i - int k \<le> int (sum_list (tl ds))"
    and "1 \<le> i - int (sum_list (tl ds))" "i + int (sum_list (tl ds)) < int (length table)"
  shows "UCS2precompose_loop i ds (snd (table ! k)) = Some (int (fst (table ! k)))"
  using assms
proof (induction ds arbitrary: i rule: reaching.induct)
  case (3 d d' ds)
  let ?n = "nat i"
  have i: "int ?n = i" "?n < length table" using "3.prems" by auto
  have cmp: "snd (table ! k) < snd (table ! ?n) \<longleftrightarrow> k < ?n"
    "snd (table ! ?n) < snd (table ! k) \<longleftrightarrow> ?n < k"
    using pattern_less "3.prems"(3) i(2) by blast+
  consider "k < ?n" | "?n < k" | "k = ?n" by linarith
  then show ?case
  proof cases
    case 1
    then have "d' # ds \<noteq> [0]" using "3.prems" i(1) by auto
    then show ?thesis using 1 "3.prems" i cmp "3.IH" [of "i - int d'"] by auto
  next
    case 2
    then have "d' # ds \<noteq> [0]" using "3.prems" i(1) by auto
    then show ?thesis using 2 "3.prems" i cmp "3.IH" [of "i + int d'"] by auto
  next
    case 3
    then show ?thesis using "3.prems" i by auto
  qed
qed auto

lemma search_miss:
  assumes "reaching ds" "\<And>k. 1 \<le> k \<Longrightarrow> k < length table \<Longrightarrow> snd (table ! k) \<noteq> needle"
    and "1 \<le> i - int (sum_list (tl ds))" "i + int (sum_list (tl ds)) < int (length table)"
  shows "UCS2precompose_loop i ds needle = Some (-1)"
  using assms
proof (induction ds arbitrary: i rule: reaching.induct)
  case (3 d d' ds)
  have n: "1 \<le> nat i" "nat i < length table" "0 \<le> i" using "3.prems" by auto
  then have "snd (table ! nat i) \<noteq> needle" using "3.prems"(2) by blast
  then have "needle < snd (table ! nat i) \<or> snd (table ! nat i) < needle" by linarith
  then show ?case
    using "3.prems" n "3.IH" [of "i - int d'"] "3.IH" [of "i + int d'"] by auto
qed auto

lemma reaching_delta: "reaching delta"
  by (simp add: delta_def)

lemma precompose_entry:
  assumes "1 \<le> k" "k < length table" "first * 65536 + second = snd (table ! k)"
  shows "UCS2precompose first second = Some (int (fst (table ! k)))"
  unfolding UCS2precompose_def assms(3)
  by (rule search_hit) (use assms reaching_delta in \<open>auto simp: delta_def\<close>)

lemma precompose_no_entry:
  assumes "\<And>k. 1 \<le> k \<Longrightarrow> k < length table \<Longrightarrow> snd (table ! k) \<noteq> first * 65536 + second"
  shows "UCS2precompose first second = Some (-1)"
  unfolding UCS2precompose_def
  by (rule search_miss [OF reaching_delta assms]) (auto simp: delta_def)

text \<open>The table without its dummy, as the dictionary the search stands for.\<close>

definition compositions :: "(nat \<times> nat) list" where
  "compositions = map (\<lambda>(c, p). (p, c)) (tl table)"

lemma compositions_nth: "k < 997 \<Longrightarrow> compositions ! k = (snd (table ! Suc k), fst (table ! Suc k))"
  by (simp add: compositions_def nth_tl case_prod_beta)

lemma length_compositions [simp]: "length compositions = 997"
  by (simp add: compositions_def)

lemma distinct_compositions: "distinct (map fst compositions)"
proof -
  have "map fst compositions = tl (map snd table)"
    by (simp add: compositions_def case_prod_beta map_tl comp_def)
  then show ?thesis using table_patterns by (simp add: distinct_tl)
qed

lemma precompose_lookup:
  "UCS2precompose first second =
     Some (case map_of compositions (first * 65536 + second) of Some c \<Rightarrow> int c | None \<Rightarrow> -1)"
proof (cases "map_of compositions (first * 65536 + second)")
  case None
  have "snd (table ! k) \<noteq> first * 65536 + second" if k: "1 \<le> k" "k < length table" for k
  proof -
    have "k - 1 < 997" "Suc (k - 1) = k" using k by auto
    then have "compositions ! (k - 1) = (snd (table ! k), fst (table ! k))"
      using compositions_nth [of "k - 1"] by simp
    then have "(snd (table ! k), fst (table ! k)) \<in> set compositions"
      by (metis \<open>k - 1 < 997\<close> length_compositions nth_mem)
    then show ?thesis using None by (auto simp: map_of_eq_None_iff image_iff)
  qed
  then have "UCS2precompose first second = Some (-1)" by (rule precompose_no_entry)
  then show ?thesis using None by simp
next
  case (Some c)
  then have "(first * 65536 + second, c) \<in> set compositions" by (rule map_of_SomeD)
  then obtain j where j: "j < 997" "compositions ! j = (first * 65536 + second, c)"
    by (auto simp: in_set_conv_nth)
  then have "UCS2precompose first second = Some (int (fst (table ! Suc j)))"
    using compositions_nth [of j] by (intro precompose_entry) auto
  then show ?thesis using Some j compositions_nth [of j] by simp
qed

section \<open>Decomposition inverts composition\<close>

abbreviation index_sorted :: "nat list \<Rightarrow> bool" where
  "index_sorted index \<equiv> \<forall>a b. 1 \<le> a \<longrightarrow> a \<le> b \<longrightarrow> b < length index
     \<longrightarrow> fst (table ! (index ! a)) \<le> fst (table ! (index ! b))"

lemma decompose_loop_sound:
  assumes "UCS2decompose_loop index low high c = Some (a, b)" "1 \<le> low" "high \<le> length index"
  shows "\<exists>m. 1 \<le> m \<and> m < length index \<and> fst (table ! (index ! m)) = c \<and>
     a = snd (table ! (index ! m)) div 65536 mod 65536 \<and> b = snd (table ! (index ! m)) mod 65536"
  using assms
proof (induction index low high c rule: UCS2decompose_loop.induct)
  case (1 index low high c)
  let ?mid = "low + (high - low) div 2"
  note r = "1.prems"(1) [unfolded UCS2decompose_loop.simps [of index low high c] Let_def]
  have lh: "low < high" using r by (simp split: if_splits)
  then have mid: "1 \<le> ?mid" "?mid < length index" using "1.prems" by auto
  consider "fst (table ! (index ! ?mid)) < c" | "fst (table ! (index ! ?mid)) > c"
    | "fst (table ! (index ! ?mid)) = c" by linarith
  then show ?case
  proof cases
    case 3
    then show ?thesis using r lh mid by (intro exI [of _ ?mid]) simp
  qed (use r lh mid "1.prems" "1.IH" in auto)
qed

lemma decompose_loop_complete:
  assumes "low \<le> m" "m < high" "high \<le> length index" "1 \<le> low"
    and "fst (table ! (index ! m)) = c" "index_sorted index"
  shows "UCS2decompose_loop index low high c \<noteq> None"
  using assms
proof (induction index low high c rule: UCS2decompose_loop.induct)
  case (1 index low high c)
  let ?mid = "low + (high - low) div 2"
  have mid: "low \<le> ?mid" "?mid < high" using "1.prems" by auto
  have le: "a \<le> b \<Longrightarrow> 1 \<le> a \<Longrightarrow> b < length index
     \<Longrightarrow> fst (table ! (index ! a)) \<le> fst (table ! (index ! b))" for a b
    using "1.prems"(6) by blast
  consider "fst (table ! (index ! ?mid)) < c" | "fst (table ! (index ! ?mid)) > c"
    | "fst (table ! (index ! ?mid)) = c" by linarith
  then show ?case
  proof cases
    case c1: 1
    have "?mid + 1 \<le> m"
      using le [of m ?mid] c1 "1.prems" mid by (cases "m \<le> ?mid") auto
    then show ?thesis
      using "1.IH"(1) [OF _ refl refl c1] "1.prems" mid c1
      by (subst UCS2decompose_loop.simps) (simp add: Let_def)
  next
    case c2: 2
    have "m < ?mid"
      using le [of ?mid m] c2 "1.prems" mid by (cases "?mid \<le> m") auto
    then show ?thesis
      using "1.IH"(2) [OF _ refl refl] c2 "1.prems" mid
      by (subst UCS2decompose_loop.simps) (simp add: Let_def)
  next
    case 3
    then show ?thesis
      using "1.prems" by (subst UCS2decompose_loop.simps) (simp add: Let_def)
  qed
qed

lemma length_build_decompose_index [simp]: "length build_decompose_index = 998"
  by (simp add: build_decompose_index_def)

lemma decompose_index_range:
  "1 \<le> m \<Longrightarrow> m < 998 \<Longrightarrow> 1 \<le> build_decompose_index ! m \<and> build_decompose_index ! m < 998"
proof -
  assume "1 \<le> m" "m < 998"
  then have "build_decompose_index ! m \<in> set (sort_key (\<lambda>i. fst (table ! i)) [1..<length table])"
    unfolding build_decompose_index_def by (subst nth_Cons', auto simp del: set_sort intro!: nth_mem)
  then show ?thesis by auto
qed

lemma decompose_index_sorted: "index_sorted build_decompose_index"
proof (intro allI impI)
  fix a b :: nat assume ab: "1 \<le> a" "a \<le> b" "b < length build_decompose_index"
  let ?s = "sort_key (\<lambda>i. fst (table ! i)) [1..<length table]"
  have "sorted (map (\<lambda>i. fst (table ! i)) ?s)" by (rule sorted_sort_key)
  from sorted_nth_mono [OF this, of "a - 1" "b - 1"]
  show "fst (table ! (build_decompose_index ! a)) \<le> fst (table ! (build_decompose_index ! b))"
    using ab by (simp add: build_decompose_index_def nth_Cons' diff_le_mono)
qed

lemma decompose_precompose_entry:
  assumes "UCS2decompose c = Some (a, b)"
  shows "UCS2precompose a b = Some (int c) \<and> a < 65536 \<and> b < 65536"
proof -
  obtain m where m: "1 \<le> m" "m < 998" "fst (table ! (build_decompose_index ! m)) = c"
      "a = snd (table ! (build_decompose_index ! m)) div 65536 mod 65536"
      "b = snd (table ! (build_decompose_index ! m)) mod 65536"
    using decompose_loop_sound [OF assms [unfolded UCS2decompose_def]] by auto
  let ?k = "build_decompose_index ! m"
  have k: "1 \<le> ?k" "?k < length table" using decompose_index_range m by auto
  then have "snd (table ! ?k) < 4294967296"
    using table_precomposed_bounds by (auto simp: list_all_length case_prod_beta)
  then have "a * 65536 + b = snd (table ! ?k)" using m by simp
  then show ?thesis using precompose_entry [OF k] m by simp
qed

lemma decompose_complete:
  assumes "1 \<le> k" "k < 998"
  shows "UCS2decompose (fst (table ! k)) \<noteq> None"
proof -
  have "k \<in> set (sort_key (\<lambda>i. fst (table ! i)) [1..<length table])" using assms by simp
  then obtain j where "j < 997" "sort_key (\<lambda>i. fst (table ! i)) [1..<length table] ! j = k"
    by (auto simp: in_set_conv_nth simp del: set_sort)
  then have "build_decompose_index ! Suc j = k" "Suc j < 998"
    by (simp_all add: build_decompose_index_def)
  then show ?thesis
    unfolding UCS2decompose_def
    by (intro decompose_loop_complete [of _ "Suc j"]) (auto intro: decompose_index_sorted [rule_format])
qed

section \<open>Encoding and decoding\<close>

lemma leading_ones_8:
  "leading_ones c 8 =
     (if unat c < 128 then 0 else if unat c < 192 then 1 else if unat c < 224 then 2
      else if unat c < 240 then 3 else if unat c < 248 then 4 else if unat c < 252 then 5
      else if unat c < 254 then 6 else if unat c < 255 then 7 else 8)"
proof -
  have b: "unat c < 256" by simp
  have "(8 :: nat) = Suc (Suc (Suc (Suc (Suc (Suc (Suc (Suc 0)))))))" by simp
  then have e: "leading_ones c 8 =
     (if unat c div 128 mod 2 = 1 then Suc (
      if unat c div 64 mod 2 = 1 then Suc (
      if unat c div 32 mod 2 = 1 then Suc (
      if unat c div 16 mod 2 = 1 then Suc (
      if unat c div 8 mod 2 = 1 then Suc (
      if unat c div 4 mod 2 = 1 then Suc (
      if unat c div 2 mod 2 = 1 then Suc (
      if unat c mod 2 = 1 then Suc 0
      else 0) else 0) else 0) else 0) else 0) else 0) else 0) else 0)"
    by (simp only: leading_ones.simps) simp
  consider "unat c < 128" | "128 \<le> unat c" "unat c < 192" | "192 \<le> unat c" "unat c < 224"
    | "224 \<le> unat c" "unat c < 240" | "240 \<le> unat c" "unat c < 248"
    | "248 \<le> unat c" "unat c < 252" | "252 \<le> unat c" "unat c < 254" | "unat c = 254"
    | "unat c = 255"
    using b by linarith
  then show ?thesis
  proof cases
    case 1
    then show ?thesis by (simp add: e)
  next
    case 2
    then have "unat c div 128 = 1" "unat c div 64 = 2" by linarith+
    then show ?thesis using 2 by (simp add: e)
  next
    case 3
    then have "unat c div 128 = 1" "unat c div 64 = 3" "unat c div 32 = 6" by linarith+
    then show ?thesis using 3 by (simp add: e)
  next
    case 4
    then have "unat c div 128 = 1" "unat c div 64 = 3" "unat c div 32 = 7" "unat c div 16 = 14"
      by linarith+
    then show ?thesis using 4 by (simp add: e)
  next
    case 5
    then have "unat c div 128 = 1" "unat c div 64 = 3" "unat c div 32 = 7" "unat c div 16 = 15"
      "unat c div 8 = 30" by linarith+
    then show ?thesis using 5 by (simp add: e)
  next
    case 6
    then have "unat c div 128 = 1" "unat c div 64 = 3" "unat c div 32 = 7" "unat c div 16 = 15"
      "unat c div 8 = 31" "unat c div 4 = 62" by linarith+
    then show ?thesis using 6 by (simp add: e)
  next
    case 7
    then have "unat c div 128 = 1" "unat c div 64 = 3" "unat c div 32 = 7" "unat c div 16 = 15"
      "unat c div 8 = 31" "unat c div 4 = 63" "unat c div 2 = 126" by linarith+
    then show ?thesis using 7 by (simp add: e)
  qed (simp_all add: e)
qed

lemma mbCharLen_cases:
  "mbCharLen c =
     (if c = 0 then 0 else if unat c < 128 then 1 else if unat c < 192 then 0
      else if unat c < 224 then 2 else if unat c < 240 then 3 else if unat c < 248 then 4
      else if unat c < 252 then 5 else if unat c < 254 then 6 else if unat c < 255 then 7 else 8)"
  by (simp add: mbCharLen_def leading_ones_8)

text \<open>The characters UTF-8 has one encoding for: not the terminator, no surrogate.\<close>

definition scalar16 :: "char16 \<Rightarrow> bool" where
  "scalar16 c \<longleftrightarrow> 0 < c \<and> c < 65536 \<and> \<not> (0xd800 \<le> c \<and> c \<le> 0xdfff)"

lemma low_high_bits:
  fixes c :: nat
  shows "c div 256 mod 16 * 4 + c mod 256 div 64 = c div 64 mod 64"
    and "c < 0x800 \<Longrightarrow> c div 256 mod 8 * 4 + c mod 256 div 64 = c div 64"
    and "c mod 64 + (c div 64 mod 64) * 64 + (c div 4096) * 4096 = c"
proof -
  have d: "c div 256 = c div 64 div 4" by (simp add: div_mult2_eq [symmetric])
  have m: "c mod 256 div 64 = c div 64 mod 4" using mod_mult2_eq [of c 64 4] by simp
  show "c div 256 mod 16 * 4 + c mod 256 div 64 = c div 64 mod 64"
    using d m mod_mult2_eq [of "c div 64" 4 16] by simp
  show "c div 256 mod 8 * 4 + c mod 256 div 64 = c div 64" if "c < 0x800"
  proof -
    have "c div 64 mod 32 = c div 64" using that by (simp add: mod_less)
    then show ?thesis using d m mod_mult2_eq [of "c div 64" 4 8] by simp
  qed
  show "c mod 64 + (c div 64 mod 64) * 64 + (c div 4096) * 4096 = c"
    using mod_mult2_eq [of c 64 64] div_mult_mod_eq [of c 4096] by simp
qed

lemma encode_char16_split:
  "c < 65536 \<Longrightarrow> encode_char16 c =
     (if c < 0x80 then [of_nat c]
      else if c < 0x800 then [of_nat (192 + c div 64), of_nat (128 + c mod 64)]
      else [of_nat (224 + c div 4096), of_nat (128 + c div 64 mod 64), of_nat (128 + c mod 64)])"
proof -
  assume "c < 65536"
  have 1: "c mod 256 mod 64 = c mod 64" by (simp add: mod_mod_cancel)
  have 2: "c div 256 div 16 = c div 4096" by (simp add: div_mult2_eq [symmetric])
  show ?thesis
    unfolding encode_char16_def Let_def add.assoc 1 2
    using low_high_bits(1,2) [of c] by simp
qed

lemma encode_char16_length: "0 < length (encode_char16 c) \<and> length (encode_char16 c) \<le> 3"
  by (simp add: encode_char16_def Let_def)

lemma decode_two:
  assumes "unat a = 192 + x" "unat b = 128 + y" "2 \<le> x" "x < 32" "y < 64"
  shows "a \<noteq> 0 \<and> mbCharLen a = 2 \<and> decode_sequence [a, b] = (y + x * 64, False)"
proof -
  have "a \<noteq> 0" using assms(1) by auto
  moreover have "(192 + x) mod 32 = x" "(128 + y) mod 64 = y" "(128 + y) div 64 = 2"
    using assms mod_mult_self3 [of 6 32 x] mod_mult_self3 [of 2 64 y] by auto
  ultimately show ?thesis
    using assms by (simp add: mbCharLen_cases decode_sequence_def continuation_def Let_def)
qed

lemma decode_three:
  assumes "unat a = 224 + x" "unat b = 128 + y" "unat d = 128 + z" "x < 16" "y < 64" "z < 64"
    and "0x800 \<le> z + y * 64 + x * 4096"
    and "\<not> (0xd800 \<le> z + y * 64 + x * 4096 \<and> z + y * 64 + x * 4096 \<le> 0xdfff)"
  shows "a \<noteq> 0 \<and> mbCharLen a = 3 \<and> decode_sequence [a, b, d] = (z + y * 64 + x * 4096, False)"
proof -
  have "a \<noteq> 0" using assms(1) by auto
  moreover have "(224 + x) mod 16 = x" "(128 + y) mod 64 = y" "(128 + y) div 64 = 2"
    "(128 + z) mod 64 = z" "(128 + z) div 64 = 2"
    using assms(4-6) mod_mult_self3 [of 14 16 x] mod_mult_self3 [of 2 64 y]
      mod_mult_self3 [of 2 64 z] by auto
  ultimately show ?thesis
    using assms by (simp add: mbCharLen_cases decode_sequence_def continuation_def Let_def)
qed

lemma decode_encode_char16:
  assumes "scalar16 c"
  shows "hd (encode_char16 c) \<noteq> 0 \<and> mbCharLen (hd (encode_char16 c)) = length (encode_char16 c) \<and>
    decode_sequence (encode_char16 c) = (c, False)"
proof -
  note c = assms [unfolded scalar16_def]
  consider "c < 0x80" | "0x80 \<le> c" "c < 0x800" | "0x800 \<le> c" by linarith
  then show ?thesis
  proof cases
    case 1
    then have u: "unat (of_nat c :: byte) = c" by simp
    then have "(of_nat c :: byte) \<noteq> 0" using c by (metis less_irrefl unat_0)
    then show ?thesis
      using c 1 u by (simp add: encode_char16_split decode_sequence_def mbCharLen_cases)
  next
    case 2
    have d: "c div 64 < 32" "2 \<le> c div 64" "c mod 64 < 64" using 2 by auto
    have u: "unat (of_nat (192 + c div 64) :: byte) = 192 + c div 64"
      "unat (of_nat (128 + c mod 64) :: byte) = 128 + c mod 64"
      by (rule unat_of_nat_byte; use d in linarith)+
    show ?thesis
      using decode_two [OF u d(2,1,3)] 2 c by (simp add: encode_char16_split del: of_nat_add)
  next
    case 3
    have d: "c div 4096 < 16" "c div 64 mod 64 < 64" "c mod 64 < 64" using c by auto
    note e = low_high_bits(3) [of c]
    have u: "unat (of_nat (224 + c div 4096) :: byte) = 224 + c div 4096"
      "unat (of_nat (128 + c div 64 mod 64) :: byte) = 128 + c div 64 mod 64"
      "unat (of_nat (128 + c mod 64) :: byte) = 128 + c mod 64"
      by (rule unat_of_nat_byte; use d in linarith)+
    show ?thesis
      using decode_three [OF u d, unfolded e] 3 c by (simp add: encode_char16_split del: of_nat_add)
  qed
qed

definition encode_chars :: "char16 list \<Rightarrow> bytes" where
  "encode_chars cs = concat (map encode_char16 cs)"

lemma encode_chars_simps [simp]:
  "encode_chars [] = []" "encode_chars (c # cs) = encode_char16 c @ encode_chars cs"
  by (simp_all add: encode_chars_def)

lemma UCS2toUTF8_loop_fits:
  assumes "list_all scalar16 cs" "length cs \<le> max_chars"
    and "length out + length (encode_chars cs) < dest_len"
  shows "UCS2toUTF8_loop cs max_chars dest_len out = Some (out @ encode_chars cs)"
  using assms
  by (induction cs max_chars dest_len out rule: UCS2toUTF8_loop.induct) (auto simp: scalar16_def)

lemma UTF8toUCS2_loop_encoded:
  assumes "list_all scalar16 cs" "str = pre @ encode_chars cs" "length out + length cs < dest_chars"
  shows "UTF8toUCS2_loop str (length str) dest_chars (length pre) out replaced =
    Some \<lparr>dec_ret = int (length (out @ cs)), dec_dest = out @ cs, dec_consumed = length str,
          dec_substituted = replaced\<rparr>"
  using assms
proof (induction cs arbitrary: pre out)
  case Nil
  then show ?case by (simp add: UTF8toUCS2_loop.simps)
next
  case (Cons c cs)
  let ?e = "encode_char16 c"
  have d: "hd ?e \<noteq> 0" "mbCharLen (hd ?e) = length ?e" "decode_sequence ?e = (c, False)"
    using decode_encode_char16 [of c] Cons.prems(1) by auto
  have l: "0 < length ?e" using encode_char16_length by blast
  then have h: "str ! length pre = hd ?e"
    using Cons.prems(2) by (cases ?e) (auto simp: nth_append)
  have IH: "UTF8toUCS2_loop str (length str) dest_chars (length (pre @ ?e)) (out @ [c]) replaced =
    Some \<lparr>dec_ret = int (length ((out @ [c]) @ cs)), dec_dest = (out @ [c]) @ cs,
          dec_consumed = length str, dec_substituted = replaced\<rparr>"
    by (rule Cons.IH) (use Cons.prems in auto)
  have "UTF8toUCS2_loop str (length str) dest_chars (length pre) out replaced =
    UTF8toUCS2_loop str (length str) dest_chars (length (pre @ ?e)) (out @ [c]) replaced"
    using Cons.prems l d h by (subst UTF8toUCS2_loop.simps) (simp add: Let_def)
  then show ?case using IH by simp
qed

lemma utf8_round_trip:
  assumes "list_all scalar16 cs" "length cs \<le> max_chars" "length (encode_chars cs) < dest_len"
    and "length cs < dest_chars" "cs \<noteq> []"
  shows "UCS2toUTF8 (Some cs) max_chars dest_len = (0, encode_chars cs) \<and>
    UTF8toUCS2 (Some (encode_chars cs)) (length (encode_chars cs)) dest_chars =
    Some \<lparr>dec_ret = int (length cs), dec_dest = cs, dec_consumed = length (encode_chars cs),
          dec_substituted = 0\<rparr>"
proof -
  have "encode_chars cs \<noteq> []"
    using assms(5) encode_char16_length [of "hd cs"] by (cases cs) auto
  then show ?thesis
    using assms UCS2toUTF8_loop_fits [of cs max_chars "[]" dest_len]
      UTF8toUCS2_loop_encoded [of cs "encode_chars cs" "[]" "[]" dest_chars 0]
    by (simp add: UCS2toUTF8_def UTF8toUCS2_def)
qed

text \<open>The decoder stays inside the string and inside \<open>dest\<close>, whatever the bytes.\<close>

lemma UTF8toUCS2_loop_safe:
  assumes "lim \<le> length str" "p \<le> lim" "length out < dest_chars"
  shows "\<exists>d. UTF8toUCS2_loop str lim dest_chars p out replaced = Some d \<and>
    (d = decode_failed \<or> dec_ret d = int (length (dec_dest d)) \<and> length (dec_dest d) < dest_chars
       \<and> p \<le> dec_consumed d \<and> dec_consumed d \<le> lim
       \<and> length (dec_dest d) - length out \<le> dec_consumed d - p)"
  using assms
proof (induction str lim dest_chars p out replaced rule: UTF8toUCS2_loop.induct)
  case (1 str lim dest_chars p out replaced)
  let ?n = "mbCharLen (str ! p)"
  let ?go = "p < lim \<and> str ! p \<noteq> 0 \<and> 0 < ?n \<and> p + ?n \<le> lim \<and> length out + 1 < dest_chars"
  show ?case
  proof (cases ?go)
    case False
    then show ?thesis
      using "1.prems" by (subst UTF8toUCS2_loop.simps) (auto simp: Let_def)
  next
    case True
    obtain c16 rep where q: "decode_sequence (take ?n (drop p str)) = (c16, rep)" by fastforce
    have "\<exists>d. UTF8toUCS2_loop str lim dest_chars (p + ?n) (out @ [c16])
        (if rep then replaced + 1 else replaced) = Some d \<and>
      (d = decode_failed \<or> dec_ret d = int (length (dec_dest d)) \<and> length (dec_dest d) < dest_chars
       \<and> p + ?n \<le> dec_consumed d \<and> dec_consumed d \<le> lim
       \<and> length (dec_dest d) - length (out @ [c16]) \<le> dec_consumed d - (p + ?n))"
      using True "1.prems" by (intro "1.IH" [OF refl _ _ _ refl _ _ _ q [symmetric] refl]) auto
    then obtain d where d: "UTF8toUCS2_loop str lim dest_chars (p + ?n) (out @ [c16])
        (if rep then replaced + 1 else replaced) = Some d"
      "d = decode_failed \<or> dec_ret d = int (length (dec_dest d)) \<and> length (dec_dest d) < dest_chars
       \<and> p + ?n \<le> dec_consumed d \<and> dec_consumed d \<le> lim
       \<and> length (dec_dest d) - length (out @ [c16]) \<le> dec_consumed d - (p + ?n)" by blast
    have "UTF8toUCS2_loop str lim dest_chars p out replaced = Some d"
      using True "1.prems" q d(1) by (subst UTF8toUCS2_loop.simps) (simp add: Let_def)
    then show ?thesis using d(2) True by auto
  qed
qed

lemma UTF8toUCS2_safe:
  assumes "max_bytes \<le> length s"
  shows "\<exists>d. UTF8toUCS2 (Some s) max_bytes dest_chars = Some d \<and>
    (d = decode_failed \<or> dec_ret d = int (length (dec_dest d)) \<and> length (dec_dest d) < dest_chars
       \<and> dec_consumed d \<le> max_bytes \<and> length (dec_dest d) \<le> dec_consumed d)"
  using UTF8toUCS2_loop_safe [of max_bytes s 0 "[]" dest_chars 0] assms
  by (auto simp: UTF8toUCS2_def)

section \<open>Properties\<close>

text \<open>C25: \<open>UCS2precompose\<close> is the dictionary of its table. The uniform binary search with
  the steps of \<open>delta[]\<close> reads no entry outside the 998 of \<open>table[]\<close>, ends, and returns the
  composition of exactly the 997 pairs the table lists, -1 for every other pair.\<close>
theorem UCS2precompose_is_dictionary:
  "UCS2precompose first second =
     Some (case map_of (map (\<lambda>(c, p). (p, c)) (tl table)) (first * 65536 + second) of
             Some c \<Rightarrow> int c | None \<Rightarrow> -1)"
  using precompose_lookup by (simp add: compositions_def)

text \<open>decomposition inverts composition. Every precomposed character of the table is
  found by the binary search of \<open>UCS2decompose\<close> over its sorted index, and the base and
  combining character it stores compose to that character again.\<close>
theorem UCS2decompose_inverts_precompose:
  assumes "1 \<le> k" "k < length table"
  shows "\<exists>a b. UCS2decompose (fst (table ! k)) = Some (a, b) \<and> a < 65536 \<and> b < 65536 \<and>
    UCS2precompose a b = Some (int (fst (table ! k)))"
  using assms decompose_complete [of k] decompose_precompose_entry [of "fst (table ! k)"]
  by fastforce

theorem UCS2decompose_inverts_precompose_witness:
  "\<exists>a b. UCS2decompose 0xC1 = Some (a, b) \<and> a < 65536 \<and> b < 65536 \<and>
    UCS2precompose a b = Some 0xC1"
  using UCS2decompose_inverts_precompose [of 2] by (simp add: table_def)

text \<open>C26: encoding UCS-2 as UTF-8 and decoding it again is the identity. For characters that
  are neither NUL nor surrogates, and buffers that hold the result, \<open>UCS2toUTF8\<close> succeeds and
  \<open>UTF8toUCS2\<close> returns the same characters, consumes every byte and replaces none.\<close>
theorem UCS2_UTF8_round_trip:
  assumes "list_all scalar16 cs" "cs \<noteq> []" "length cs \<le> max_chars"
    and "length (encode_chars cs) < dest_len" "length cs < dest_chars"
  shows "\<exists>out. UCS2toUTF8 (Some cs) max_chars dest_len = (0, out) \<and>
    UTF8toUCS2 (Some out) (length out) dest_chars =
    Some \<lparr>dec_ret = int (length cs), dec_dest = cs, dec_consumed = length out,
          dec_substituted = 0\<rparr>"
  using utf8_round_trip [of cs max_chars dest_len dest_chars] assms by blast

theorem UCS2_UTF8_round_trip_witness:
  "\<exists>out. UCS2toUTF8 (Some [0x41, 0xE9, 0x20AC]) 3 20 = (0, out) \<and>
    UTF8toUCS2 (Some out) (length out) 4 =
    Some \<lparr>dec_ret = 3, dec_dest = [0x41, 0xE9, 0x20AC], dec_consumed = length out,
          dec_substituted = 0\<rparr>"
  using UCS2_UTF8_round_trip [of "[0x41, 0xE9, 0x20AC]" 3 20 4]
  by (simp add: scalar16_def encode_char16_def Let_def)

text \<open>\<open>UTF8toUCS2\<close> is memory safe on every input. With \<open>max_bytes\<close> inside the string's
  buffer it reads no byte beyond \<open>max_bytes\<close>, always ends, and either reports failure with an
  empty result or leaves fewer characters than \<open>dest\<close> holds, with room for the terminator.\<close>
theorem UTF8toUCS2_memory_safe:
  assumes "max_bytes \<le> length s"
  shows "\<exists>d. UTF8toUCS2 (Some s) max_bytes dest_chars = Some d \<and>
    (d = decode_failed \<or> dec_ret d = int (length (dec_dest d)) \<and> length (dec_dest d) < dest_chars
       \<and> dec_consumed d \<le> max_bytes \<and> length (dec_dest d) \<le> dec_consumed d)"
  using assms by (rule UTF8toUCS2_safe)

theorem UTF8toUCS2_memory_safe_witness:
  "\<exists>d. UTF8toUCS2 (Some [0xe2, 0x28, 0xff]) 3 2 = Some d \<and>
    (d = decode_failed \<or> dec_ret d = int (length (dec_dest d)) \<and> length (dec_dest d) < 2
       \<and> dec_consumed d \<le> 3 \<and> length (dec_dest d) \<le> dec_consumed d)"
  using UTF8toUCS2_memory_safe [of 3 "[0xe2, 0x28, 0xff]" 2] by simp

end
