(* ===== verification/Utils.thy ===== *)
theory Utils
  imports Unicode
begin

text \<open>
  The helpers of \<open>lib/utils.c\<close>: version numbers, Pascal strings, the path headers of
  AFP requests, file name checks, sanitised log text and log levels.  A buffer a helper
  writes is its byte list; \<^term>\<open>None\<close> is an access outside a buffer.
\<close>

abbreviation (input) kFPLongName :: nat where "kFPLongName \<equiv> 2"
abbreviation (input) kFPUTF8Name :: nat where "kFPUTF8Name \<equiv> 3"
abbreviation (input) AFP_MAX_UTF8_NAME_CHARS :: nat where "AFP_MAX_UTF8_NAME_CHARS \<equiv> 255"
abbreviation (input) INT_MAX :: int where "INT_MAX \<equiv> 2147483647"
abbreviation (input) LONG_MAX :: int where "LONG_MAX \<equiv> 9223372036854775807"

section \<open>Versions\<close>

text \<open>What \<open>strtol\<close> and the conversion \<open>%ld\<close> of \<open>sscanf\<close> read: white space, a sign and
  decimal digits; the value saturates, and the flag is the \<open>ERANGE\<close> of \<open>strtol\<close>.\<close>

definition is_space :: "char \<Rightarrow> bool" where
  "is_space c \<longleftrightarrow> of_char c = (32 :: nat) \<or> (9 \<le> (of_char c :: nat) \<and> of_char c \<le> (13 :: nat))"

definition is_digit :: "char \<Rightarrow> bool" where
  "is_digit c \<longleftrightarrow> 48 \<le> (of_char c :: nat) \<and> of_char c \<le> (57 :: nat)"

definition dec_value :: "string \<Rightarrow> int" where
  "dec_value ds = foldl (\<lambda>a c. a * 10 + int (of_char c - 48)) 0 ds"

definition parse_long :: "string \<Rightarrow> (int \<times> string \<times> bool) option" where
  "parse_long text =
     (let s = dropWhile is_space text;
          neg = (s \<noteq> [] \<and> hd s = CHR ''-'');
          s = (if s \<noteq> [] \<and> (hd s = CHR ''-'' \<or> hd s = CHR ''+'') then tl s else s);
          ds = takeWhile is_digit s;
          v = (if neg then - dec_value ds else dec_value ds)
      in if ds = [] then None
         else if v > LONG_MAX then Some (LONG_MAX, dropWhile is_digit s, True)
         else if v < - LONG_MAX - 1 then Some (- LONG_MAX - 1, dropWhile is_digit s, True)
         else Some (v, dropWhile is_digit s, False))"

text \<open>\<open>afp_parse_version\<close>: the version stored, or \<^term>\<open>None\<close> for its -1.\<close>

definition afp_parse_version :: "string option \<Rightarrow> int option" where
  "afp_parse_version text_opt =
     (case text_opt of
        None \<Rightarrow> None
      | Some t \<Rightarrow>
          let version =
            (if CHR ''.'' \<in> set t then
               (case parse_long t of
                  None \<Rightarrow> None
                | Some (major, r, _) \<Rightarrow>
                    (if r = [] \<or> hd r \<noteq> CHR ''.'' then None
                     else case parse_long (tl r) of
                         None \<Rightarrow> None
                       | Some (minor, r', _) \<Rightarrow>
                           if r' \<noteq> [] \<or> major < 0 \<or> minor < 0 \<or> minor > 9
                              \<or> major > (INT_MAX - minor) div 10
                           then None else Some (major * 10 + minor)))
             else
               (case parse_long t of
                  None \<Rightarrow> None
                | Some (v, r, erange) \<Rightarrow> if erange \<or> r \<noteq> [] then None else Some v))
          in case version of
               None \<Rightarrow> None
             | Some v \<Rightarrow> if v < 0 \<or> v > INT_MAX then None else Some v)"

section \<open>Pascal strings\<close>

text \<open>\<open>copy_from_pascal\<close>: the source is the memory its pointer points at.  Returns the
  length byte and the destination, which receives a terminated, zero-filled copy.\<close>

definition copy_from_pascal :: "bytes \<Rightarrow> bytes option \<Rightarrow> nat \<Rightarrow> (nat \<times> bytes) option" where
  "copy_from_pascal dest pascal max_len =
     (case pascal of
        None \<Rightarrow> Some (0, dest)
      | Some src \<Rightarrow>
          if max_len = 0 then Some (0, dest)
          else case rd8 src 0 of
              None \<Rightarrow> None
            | Some len \<Rightarrow>
                let copy_len = (if len \<ge> max_len then u8 (max_len - 1) else len) in
                if length dest < max_len then None
                else case rd_bytes src 1 copy_len of
                    None \<Rightarrow> None
                  | Some bs \<Rightarrow> Some (len, write_at (write_at dest 0 (replicate max_len 0)) 0 bs))"

definition copy_from_pascal_two :: "bytes \<Rightarrow> bytes option \<Rightarrow> nat \<Rightarrow> (nat \<times> bytes) option" where
  "copy_from_pascal_two dest pascal max_len =
     (case pascal of
        None \<Rightarrow> Some (0, dest)
      | Some src \<Rightarrow>
          if max_len = 0 then Some (0, dest)
          else case rd16 src 0 of
              None \<Rightarrow> None
            | Some len \<Rightarrow>
                if len = 0 then Some (0, dest)
                else let copy_len = (if len \<ge> max_len then u16 (max_len - 1) else len) in
                if length dest < max_len then None
                else case rd_bytes src 2 copy_len of
                    None \<Rightarrow> None
                  | Some bs \<Rightarrow> Some (len, write_at (write_at dest 0 (replicate max_len 0)) 0 bs))"

definition utf8_to_string :: "bytes \<Rightarrow> bytes \<Rightarrow> nat \<Rightarrow> (nat \<times> bytes) option" where
  "utf8_to_string dest buf maxlen = copy_from_pascal_two dest (Some (drop 4 buf)) maxlen"

text \<open>\<open>copy_to_pascal\<close>: the source is a C string, without its NUL.\<close>

definition copy_to_pascal :: "bytes \<Rightarrow> bytes \<Rightarrow> (nat \<times> bytes) option" where
  "copy_to_pascal dest src =
     (let len = min (length src) 255 in
      if length dest < 1 + len then None
      else Some (len, write_at dest 0 (of_nat len # take len src)))"

definition copy_to_pascal_two :: "bytes \<Rightarrow> bytes option \<Rightarrow> (nat \<times> bytes) option" where
  "copy_to_pascal_two dest src =
     (case src of
        None \<Rightarrow> if length dest < 2 then None else Some (2, write_at dest 0 [0, 0])
      | Some s \<Rightarrow>
          let len = u16 (length s) in
          if length dest < 2 + len then None
          else Some (len, write_at dest 0 (be_bytes 2 len @ take len s)))"

section \<open>Paths\<close>

definition sizeof_path_header :: "nat \<Rightarrow> nat" where
  "sizeof_path_header path_encoding =
     (if path_encoding = kFPUTF8Name then 7 else if path_encoding = kFPLongName then 2 else 0)"

text \<open>\<open>copy_path\<close>: the destination after the header and the name, the memory behind
  \<open>pathname\<close> holding at least \<open>len\<close> bytes.\<close>

definition copy_path :: "nat \<Rightarrow> bytes \<Rightarrow> bytes option \<Rightarrow> nat \<Rightarrow> bytes option" where
  "copy_path encoding dest pathname len0 =
     (let (path, len1) = (case pathname of None \<Rightarrow> ([], 0) | Some q \<Rightarrow> (q, len0)) in
      if encoding = kFPUTF8Name then
        (let len = min len1 65535 in
         if length dest < 7 + len \<or> length path < len then None
         else Some (write_at dest 0
                (of_nat encoding # be_bytes 4 0x08000103 @ be_bytes 2 len @ take len path)))
      else if encoding = kFPLongName then
        (let len = min len1 255 in
         if length dest < 2 + len \<or> length path < len then None
         else Some (write_at dest 0 (of_nat encoding # of_nat len # take len path)))
      else Some dest)"

text \<open>A byte of a Unix path on the wire: a separator becomes NUL, a colon a slash.\<close>

definition afp_path_byte :: "byte \<Rightarrow> byte" where
  "afp_path_byte b = (if b = 0x2f then 0 else if b = 0x3a then 0x2f else b)"

definition unixpath_to_afppath :: "nat \<Rightarrow> bytes \<Rightarrow> bytes option" where
  "unixpath_to_afppath encoding buf =
     (let convert = (\<lambda>off len. if length buf < off + len then None
        else Some (write_at buf off (map afp_path_byte (take len (drop off buf))))) in
      if encoding = kFPUTF8Name then
        (case rd16 buf 5 of None \<Rightarrow> None | Some len \<Rightarrow> convert 7 len)
      else if encoding = kFPLongName then
        (case rd8 buf 1 of None \<Rightarrow> None | Some len \<Rightarrow> convert 2 len)
      else Some buf)"

section \<open>File names\<close>

text \<open>The loop of \<open>invalid_filename\<close> over the components between slashes.\<close>

function invalid_filename_loop :: "(bytes \<Rightarrow> bool) \<Rightarrow> bytes \<Rightarrow> bool" where
  "invalid_filename_loop too_long p0 =
     (let p = dropWhile (\<lambda>c. c = 0x2f) p0 in
      if p = [] then False
      else let component = takeWhile (\<lambda>c. c \<noteq> 0x2f) p;
               q = dropWhile (\<lambda>c. c \<noteq> 0x2f) p in
      if too_long component then True
      else if q = [] then False
      else invalid_filename_loop too_long (tl q))"
  by pat_completeness auto
termination
proof (relation "measure (\<lambda>(f, p). length p)")
  fix p0 p q :: bytes
  assume "p = dropWhile (\<lambda>c. c = 0x2f) p0" "q = dropWhile (\<lambda>c. c \<noteq> 0x2f) p" "q \<noteq> []"
  then have "length q \<le> length p0" "0 < length q"
    using length_dropWhile_le [of "\<lambda>c. c \<noteq> 0x2f" p] length_dropWhile_le [of "\<lambda>c. c = 0x2f" p0]
    by auto
  then show "((too_long, tl q), too_long, p0) \<in> measure (\<lambda>(f, p). length p)" for too_long
    by (cases q) auto
qed simp

definition invalid_filename :: "nat \<Rightarrow> int option \<Rightarrow> bytes option \<Rightarrow> bool" where
  "invalid_filename path_encoding using_version filename =
     (case (using_version, filename) of
        (Some av_number, Some f) \<Rightarrow>
          if f = [0x2f] then False
          else
            let maxlen = (if av_number < 30 then 31
                          else if path_encoding = kFPUTF8Name then AFP_MAX_UTF8_NAME_CHARS else 255);
                too_long = (\<lambda>c. if path_encoding = kFPUTF8Name \<and> av_number \<ge> 30
                                then (case mbStrLen (Some c) (length c) of
                                        None \<Rightarrow> False | Some n \<Rightarrow> n > maxlen)
                                else length c > maxlen)
            in invalid_filename_loop too_long f
      | _ \<Rightarrow> True)"

section \<open>Log text and levels\<close>

definition hex_digit :: "nat \<Rightarrow> byte" where
  "hex_digit n = of_nat (if n < 10 then 48 + n else 87 + n)"

text \<open>The loop of \<open>sanitize_text\<close>: the bytes it stores from \<open>pos\<close> on, before the
  terminator.\<close>

fun sanitize_loop :: "bytes \<Rightarrow> nat \<Rightarrow> nat \<Rightarrow> bytes" where
  "sanitize_loop [] pos sz = []"
| "sanitize_loop (ch # cs) pos sz =
     (if \<not> pos + 1 < sz then []
      else if ch = 13 \<or> ch = 10 \<or> ch = 9 then
        (if pos + 2 \<ge> sz then []
         else 92 # (if ch = 13 then 114 else if ch = 10 then 110 else 116)
              # sanitize_loop cs (pos + 2) sz)
      else if unat ch < 0x20 \<or> ch = 0x7f then
        (if pos + 4 \<ge> sz then []
         else 92 # 120 # hex_digit (unat ch div 16) # hex_digit (unat ch mod 16)
              # sanitize_loop cs (pos + 4) sz)
      else ch # sanitize_loop cs (pos + 1) sz)"

text \<open>\<open>sanitize_text\<close>: the string in the buffer, \<^term>\<open>None\<close> when nothing is stored.\<close>

definition sanitize_text :: "bytes option \<Rightarrow> nat \<Rightarrow> bytes option" where
  "sanitize_text t0 sz =
     (if sz = 0 then None
      else case t0 of None \<Rightarrow> Some [] | Some t \<Rightarrow> Some (sanitize_loop t 0 sz))"

abbreviation (input) LOG_ERR :: int where "LOG_ERR \<equiv> 3"
abbreviation (input) LOG_WARNING :: int where "LOG_WARNING \<equiv> 4"
abbreviation (input) LOG_NOTICE :: int where "LOG_NOTICE \<equiv> 5"
abbreviation (input) LOG_INFO :: int where "LOG_INFO \<equiv> 6"
abbreviation (input) LOG_DEBUG :: int where "LOG_DEBUG \<equiv> 7"

definition log_level_to_string :: "int \<Rightarrow> string" where
  "log_level_to_string level =
     (if level = LOG_DEBUG then ''debug'' else if level = LOG_INFO then ''info''
      else if level = LOG_NOTICE then ''notice'' else if level = LOG_WARNING then ''warning''
      else if level = LOG_ERR then ''err'' else ''notice'')"

definition lower_char :: "char \<Rightarrow> char" where
  "lower_char c = (if 65 \<le> (of_char c :: nat) \<and> of_char c \<le> (90 :: nat)
                   then char_of (of_char c + 32 :: nat) else c)"

definition strcaseeq :: "string \<Rightarrow> string \<Rightarrow> bool" where
  "strcaseeq a b \<longleftrightarrow> map lower_char a = map lower_char b"

definition string_to_log_level :: "string option \<Rightarrow> int option" where
  "string_to_log_level str =
     (case str of
        None \<Rightarrow> None
      | Some s \<Rightarrow>
          if strcaseeq s ''debug'' \<or> strcaseeq s ''LOG_DEBUG'' then Some LOG_DEBUG
          else if strcaseeq s ''info'' \<or> strcaseeq s ''LOG_INFO'' then Some LOG_INFO
          else if strcaseeq s ''notice'' \<or> strcaseeq s ''LOG_NOTICE'' then Some LOG_NOTICE
          else if strcaseeq s ''warning'' \<or> strcaseeq s ''warn'' \<or> strcaseeq s ''LOG_WARNING''
          then Some LOG_WARNING
          else if strcaseeq s ''err'' \<or> strcaseeq s ''error'' \<or> strcaseeq s ''LOG_ERR''
          then Some LOG_ERR
          else None)"

definition loglevel_to_rank :: "int \<Rightarrow> int" where
  "loglevel_to_rank loglevel =
     (if loglevel = LOG_DEBUG then 0 else if loglevel = LOG_INFO then 1
      else if loglevel = LOG_NOTICE then 2 else if loglevel = LOG_WARNING then 3
      else if loglevel = LOG_ERR then 4 else 4)"

declare invalid_filename_loop.simps [simp del]

section \<open>Pascal strings round trip\<close>

lemma write_at_0: "length bs \<le> length buf \<Longrightarrow> write_at buf 0 bs = bs @ drop (length bs) buf"
  by (simp add: write_at_def)

lemma cstr_zero_filled:
  "0 \<notin> set bs \<Longrightarrow> length bs < n \<Longrightarrow> cstr (bs @ drop (length bs) (replicate n 0 @ r)) = bs"
  by (cases "n - length bs") auto

lemma copy_from_pascal_copies:
  assumes "rd8 src 0 = Some len" "0 < max_len" "max_len \<le> length dest"
    and "1 + min len (max_len - 1) \<le> length src"
  shows "copy_from_pascal dest (Some src) max_len =
    Some (len, (take (min len (max_len - 1)) (drop 1 src)) @
               drop (min len (max_len - 1)) (replicate max_len 0 @ drop max_len dest))"
proof -
  let ?n = "min len (max_len - 1)"
  have "len < 256" using rd_bound [OF assms(1)] by simp
  then have c: "(if len \<ge> max_len then u8 (max_len - 1) else len) = ?n" using assms(2) by auto
  have l: "length (take ?n (drop 1 src)) = ?n" using assms(4) by simp
  have "write_at (write_at dest 0 (replicate max_len 0)) 0 (take ?n (drop 1 src)) =
      take ?n (drop 1 src) @ drop ?n (replicate max_len 0 @ drop max_len dest)"
    using assms(2,3) l by (simp add: write_at_0)
  then show ?thesis
    using assms(1-4) by (simp add: copy_from_pascal_def c rd_bytes_Some Let_def)
qed

lemma pascal_round_trip:
  assumes "0 \<notin> set s" "1 + min (length s) 255 \<le> length dest" "0 < max_len" "max_len \<le> length out"
  shows "\<exists>d r. copy_to_pascal dest s = Some (min (length s) 255, d) \<and>
    copy_from_pascal out (Some d) max_len = Some (min (length s) 255, r) \<and>
    cstr r = take (min (min (length s) 255) (max_len - 1)) s"
proof -
  let ?n = "min (length s) 255"
  let ?m = "min ?n (max_len - 1)"
  let ?d = "of_nat ?n # take ?n s @ drop (Suc ?n) dest"
  have d: "copy_to_pascal dest s = Some (?n, ?d)"
    using assms(2) by (simp add: copy_to_pascal_def Let_def write_at_def)
  have "unat (of_nat ?n :: byte) = ?n" by (rule unat_of_nat_byte) simp
  then have rd: "rd8 ?d 0 = Some ?n" by (simp add: rd_def be_nat_def)
  have "take m (drop 1 (x # take n s @ r)) = take m s" if "m \<le> n" "n \<le> length s"
    for m n r and x :: byte
    using that by (simp add: min_absorb1)
  then have t: "take ?m (drop 1 ?d) = take ?m s" by (meson min.cobounded1)
  have "cstr (take ?m s @ drop ?m (replicate max_len 0 @ drop max_len out)) = take ?m s"
  proof -
    have "0 \<notin> set (take ?m s)" "length (take ?m s) = ?m" "length (take ?m s) < max_len"
      using assms(1,3) by (auto dest: in_set_takeD)
    then show ?thesis
      using cstr_zero_filled [of "take ?m s" max_len "drop max_len out"] by presburger
  qed
  moreover have "copy_from_pascal out (Some ?d) max_len =
      Some (?n, take ?m s @ drop ?m (replicate max_len 0 @ drop max_len out))"
    using copy_from_pascal_copies [OF rd assms(3,4)] t by simp
  ultimately show ?thesis using d by blast
qed

section \<open>Paths on the wire\<close>

lemma path_on_the_wire_utf8:
  assumes "len \<le> length path" "len \<le> 65535" "7 + len \<le> length dest"
  shows "Option.bind (copy_path kFPUTF8Name dest (Some path) len) (unixpath_to_afppath kFPUTF8Name) =
    Some (3 # be_bytes 4 0x08000103 @ be_bytes 2 len @ map afp_path_byte (take len path)
            @ drop (7 + len) dest)"
proof -
  let ?h = "3 # be_bytes 4 0x08000103 @ be_bytes 2 len :: bytes"
  let ?b = "?h @ take len path @ drop (7 + len) dest"
  have l: "length ?h = 7" "length ?b = length dest" using assms by simp_all
  have c: "copy_path kFPUTF8Name dest (Some path) len = Some ?b"
    using assms by (simp add: copy_path_def Let_def write_at_def)
  have "rd16 ((3 # be_bytes 4 0x08000103) @ be_bytes 2 len @ take len path @ drop (7 + len) dest) 5
      = Some (len mod 256 ^ 2)"
    by (rule rd_append_field) simp
  then have r: "rd16 ?b 5 = Some len" using assms(2) by simp
  have w: "write_at ?b 7 (map afp_path_byte (take len (drop 7 ?b))) =
      ?h @ map afp_path_byte (take len path) @ drop (7 + len) dest"
  proof -
    have d: "take 7 ?b = ?h" "drop 7 ?b = take len path @ drop (7 + len) dest"
      using split_at_length [OF l(1)] by blast+
    have "drop (7 + len) ?b = drop len (drop 7 ?b)" by (subst drop_drop) (simp add: add.commute)
    then have "take len (drop 7 ?b) = take len path" "drop (7 + len) ?b = drop (7 + len) dest"
      unfolding d using assms(1) by (simp_all add: min_absorb1)
    then show ?thesis using assms(1) d(1) unfolding write_at_def by (simp add: min_absorb1)
  qed
  show ?thesis
    using c r w l(2) assms(3) by (simp add: unixpath_to_afppath_def Let_def)
qed

lemma path_on_the_wire_long:
  assumes "len \<le> length path" "len \<le> 255" "2 + len \<le> length dest"
  shows "Option.bind (copy_path kFPLongName dest (Some path) len) (unixpath_to_afppath kFPLongName) =
    Some (2 # of_nat len # map afp_path_byte (take len path) @ drop (2 + len) dest)"
proof -
  let ?b = "2 # of_nat len # take len path @ drop (2 + len) dest :: bytes"
  have c: "copy_path kFPLongName dest (Some path) len = Some ?b"
    using assms by (simp add: copy_path_def Let_def write_at_def)
  have "unat (of_nat len :: byte) = len" using assms(2) by simp
  then have r: "rd8 ?b 1 = Some len" by (simp add: rd_def be_nat_def)
  have w: "write_at ?b 2 (map afp_path_byte (take len (drop 2 ?b))) =
      2 # of_nat len # map afp_path_byte (take len path) @ drop (2 + len) dest"
    using assms(1,3) by (simp add: write_at_def numeral_2_eq_2)
  have "length ?b = length dest" using assms by simp
  then show ?thesis
    using c r w assms(3) by (simp add: unixpath_to_afppath_def Let_def)
qed

section \<open>File name components\<close>

lemma mbStrLen_loop_safe: "lim \<le> length str \<Longrightarrow> mbStrLen_loop str lim p n \<noteq> None"
  by (induction str lim p n rule: mbStrLen_loop.induct)
    (subst mbStrLen_loop.simps, auto simp: Let_def)

lemma mbStrLen_safe: "mbStrLen (Some c) (length c) \<noteq> None"
  using mbStrLen_loop_safe by (auto simp: mbStrLen_def)

text \<open>The parts of a path between its slashes, the reference for the loop.\<close>

fun split_slash :: "bytes \<Rightarrow> bytes list" where
  "split_slash [] = [[]]"
| "split_slash (c # cs) =
     (if c = 0x2f then [] # split_slash cs
      else (c # hd (split_slash cs)) # tl (split_slash cs))"

lemma split_slash_not_Nil [simp]: "split_slash p \<noteq> []"
  by (cases p) auto

lemma split_slash_skip:
  "{c \<in> set (split_slash (dropWhile (\<lambda>c. c = 0x2f) p)). c \<noteq> []} = {c \<in> set (split_slash p). c \<noteq> []}"
  by (induction p) auto

lemma split_slash_component:
  "split_slash p = (let q = dropWhile (\<lambda>c. c \<noteq> 0x2f) p in
     takeWhile (\<lambda>c. c \<noteq> 0x2f) p # (if q = [] then [] else split_slash (tl q)))"
  by (induction p) (auto simp: Let_def)

lemma invalid_filename_loop_components:
  "invalid_filename_loop too_long p \<longleftrightarrow> (\<exists>c \<in> set (split_slash p). c \<noteq> [] \<and> too_long c)"
proof (induction too_long p rule: invalid_filename_loop.induct)
  case (1 too_long p0)
  define p where "p = dropWhile (\<lambda>c. c = 0x2f) p0"
  define q where "q = dropWhile (\<lambda>c. c \<noteq> 0x2f) p"
  have e: "(\<exists>c \<in> set (split_slash p0). c \<noteq> [] \<and> too_long c)
      \<longleftrightarrow> (\<exists>c \<in> set (split_slash p). c \<noteq> [] \<and> too_long c)"
    using split_slash_skip [of p0] unfolding p_def by blast
  show ?case
  proof (cases "p = []")
    case True
    then show ?thesis
      unfolding e by (subst invalid_filename_loop.simps) (simp add: p_def [symmetric])
  next
    case False
    then have ne: "takeWhile (\<lambda>c. c \<noteq> 0x2f) p \<noteq> []"
      using hd_dropWhile [of "\<lambda>c. c = 0x2f" p0] by (cases p) (auto simp: p_def)
    have s: "invalid_filename_loop too_long p0 =
        (too_long (takeWhile (\<lambda>c. c \<noteq> 0x2f) p) \<or> q \<noteq> [] \<and> invalid_filename_loop too_long (tl q))"
      using False by (subst invalid_filename_loop.simps) (simp add: p_def [symmetric] q_def [symmetric])
    have "\<not> too_long (takeWhile (\<lambda>c. c \<noteq> 0x2f) p) \<Longrightarrow> q \<noteq> [] \<Longrightarrow>
        invalid_filename_loop too_long (tl q) \<longleftrightarrow> (\<exists>c \<in> set (split_slash (tl q)). c \<noteq> [] \<and> too_long c)"
      using "1.IH" [OF p_def False refl q_def] by blast
    then show ?thesis
      unfolding e s using split_slash_component [of p] ne by (auto simp: Let_def q_def [symmetric])
  qed
qed

section \<open>Sanitised text\<close>

definition printable :: "byte \<Rightarrow> bool" where
  "printable b \<longleftrightarrow> 0x20 \<le> unat b \<and> b \<noteq> 0x7f"

lemma hex_digit_printable: "n < 16 \<Longrightarrow> printable (hex_digit n)"
proof -
  assume "n < 16"
  then have "unat (hex_digit n) = (if n < 10 then 48 + n else 87 + n)"
    unfolding hex_digit_def by (simp add: unat_of_nat del: of_nat_add)
  then show ?thesis using \<open>n < 16\<close> by (auto simp: printable_def split: if_splits)
qed

lemma sanitize_loop_printable: "list_all printable (sanitize_loop t pos sz)"
proof (induction t pos sz rule: sanitize_loop.induct)
  case (2 ch cs pos sz)
  have "unat ch div 16 < 16" by (rule less_mult_imp_div_less) simp
  then show ?case
    using 2 by (auto simp: hex_digit_printable) (auto simp: printable_def)
qed simp

lemma sanitize_loop_length: "pos < sz \<Longrightarrow> pos + length (sanitize_loop t pos sz) < sz"
proof (induction t pos sz rule: sanitize_loop.induct)
  case (2 ch cs pos sz)
  then show ?case by (auto simp: add.commute)
qed simp

lemma sanitize_loop_plain:
  "list_all printable t \<Longrightarrow> pos + length t < sz \<Longrightarrow> sanitize_loop t pos sz = t"
  by (induction t pos sz rule: sanitize_loop.induct) (auto simp: printable_def)

section \<open>Version numbers\<close>

lemma takeWhile_all_then: "list_all P xs \<Longrightarrow> ys = [] \<or> \<not> P (hd ys) \<Longrightarrow> takeWhile P (xs @ ys) = xs"
  by (induction xs) (auto simp: takeWhile_eq_Nil_iff)

lemma dropWhile_all_then: "list_all P xs \<Longrightarrow> ys = [] \<or> \<not> P (hd ys) \<Longrightarrow> dropWhile P (xs @ ys) = ys"
  by (induction xs) (cases ys; auto)+

lemma is_digit_plain: "is_digit c \<Longrightarrow> \<not> is_space c \<and> c \<noteq> CHR ''-'' \<and> c \<noteq> CHR ''+'' \<and> c \<noteq> CHR ''.''"
  by (auto simp: is_digit_def is_space_def)

lemma parse_long_digits:
  assumes "list_all is_digit ds" "ds \<noteq> []" "r = [] \<or> \<not> is_digit (hd r)"
    and "0 \<le> dec_value ds" "dec_value ds \<le> LONG_MAX"
  shows "parse_long (ds @ r) = Some (dec_value ds, r, False)"
proof -
  obtain c cs where c: "ds = c # cs" "is_digit c" using assms by (cases ds) auto
  have "dropWhile is_space (ds @ r) = ds @ r" "hd (ds @ r) = c"
    using c is_digit_plain by auto
  then show ?thesis
    using assms c is_digit_plain [of c] takeWhile_all_then [OF assms(1,3)]
      dropWhile_all_then [OF assms(1,3)]
    by (simp add: parse_long_def Let_def)
qed

lemma dec_value_snoc: "dec_value (ds @ [d]) = dec_value ds * 10 + int (of_char d - 48)"
  by (simp add: dec_value_def)

lemma dec_value_nonneg: "0 \<le> dec_value ds"
  by (induction ds rule: rev_induct) (auto simp: dec_value_snoc dec_value_def)

lemma digit_value: "is_digit d \<Longrightarrow> dec_value [d] = int (of_char d - 48) \<and> dec_value [d] \<le> 9"
  by (simp add: dec_value_def is_digit_def)

lemma parse_version_dotted:
  assumes "list_all is_digit ds" "ds \<noteq> []" "is_digit d" "dec_value (ds @ [d]) \<le> INT_MAX"
  shows "afp_parse_version (Some (ds @ ''.'' @ [d])) = Some (dec_value (ds @ [d])) \<and>
    afp_parse_version (Some (ds @ [d])) = Some (dec_value (ds @ [d]))"
proof -
  have nd: "\<not> is_digit CHR ''.''" by (simp add: is_digit_def)
  have v: "dec_value (ds @ [d]) = dec_value ds * 10 + dec_value [d]"
    using dec_value_snoc digit_value [OF assms(3)] by simp
  have le: "dec_value ds \<le> INT_MAX" "0 \<le> dec_value ds" "0 \<le> dec_value [d]" "dec_value [d] \<le> 9"
    using assms(4) v dec_value_nonneg [of ds] dec_value_nonneg [of "[d]"] digit_value [OF assms(3)]
    by linarith+
  have "parse_long (ds @ ''.'' @ [d]) = Some (dec_value ds, ''.'' @ [d], False)"
    by (rule parse_long_digits) (use assms le nd in auto)
  moreover have "parse_long [d] = Some (dec_value [d], [], False)"
    using parse_long_digits [of "[d]" "[]"] assms(3) le by simp
  moreover have "dec_value ds \<le> (INT_MAX - dec_value [d]) div 10"
    using assms(4) v by (simp add: zdiv_mono1 [THEN order_trans [rotated]])
  moreover have "parse_long (ds @ [d]) = Some (dec_value (ds @ [d]), [], False)"
    using parse_long_digits [of "ds @ [d]" "[]"] assms dec_value_nonneg [of "ds @ [d]"] by simp
  moreover have "CHR ''.'' \<notin> set (ds @ [d])"
    using assms(1,3) nd by (auto simp: list_all_iff)
  ultimately show ?thesis
    using le v assms(4) dec_value_nonneg [of "ds @ [d]"] by (simp add: afp_parse_version_def Let_def)
qed

section \<open>Properties\<close>

text \<open>A path on the wire. \<open>copy_path\<close> followed by \<open>unixpath_to_afppath\<close>, as every request
  that carries a name does, leaves the AFP path: the type byte, for UTF-8 names the text
  encoding hint, the length, and the name with each slash a NUL and each colon a slash; the
  rest of the request buffer is untouched.\<close>
theorem path_on_the_wire:
  assumes "encoding = kFPUTF8Name \<and> len \<le> 65535 \<or> encoding = kFPLongName \<and> len \<le> 255"
    and "len \<le> length path" "sizeof_path_header encoding + len \<le> length dest"
  shows "Option.bind (copy_path encoding dest (Some path) len) (unixpath_to_afppath encoding) =
    Some ((if encoding = kFPUTF8Name then 3 # be_bytes 4 0x08000103 @ be_bytes 2 len
           else [2, of_nat len])
          @ map afp_path_byte (take len path) @ drop (sizeof_path_header encoding + len) dest)"
  using assms(1)
proof
  assume "encoding = kFPUTF8Name \<and> len \<le> 65535"
  then show ?thesis
    using path_on_the_wire_utf8 [of len path dest] assms by (simp add: sizeof_path_header_def)
next
  assume "encoding = kFPLongName \<and> len \<le> 255"
  then show ?thesis
    using path_on_the_wire_long [of len path dest] assms by (simp add: sizeof_path_header_def)
qed

theorem path_on_the_wire_witness:
  "Option.bind (copy_path kFPUTF8Name [1, 2, 3, 4, 5, 6, 7, 8, 9, 10, 11, 12] (Some [0x61, 0x2f, 0x3a]) 3)
     (unixpath_to_afppath kFPUTF8Name) =
   Some [3, 8, 0, 1, 3, 0, 3, 0x61, 0, 0x2f, 11, 12]"
  using path_on_the_wire [of kFPUTF8Name 3 "[0x61, 0x2f, 0x3a]"
      "[1, 2, 3, 4, 5, 6, 7, 8, 9, 10, 11, 12]"]
  by (simp add: sizeof_path_header_def afp_path_byte_def be_bytes_numeral)

text \<open>Pascal strings round trip. A C string stored by \<open>copy_to_pascal\<close> and read back by
  \<open>copy_from_pascal\<close> is the string cut to 255 bytes and to the room of the destination, always
  terminated, and the length returned is the stored one, so that a caller advances past it.\<close>
theorem pascal_strings_round_trip:
  assumes "0 \<notin> set s" "1 + min (length s) 255 \<le> length dest" "0 < max_len" "max_len \<le> length out"
  shows "\<exists>d r. copy_to_pascal dest s = Some (min (length s) 255, d) \<and>
    copy_from_pascal out (Some d) max_len = Some (min (length s) 255, r) \<and>
    cstr r = take (min (min (length s) 255) (max_len - 1)) s"
  using assms by (rule pascal_round_trip)

theorem pascal_strings_round_trip_witness:
  "\<exists>d r. copy_to_pascal (replicate 10 0xff) [0x61, 0x62, 0x63] = Some (3, d) \<and>
    copy_from_pascal (replicate 3 0xff) (Some d) 3 = Some (3, r) \<and> cstr r = [0x61, 0x62]"
  using pascal_strings_round_trip [of "[0x61, 0x62, 0x63]" "replicate 10 0xff" 3 "replicate 3 0xff"]
  by (simp add: numeral_3_eq_3)

text \<open>C28: \<open>invalid_filename\<close> refuses a path exactly when one of its components is too long:
  over 31 bytes before AFP 3.0, over 255 characters of a UTF-8 name, over 255 bytes of a long
  name. Empty components, from doubled slashes, never count.\<close>
theorem invalid_filename_by_component:
  "invalid_filename path_encoding (Some av_number) (Some f) \<longleftrightarrow>
     (\<exists>c \<in> set (split_slash f). c \<noteq> [] \<and>
        (if av_number < 30 then length c > 31
         else if path_encoding = kFPUTF8Name then the (mbStrLen (Some c) (length c)) > 255
         else length c > 255))"
proof -
  have m: "mbStrLen (Some c) (length c) \<noteq> None" for c
    using mbStrLen_safe by blast
  show ?thesis
    by (auto simp: invalid_filename_def Let_def invalid_filename_loop_components m
        split: option.splits) (use m in force)+
qed

text \<open>\<open>sanitize_text\<close> never writes past its buffer and leaves only printable bytes, no
  control character, so a name from the wire cannot forge a log line; printable text that fits
  is copied unchanged.\<close>
theorem sanitize_text_safe:
  assumes "0 < sz"
  shows "\<exists>out. sanitize_text (Some t) sz = Some out \<and> length out < sz \<and> list_all printable out \<and>
    (list_all printable t \<and> length t < sz \<longrightarrow> out = t)"
  using assms sanitize_loop_length [of 0 sz t] sanitize_loop_printable [of t 0 sz]
    sanitize_loop_plain [of t 0 sz]
  by (simp add: sanitize_text_def)

theorem sanitize_text_safe_witness:
  "\<exists>out. sanitize_text (Some [0x61, 10, 0x1b]) 9 = Some out \<and> length out < 9 \<and>
    list_all printable out"
  using sanitize_text_safe [of 9 "[0x61, 10, 0x1b]"] by auto

text \<open>\<open>afp_parse_version\<close> reads a dotted version such as 3.1 and its plain form 31 as the
  same number, for every major number whose result fits an \<open>int\<close>.\<close>
theorem parse_version_dotted_or_plain:
  assumes "list_all is_digit ds" "ds \<noteq> []" "is_digit d" "dec_value (ds @ [d]) \<le> INT_MAX"
  shows "afp_parse_version (Some (ds @ ''.'' @ [d])) = Some (dec_value (ds @ [d])) \<and>
    afp_parse_version (Some (ds @ [d])) = Some (dec_value (ds @ [d]))"
  using assms by (rule parse_version_dotted)

theorem parse_version_dotted_or_plain_witness:
  "afp_parse_version (Some ''3.4'') = Some 34 \<and> afp_parse_version (Some ''34'') = Some 34"
  using parse_version_dotted_or_plain [of "''3''" "CHR ''4''"]
  by (simp add: is_digit_def dec_value_def)

end
