(* ===== verification/Mac_Roman.thy ===== *)
theory Mac_Roman
  imports Unicode
begin

text \<open>
  The Mac Roman tables of \<open>lib/mac_roman.h\<close> and the character mapping of
  \<open>lib/codepage.c\<close> that reads them.  A page lists the bytes of consecutive
  characters, 0 for a character Mac Roman lacks.
\<close>

definition mac_roman_2uni :: "nat list" where
  "mac_roman_2uni = [
    0xC4, 0xC5, 0xC7, 0xC9, 0xD1, 0xD6, 0xDC, 0xE1, 0xE0, 0xE2, 0xE4, 0xE3,
    0xE5, 0xE7, 0xE9, 0xE8, 0xEA, 0xEB, 0xED, 0xEC, 0xEE, 0xEF, 0xF1, 0xF3,
    0xF2, 0xF4, 0xF6, 0xF5, 0xFA, 0xF9, 0xFB, 0xFC, 0x2020, 0xB0, 0xA2, 0xA3,
    0xA7, 0x2022, 0xB6, 0xDF, 0xAE, 0xA9, 0x2122, 0xB4, 0xA8, 0x2260, 0xC6, 0xD8,
    0x221E, 0xB1, 0x2264, 0x2265, 0xA5, 0xB5, 0x2202, 0x2211, 0x220F, 0x3C0, 0x222B, 0xAA,
    0xBA, 0x2126, 0xE6, 0xF8, 0xBF, 0xA1, 0xAC, 0x221A, 0x192, 0x2248, 0x2206, 0xAB,
    0xBB, 0x2026, 0xA0, 0xC0, 0xC3, 0xD5, 0x152, 0x153, 0x2013, 0x2014, 0x201C, 0x201D,
    0x2018, 0x2019, 0xF7, 0x25CA, 0xFF, 0x178, 0x2044, 0x20AC, 0x2039, 0x203A, 0xFB01, 0xFB02,
    0x2021, 0xB7, 0x201A, 0x201E, 0x2030, 0xC2, 0xCA, 0xC1, 0xCB, 0xC8, 0xCD, 0xCE,
    0xCF, 0xCC, 0xD3, 0xD4, 0xF8FF, 0xD2, 0xDA, 0xDB, 0xD9, 0x131, 0x2C6, 0x2DC,
    0xAF, 0x2D8, 0x2D9, 0x2DA, 0xB8, 0x2DD, 0x2DB, 0x2C7]"

definition mac_roman_page00 :: "nat list" where
  "mac_roman_page00 = [
    0xCA, 0xC1, 0xA2, 0xA3, 0, 0xB4, 0, 0xA4, 0xAC, 0xA9, 0xBB, 0xC7,
    0xC2, 0, 0xA8, 0xF8, 0xA1, 0xB1, 0, 0, 0xAB, 0xB5, 0xA6, 0xE1,
    0xFC, 0, 0xBC, 0xC8, 0, 0, 0, 0xC0, 0xCB, 0xE7, 0xE5, 0xCC,
    0x80, 0x81, 0xAE, 0x82, 0xE9, 0x83, 0xE6, 0xE8, 0xED, 0xEA, 0xEB, 0xEC,
    0, 0x84, 0xF1, 0xEE, 0xEF, 0xCD, 0x85, 0, 0xAF, 0xF4, 0xF2, 0xF3,
    0x86, 0, 0, 0xA7, 0x88, 0x87, 0x89, 0x8B, 0x8A, 0x8C, 0xBE, 0x8D,
    0x8F, 0x8E, 0x90, 0x91, 0x93, 0x92, 0x94, 0x95, 0, 0x96, 0x98, 0x97,
    0x99, 0x9B, 0x9A, 0xD6, 0xBF, 0x9D, 0x9C, 0x9E, 0x9F, 0, 0, 0xD8]"

definition mac_roman_page01 :: "nat list" where
  "mac_roman_page01 = [
    0xF5, 0, 0, 0, 0, 0, 0, 0, 0, 0, 0, 0,
    0, 0, 0, 0, 0, 0, 0, 0, 0, 0, 0, 0,
    0, 0, 0, 0, 0, 0, 0, 0, 0, 0xCE, 0xCF, 0,
    0, 0, 0, 0, 0, 0, 0, 0, 0, 0, 0, 0,
    0, 0, 0, 0, 0, 0, 0, 0, 0, 0, 0, 0,
    0, 0, 0, 0, 0, 0, 0, 0, 0, 0, 0, 0xD9,
    0, 0, 0, 0, 0, 0, 0, 0, 0, 0, 0, 0,
    0, 0, 0, 0, 0, 0, 0, 0, 0, 0, 0, 0,
    0, 0xC4]"

definition mac_roman_page02 :: "nat list" where
  "mac_roman_page02 = [
    0xF6, 0xFF, 0, 0, 0, 0, 0, 0, 0, 0, 0, 0,
    0, 0, 0, 0, 0, 0, 0xF9, 0xFA, 0xFB, 0xFE, 0xF7, 0xFD]"

definition mac_roman_page20 :: "nat list" where
  "mac_roman_page20 = [
    0xD0, 0xD1, 0, 0, 0, 0xD4, 0xD5, 0xE2, 0, 0xD2, 0xD3, 0xE3,
    0, 0xA0, 0xE0, 0xA5, 0, 0, 0, 0xC9, 0, 0, 0, 0,
    0, 0, 0, 0xE4, 0, 0, 0, 0, 0, 0, 0, 0,
    0, 0, 0xDC, 0xDD, 0, 0, 0, 0, 0, 0, 0, 0,
    0, 0xDA]"

definition mac_roman_page21 :: "nat list" where
  "mac_roman_page21 = [
    0xAA, 0, 0, 0, 0xBD]"

definition mac_roman_page22 :: "nat list" where
  "mac_roman_page22 = [
    0xB6, 0, 0, 0, 0xC6, 0, 0, 0, 0, 0, 0, 0,
    0, 0xB8, 0, 0xB7, 0, 0, 0, 0, 0, 0, 0, 0,
    0xC3, 0, 0, 0, 0xB0, 0, 0, 0, 0, 0, 0, 0,
    0, 0, 0, 0xBA, 0, 0, 0, 0, 0, 0, 0, 0,
    0, 0, 0, 0, 0, 0, 0, 0, 0, 0, 0, 0,
    0, 0, 0, 0, 0, 0, 0, 0, 0xC5, 0, 0, 0,
    0, 0, 0, 0, 0, 0, 0, 0, 0, 0, 0, 0,
    0, 0, 0, 0, 0, 0, 0, 0, 0, 0, 0xAD, 0,
    0, 0, 0xB2, 0xB3]"

definition mac_roman_pagefb :: "nat list" where
  "mac_roman_pagefb = [
    0xDE, 0xDF]"

text \<open>\<open>unicode_to_mac_roman\<close>: the byte of a character, or 0.\<close>

definition unicode_to_mac_roman :: "char16 \<Rightarrow> nat" where
  "unicode_to_mac_roman uc =
     (if uc \<ge> 0x00A0 \<and> uc \<le> 0x00FF then mac_roman_page00 ! (uc - 0x00A0)
      else if uc \<ge> 0x0131 \<and> uc \<le> 0x0192 then mac_roman_page01 ! (uc - 0x0131)
      else if uc \<ge> 0x02C6 \<and> uc \<le> 0x02DD then mac_roman_page02 ! (uc - 0x02C6)
      else if uc = 0x03C0 then 0xB9
      else if uc \<ge> 0x2013 \<and> uc \<le> 0x2044 then mac_roman_page20 ! (uc - 0x2013)
      else if uc = 0x20AC then 0xDB
      else if uc \<ge> 0x2122 \<and> uc \<le> 0x2126 then mac_roman_page21 ! (uc - 0x2122)
      else if uc \<ge> 0x2202 \<and> uc \<le> 0x2265 then mac_roman_page22 ! (uc - 0x2202)
      else if uc = 0x25CA then 0xD7
      else if uc = 0xF8FF then 0xF0
      else if uc \<ge> 0xFB01 \<and> uc \<le> 0xFB02 then mac_roman_pagefb ! (uc - 0xFB01)
      else 0)"

text \<open>The loop of \<open>convert_mac_roman_to_utf8\<close>: at most 255 characters up to a NUL.\<close>

fun mac_roman_chars :: "bytes \<Rightarrow> nat \<Rightarrow> char16 list" where
  "mac_roman_chars [] room = []"
| "mac_roman_chars (c # cs) room =
     (if c = 0 \<or> room = 0 then []
      else (if unat c < 0x80 then unat c else mac_roman_2uni ! (unat c - 0x80))
           # mac_roman_chars cs (room - 1))"

definition convert_mac_roman_to_utf8 :: "bytes \<Rightarrow> nat \<Rightarrow> int \<times> bytes option" where
  "convert_mac_roman_to_utf8 src dest_len =
     (if src = [] \<or> dest_len = 0 then (-1, None)
      else let cs = mac_roman_chars src 255;
               (ret, out) = UCS2toUTF8 (Some cs) (length cs) dest_len
           in (ret, Some out))"

section \<open>The tables against each other\<close>

text \<open>The bytes whose character the reverse tables do not map back.\<close>

definition unmapped_mac_roman :: "nat list" where
  "unmapped_mac_roman = [0xBA, 0xC5, 0xE4]"

lemma mac_roman_lengths [simp]:
  "length mac_roman_2uni = 128" "length mac_roman_page00 = 96" "length mac_roman_page01 = 98"
  "length mac_roman_page02 = 24" "length mac_roman_page20 = 50" "length mac_roman_page21 = 5"
  "length mac_roman_page22 = 100" "length mac_roman_pagefb = 2"
  by (simp_all add: mac_roman_2uni_def mac_roman_page00_def mac_roman_page01_def
      mac_roman_page02_def mac_roman_page20_def mac_roman_page21_def mac_roman_page22_def
      mac_roman_pagefb_def)

lemmas mac_roman_tables = mac_roman_2uni_def mac_roman_page00_def mac_roman_page01_def
  mac_roman_page02_def mac_roman_page20_def mac_roman_page21_def mac_roman_page22_def
  mac_roman_pagefb_def

fun reverse_agrees :: "nat \<Rightarrow> nat list \<Rightarrow> bool" where
  "reverse_agrees b [] \<longleftrightarrow> True"
| "reverse_agrees b (uc # ucs) \<longleftrightarrow>
     unicode_to_mac_roman uc = (if b \<in> set unmapped_mac_roman then 0 else b)
     \<and> reverse_agrees (b + 1) ucs"

lemma reverse_agrees_nth:
  "reverse_agrees b ucs \<Longrightarrow> i < length ucs \<Longrightarrow>
     unicode_to_mac_roman (ucs ! i) = (if b + i \<in> set unmapped_mac_roman then 0 else b + i)"
proof (induction b ucs arbitrary: i rule: reverse_agrees.induct)
  case (2 b uc ucs)
  then show ?case by (cases i) auto
qed simp

lemma reverse_tables_agree: "reverse_agrees 0x80 mac_roman_2uni"
  by (simp add: mac_roman_tables unicode_to_mac_roman_def unmapped_mac_roman_def)

lemma mac_roman_scalar: "list_all scalar16 mac_roman_2uni"
  by (simp add: mac_roman_2uni_def scalar16_def)

lemma mac_roman_not_ascii: "list_all (\<lambda>c. 0x80 \<le> c) mac_roman_2uni"
  by (simp add: mac_roman_2uni_def)

text \<open>C27: the reverse Mac Roman tables invert the forward one on every byte above ASCII
  except three. The characters of bytes 0xBA (U+222B, integral), 0xC5 (U+2248, almost equal)
  and 0xE4 (U+2030, per mille) map to no byte, because the reverse pages hold them at U+2229,
  U+2246 and U+202E: a name with one of them is shown but cannot be sent back.\<close>
theorem mac_roman_round_trip_except:
  assumes "0x80 \<le> b" "b \<le> 0xFF"
  shows "unicode_to_mac_roman (mac_roman_2uni ! (b - 0x80)) =
    (if b \<in> {0xBA, 0xC5, 0xE4} then 0 else b)"
  using reverse_agrees_nth [OF reverse_tables_agree, where i = "b - 0x80"] assms
  by (auto simp: unmapped_mac_roman_def)

theorem mac_roman_round_trip_except_witness:
  "unicode_to_mac_roman (mac_roman_2uni ! (0x8E - 0x80)) = 0x8E \<and>
   unicode_to_mac_roman (mac_roman_2uni ! (0xE4 - 0x80)) = 0"
  using mac_roman_round_trip_except [of "0x8E"] mac_roman_round_trip_except [of "0xE4"] by simp

end
