(* ===== verification/Decompose_Rank.thy ===== *)
theory Decompose_Rank
  imports Unicode
begin

text \<open>
  How deep the table of \<open>lib/unicode.c\<close> decomposes a character: a rank that falls from a
  character to its base, as a decision tree.  The rank is what the recursion of
  \<open>decompose_char\<close> in \<open>lib/codepage.c\<close> descends on, and its bound of 3 is the bound
  of four characters the code reserves for a decomposition.
\<close>

definition char_rank :: "char16 \<Rightarrow> nat" where
  "char_rank c =
    (if c < 0x1F12 then (if c < 0x960 then (if c < 0x387 then (if c < 0x168 then (if c < 0xFE
    then (if c < 0xDE then (if c < 0xD0 then (if c < 0xC6 then (if c < 0xC0 then 0 else 1) else
    (if c < 0xC7 then 0 else 1)) else (if c < 0xD7 then (if c < 0xD1 then 0 else 1) else (if c <
    0xD9 then 0 else 1))) else (if c < 0xF0 then (if c < 0xE6 then (if c < 0xE0 then 0 else 1)
    else (if c < 0xE7 then 0 else 1)) else (if c < 0xF7 then (if c < 0xF1 then 0 else 1) else (if
    c < 0xF9 then 0 else 1)))) else (if c < 0x138 then (if c < 0x126 then (if c < 0x110 then (if
    c < 0xFF then 0 else 1) else (if c < 0x112 then 0 else 1)) else (if c < 0x131 then (if c <
    0x128 then 0 else 1) else (if c < 0x134 then 0 else 1))) else (if c < 0x149 then (if c <
    0x13F then (if c < 0x139 then 0 else 1) else (if c < 0x143 then 0 else 1)) else (if c < 0x152
    then (if c < 0x14C then 0 else 1) else (if c < 0x154 then 0 else (if c < 0x166 then 1 else
    0)))))) else (if c < 0x1F4 then (if c < 0x1DD then (if c < 0x1AF then (if c < 0x1A0 then (if
    c < 0x17F then 1 else 0) else (if c < 0x1A2 then 1 else 0)) else (if c < 0x1CD then (if c <
    0x1B1 then 1 else 0) else (if c < 0x1D5 then 1 else 2))) else (if c < 0x1E6 then (if c <
    0x1E2 then (if c < 0x1DE then 0 else 2) else (if c < 0x1E4 then 1 else 0)) else (if c < 0x1EE
    then (if c < 0x1EC then 1 else 2) else (if c < 0x1F1 then 1 else 0)))) else (if c < 0x226
    then (if c < 0x1FC then (if c < 0x1F8 then (if c < 0x1F6 then 1 else 0) else (if c < 0x1FA
    then 1 else 2)) else (if c < 0x21E then (if c < 0x21C then 1 else 0) else (if c < 0x220 then
    1 else 0))) else (if c < 0x232 then (if c < 0x22E then (if c < 0x22A then 1 else 2) else (if
    c < 0x230 then 1 else 2)) else (if c < 0x344 then (if c < 0x234 then 1 else 0) else (if c <
    0x345 then 1 else (if c < 0x385 then 0 else 1))))))) else (if c < 0x45C then (if c < 0x402
    then (if c < 0x3AA then (if c < 0x38D then (if c < 0x38B then (if c < 0x388 then 0 else 1)
    else (if c < 0x38C then 0 else 1)) else (if c < 0x390 then (if c < 0x38E then 0 else 1) else
    (if c < 0x391 then 2 else 0))) else (if c < 0x3CF then (if c < 0x3B1 then (if c < 0x3B0 then
    1 else 2) else (if c < 0x3CA then 0 else 1)) else (if c < 0x3D5 then (if c < 0x3D3 then 0
    else 1) else (if c < 0x400 then 0 else 1)))) else (if c < 0x41A then (if c < 0x408 then (if c
    < 0x404 then (if c < 0x403 then 0 else 1) else (if c < 0x407 then 0 else 1)) else (if c <
    0x40F then (if c < 0x40C then 0 else 1) else (if c < 0x419 then 0 else 1))) else (if c <
    0x452 then (if c < 0x43A then (if c < 0x439 then 0 else 1) else (if c < 0x450 then 0 else 1))
    else (if c < 0x454 then (if c < 0x453 then 0 else 1) else (if c < 0x457 then 0 else (if c <
    0x458 then 1 else 0)))))) else (if c < 0x4F8 then (if c < 0x4D6 then (if c < 0x4C1 then (if c
    < 0x476 then (if c < 0x45F then 1 else 0) else (if c < 0x478 then 1 else 0)) else (if c <
    0x4D0 then (if c < 0x4C3 then 1 else 0) else (if c < 0x4D4 then 1 else 0))) else (if c <
    0x4E2 then (if c < 0x4DA then (if c < 0x4D8 then 1 else 0) else (if c < 0x4E0 then 1 else 0))
    else (if c < 0x4EA then (if c < 0x4E8 then 1 else 0) else (if c < 0x4F6 then 1 else 0))))
    else (if c < 0x6D3 then (if c < 0x6C0 then (if c < 0x622 then (if c < 0x4FA then 1 else 0)
    else (if c < 0x627 then 1 else 0)) else (if c < 0x6C2 then (if c < 0x6C1 then 1 else 0) else
    (if c < 0x6C3 then 1 else 0))) else (if c < 0x931 then (if c < 0x929 then (if c < 0x6D4 then
    1 else 0) else (if c < 0x92A then 1 else 0)) else (if c < 0x934 then (if c < 0x932 then 1
    else 0) else (if c < 0x935 then 1 else (if c < 0x958 then 0 else 1)))))))) else (if c < 0xFA2
    then (if c < 0xCCC then (if c < 0xB49 then (if c < 0xA34 then (if c < 0x9DE then (if c <
    0x9CD then (if c < 0x9CB then 0 else 1) else (if c < 0x9DC then 0 else 1)) else (if c < 0x9E0
    then (if c < 0x9DF then 0 else 1) else (if c < 0xA33 then 0 else 1))) else (if c < 0xA5C then
    (if c < 0xA37 then (if c < 0xA36 then 0 else 1) else (if c < 0xA59 then 0 else 1)) else (if c
    < 0xA5F then (if c < 0xA5E then 0 else 1) else (if c < 0xB48 then 0 else 1)))) else (if c <
    0xBCD then (if c < 0xB5E then (if c < 0xB4D then (if c < 0xB4B then 0 else 1) else (if c <
    0xB5C then 0 else 1)) else (if c < 0xB95 then (if c < 0xB94 then 0 else 1) else (if c < 0xBCA
    then 0 else 1))) else (if c < 0xCC1 then (if c < 0xC49 then (if c < 0xC48 then 0 else 1) else
    (if c < 0xCC0 then 0 else 1)) else (if c < 0xCC9 then (if c < 0xCC7 then 0 else 1) else (if c
    < 0xCCA then 0 else (if c < 0xCCB then 1 else 2)))))) else (if c < 0xF58 then (if c < 0xDDF
    then (if c < 0xDDB then (if c < 0xD4D then (if c < 0xD4A then 0 else 1) else (if c < 0xDDA
    then 0 else 1)) else (if c < 0xDDD then (if c < 0xDDC then 0 else 1) else (if c < 0xDDE then
    2 else 1))) else (if c < 0xF4E then (if c < 0xF44 then (if c < 0xF43 then 0 else 1) else (if
    c < 0xF4D then 0 else 1)) else (if c < 0xF53 then (if c < 0xF52 then 0 else 1) else (if c <
    0xF57 then 0 else 1)))) else (if c < 0xF77 then (if c < 0xF6A then (if c < 0xF5D then (if c <
    0xF5C then 0 else 1) else (if c < 0xF69 then 0 else 1)) else (if c < 0xF74 then (if c < 0xF73
    then 0 else 1) else (if c < 0xF75 then 0 else 1))) else (if c < 0xF82 then (if c < 0xF79 then
    (if c < 0xF78 then 0 else 1) else (if c < 0xF81 then 0 else 1)) else (if c < 0xF94 then (if c
    < 0xF93 then 0 else 1) else (if c < 0xF9D then 0 else (if c < 0xF9E then 1 else 0))))))) else
    (if c < 0x1E14 then (if c < 0x1B0C then (if c < 0x1026 then (if c < 0xFAC then (if c < 0xFA7
    then (if c < 0xFA3 then 1 else 0) else (if c < 0xFA8 then 1 else 0)) else (if c < 0xFB9 then
    (if c < 0xFAD then 1 else 0) else (if c < 0xFBA then 1 else 0))) else (if c < 0x1B08 then (if
    c < 0x1B06 then (if c < 0x1027 then 1 else 0) else (if c < 0x1B07 then 1 else 0)) else (if c
    < 0x1B0A then (if c < 0x1B09 then 1 else 0) else (if c < 0x1B0B then 1 else 0)))) else (if c
    < 0x1B3D then (if c < 0x1B12 then (if c < 0x1B0E then (if c < 0x1B0D then 1 else 0) else (if
    c < 0x1B0F then 1 else 0)) else (if c < 0x1B3B then (if c < 0x1B13 then 1 else 0) else (if c
    < 0x1B3C then 1 else 0))) else (if c < 0x1B43 then (if c < 0x1B40 then (if c < 0x1B3E then 1
    else 0) else (if c < 0x1B42 then 1 else 0)) else (if c < 0x1E00 then (if c < 0x1B44 then 1
    else 0) else (if c < 0x1E08 then 1 else (if c < 0x1E0A then 2 else 1)))))) else (if c <
    0x1E9B then (if c < 0x1E4C then (if c < 0x1E2E then (if c < 0x1E1C then (if c < 0x1E18 then 2
    else 1) else (if c < 0x1E1E then 2 else 1)) else (if c < 0x1E38 then (if c < 0x1E30 then 2
    else 1) else (if c < 0x1E3A then 2 else 1))) else (if c < 0x1E64 then (if c < 0x1E5C then (if
    c < 0x1E54 then 2 else 1) else (if c < 0x1E5E then 2 else 1)) else (if c < 0x1E78 then (if c
    < 0x1E6A then 2 else 1) else (if c < 0x1E7C then 2 else (if c < 0x1E9A then 1 else 0)))))
    else (if c < 0x1EE4 then (if c < 0x1EB8 then (if c < 0x1EA0 then (if c < 0x1E9C then 1 else
    0) else (if c < 0x1EA4 then 1 else 2)) else (if c < 0x1EC8 then (if c < 0x1EBE then 1 else 2)
    else (if c < 0x1ED0 then 1 else 2))) else (if c < 0x1F00 then (if c < 0x1EF2 then (if c <
    0x1EE8 then 1 else 2) else (if c < 0x1EFA then 1 else 0)) else (if c < 0x1F08 then (if c <
    0x1F02 then 1 else 2) else (if c < 0x1F0A then 1 else (if c < 0x1F10 then 2 else 1)))))))))
    else (if c < 0x224A then (if c < 0x1FB8 then (if c < 0x1F70 then (if c < 0x1F48 then (if c <
    0x1F2A then (if c < 0x1F1E then (if c < 0x1F18 then (if c < 0x1F16 then 2 else 0) else (if c
    < 0x1F1A then 1 else 2)) else (if c < 0x1F22 then (if c < 0x1F20 then 0 else 1) else (if c <
    0x1F28 then 2 else 1))) else (if c < 0x1F3A then (if c < 0x1F32 then (if c < 0x1F30 then 2
    else 1) else (if c < 0x1F38 then 2 else 1)) else (if c < 0x1F42 then (if c < 0x1F40 then 2
    else 1) else (if c < 0x1F46 then 2 else 0)))) else (if c < 0x1F5B then (if c < 0x1F52 then
    (if c < 0x1F4E then (if c < 0x1F4A then 1 else 2) else (if c < 0x1F50 then 0 else 1)) else
    (if c < 0x1F59 then (if c < 0x1F58 then 2 else 0) else (if c < 0x1F5A then 1 else 0))) else
    (if c < 0x1F5F then (if c < 0x1F5D then (if c < 0x1F5C then 2 else 0) else (if c < 0x1F5E
    then 2 else 0)) else (if c < 0x1F62 then (if c < 0x1F60 then 2 else 1) else (if c < 0x1F68
    then 2 else (if c < 0x1F6A then 1 else 2)))))) else (if c < 0x1F88 then (if c < 0x1F78 then
    (if c < 0x1F74 then (if c < 0x1F72 then (if c < 0x1F71 then 1 else 0) else (if c < 0x1F73
    then 1 else 0)) else (if c < 0x1F76 then (if c < 0x1F75 then 1 else 0) else (if c < 0x1F77
    then 1 else 0))) else (if c < 0x1F7C then (if c < 0x1F7A then (if c < 0x1F79 then 1 else 0)
    else (if c < 0x1F7B then 1 else 0)) else (if c < 0x1F80 then (if c < 0x1F7D then 1 else 0)
    else (if c < 0x1F82 then 2 else 3)))) else (if c < 0x1FA8 then (if c < 0x1F98 then (if c <
    0x1F90 then (if c < 0x1F8A then 2 else 3) else (if c < 0x1F92 then 2 else 3)) else (if c <
    0x1FA0 then (if c < 0x1F9A then 2 else 3) else (if c < 0x1FA2 then 2 else 3))) else (if c <
    0x1FB3 then (if c < 0x1FB0 then (if c < 0x1FAA then 2 else 3) else (if c < 0x1FB2 then 1 else
    2)) else (if c < 0x1FB5 then (if c < 0x1FB4 then 1 else 2) else (if c < 0x1FB6 then 0 else
    (if c < 0x1FB7 then 1 else 2))))))) else (if c < 0x1FF4 then (if c < 0x1FD2 then (if c <
    0x1FC5 then (if c < 0x1FC1 then (if c < 0x1FBC then (if c < 0x1FBB then 1 else 0) else (if c
    < 0x1FBD then 1 else 0)) else (if c < 0x1FC3 then (if c < 0x1FC2 then 1 else 2) else (if c <
    0x1FC4 then 1 else 2))) else (if c < 0x1FC9 then (if c < 0x1FC7 then (if c < 0x1FC6 then 0
    else 1) else (if c < 0x1FC8 then 2 else 1)) else (if c < 0x1FCB then (if c < 0x1FCA then 0
    else 1) else (if c < 0x1FCC then 0 else 1)))) else (if c < 0x1FE3 then (if c < 0x1FD8 then
    (if c < 0x1FD6 then (if c < 0x1FD3 then 2 else 0) else (if c < 0x1FD7 then 1 else 2)) else
    (if c < 0x1FDD then (if c < 0x1FDB then 1 else 0) else (if c < 0x1FE2 then 1 else 2))) else
    (if c < 0x1FEB then (if c < 0x1FE7 then (if c < 0x1FE4 then 0 else 1) else (if c < 0x1FE8
    then 2 else 1)) else (if c < 0x1FEE then (if c < 0x1FEC then 0 else 1) else (if c < 0x1FF2
    then 0 else (if c < 0x1FF3 then 2 else 1)))))) else (if c < 0x2204 then (if c < 0x1FFC then
    (if c < 0x1FF8 then (if c < 0x1FF6 then (if c < 0x1FF5 then 2 else 0) else (if c < 0x1FF7
    then 1 else 2)) else (if c < 0x1FFA then (if c < 0x1FF9 then 1 else 0) else (if c < 0x1FFB
    then 1 else 0))) else (if c < 0x21AE then (if c < 0x219A then (if c < 0x1FFD then 1 else 0)
    else (if c < 0x219C then 1 else 0)) else (if c < 0x21CD then (if c < 0x21AF then 1 else 0)
    else (if c < 0x21D0 then 1 else 0)))) else (if c < 0x2226 then (if c < 0x220C then (if c <
    0x2209 then (if c < 0x2205 then 1 else 0) else (if c < 0x220A then 1 else 0)) else (if c <
    0x2224 then (if c < 0x220D then 1 else 0) else (if c < 0x2225 then 1 else 0))) else (if c <
    0x2244 then (if c < 0x2241 then (if c < 0x2227 then 1 else 0) else (if c < 0x2242 then 1 else
    0)) else (if c < 0x2247 then (if c < 0x2245 then 1 else 0) else (if c < 0x2248 then 1 else
    (if c < 0x2249 then 0 else 1)))))))) else (if c < 0x3095 then (if c < 0x3054 then (if c <
    0x228A then (if c < 0x2276 then (if c < 0x226E then (if c < 0x2263 then (if c < 0x2262 then 0
    else 1) else (if c < 0x226D then 0 else 1)) else (if c < 0x2272 then (if c < 0x2270 then 0
    else 1) else (if c < 0x2274 then 0 else 1))) else (if c < 0x2282 then (if c < 0x227A then (if
    c < 0x2278 then 0 else 1) else (if c < 0x2280 then 0 else 1)) else (if c < 0x2286 then (if c
    < 0x2284 then 0 else 1) else (if c < 0x2288 then 0 else 1)))) else (if c < 0x2ADD then (if c
    < 0x22E4 then (if c < 0x22B0 then (if c < 0x22AC then 0 else 1) else (if c < 0x22E0 then 0
    else 1)) else (if c < 0x22EE then (if c < 0x22EA then 0 else 1) else (if c < 0x2ADC then 0
    else 1))) else (if c < 0x304F then (if c < 0x304D then (if c < 0x304C then 0 else 1) else (if
    c < 0x304E then 0 else 1)) else (if c < 0x3051 then (if c < 0x3050 then 0 else 1) else (if c
    < 0x3052 then 0 else (if c < 0x3053 then 1 else 0)))))) else (if c < 0x3065 then (if c <
    0x305C then (if c < 0x3058 then (if c < 0x3056 then (if c < 0x3055 then 1 else 0) else (if c
    < 0x3057 then 1 else 0)) else (if c < 0x305A then (if c < 0x3059 then 1 else 0) else (if c <
    0x305B then 1 else 0))) else (if c < 0x3060 then (if c < 0x305E then (if c < 0x305D then 1
    else 0) else (if c < 0x305F then 1 else 0)) else (if c < 0x3062 then (if c < 0x3061 then 1
    else 0) else (if c < 0x3063 then 1 else 0)))) else (if c < 0x3073 then (if c < 0x3069 then
    (if c < 0x3067 then (if c < 0x3066 then 1 else 0) else (if c < 0x3068 then 1 else 0)) else
    (if c < 0x3070 then (if c < 0x306A then 1 else 0) else (if c < 0x3072 then 1 else 0))) else
    (if c < 0x3079 then (if c < 0x3076 then (if c < 0x3075 then 1 else 0) else (if c < 0x3078
    then 1 else 0)) else (if c < 0x307C then (if c < 0x307B then 1 else 0) else (if c < 0x307E
    then 1 else (if c < 0x3094 then 0 else 1))))))) else (if c < 0x30D0 then (if c < 0x30B9 then
    (if c < 0x30B1 then (if c < 0x30AD then (if c < 0x309F then (if c < 0x309E then 0 else 1)
    else (if c < 0x30AC then 0 else 1)) else (if c < 0x30AF then (if c < 0x30AE then 0 else 1)
    else (if c < 0x30B0 then 0 else 1))) else (if c < 0x30B5 then (if c < 0x30B3 then (if c <
    0x30B2 then 0 else 1) else (if c < 0x30B4 then 0 else 1)) else (if c < 0x30B7 then (if c <
    0x30B6 then 0 else 1) else (if c < 0x30B8 then 0 else 1)))) else (if c < 0x30C1 then (if c <
    0x30BD then (if c < 0x30BB then (if c < 0x30BA then 0 else 1) else (if c < 0x30BC then 0 else
    1)) else (if c < 0x30BF then (if c < 0x30BE then 0 else 1) else (if c < 0x30C0 then 0 else
    1))) else (if c < 0x30C6 then (if c < 0x30C3 then (if c < 0x30C2 then 0 else 1) else (if c <
    0x30C5 then 0 else 1)) else (if c < 0x30C8 then (if c < 0x30C7 then 0 else 1) else (if c <
    0x30C9 then 0 else (if c < 0x30CA then 1 else 0)))))) else (if c < 0xFB1E then (if c < 0x30DC
    then (if c < 0x30D6 then (if c < 0x30D3 then (if c < 0x30D2 then 1 else 0) else (if c <
    0x30D5 then 1 else 0)) else (if c < 0x30D9 then (if c < 0x30D8 then 1 else 0) else (if c <
    0x30DB then 1 else 0))) else (if c < 0x30F7 then (if c < 0x30F4 then (if c < 0x30DE then 1
    else 0) else (if c < 0x30F5 then 1 else 0)) else (if c < 0x30FE then (if c < 0x30FB then 1
    else 0) else (if c < 0x30FF then 1 else (if c < 0xFB1D then 0 else 1))))) else (if c < 0xFB3D
    then (if c < 0xFB2C then (if c < 0xFB20 then (if c < 0xFB1F then 0 else 1) else (if c <
    0xFB2A then 0 else 1)) else (if c < 0xFB37 then (if c < 0xFB2E then 2 else 1) else (if c <
    0xFB38 then 0 else 1))) else (if c < 0xFB42 then (if c < 0xFB3F then (if c < 0xFB3E then 0
    else 1) else (if c < 0xFB40 then 0 else 1)) else (if c < 0xFB45 then (if c < 0xFB43 then 0
    else 1) else (if c < 0xFB46 then 0 else (if c < 0xFB4F then 1 else 0))))))))))"

definition rank_falls :: "nat \<times> nat \<Rightarrow> bool" where
  "rank_falls e \<longleftrightarrow>
     char_rank (fst e) \<le> 3 \<and> char_rank (snd e div 65536) < char_rank (fst e)
     \<and> char_rank (snd e mod 65536) = 0"

lemma table_rank_falls: "list_all rank_falls (tl table)"
  by (simp add: table_def rank_falls_def char_rank_def)

definition entry_scalars :: "nat \<times> nat \<Rightarrow> bool" where
  "entry_scalars e \<longleftrightarrow>
     scalar16 (fst e) \<and> scalar16 (snd e div 65536) \<and> scalar16 (snd e mod 65536)"

lemma entry_scalars_pair:
  "entry_scalars (c, p) \<longleftrightarrow> scalar16 c \<and> scalar16 (p div 65536) \<and> scalar16 (p mod 65536)"
  by (simp add: entry_scalars_def)

lemma table_scalars: "list_all entry_scalars (tl table)"
  by (simp add: table_def scalar16_def entry_scalars_pair)

end
