(* ===== verification/Codepage.thy ===== *)
theory Codepage
  imports Utils Mac_Roman Decompose_Rank
begin

text \<open>
  The name conversions of \<open>lib/codepage.c\<close> between the UNIX form (precomposed UTF-8) and
  the two AFP name encodings (decomposed UTF-8 and Mac Roman).  A conversion returns its
  result and the bytes it leaves in \<open>dest\<close> before the terminator; \<^term>\<open>None\<close> is an access
  outside a buffer.  Whether \<open>malloc\<close> grants a buffer is the parameter \<open>malloc_ok\<close>.
\<close>

section \<open>Scanning and copying\<close>

fun contains_supplementary_utf8 :: "bytes \<Rightarrow> bool" where
  "contains_supplementary_utf8 [] = False"
| "contains_supplementary_utf8 (c # cs) =
     (unat c \<ge> 0xf0 \<and> unat c \<le> 0xf4 \<and> length cs \<ge> 3
        \<and> continuation (cs ! 0) \<and> continuation (cs ! 1) \<and> continuation (cs ! 2)
      \<or> contains_supplementary_utf8 cs)"

definition utf8_is_ascii :: "bytes \<Rightarrow> bool" where
  "utf8_is_ascii src = list_all (\<lambda>b. unat b < 0x80) src"

text \<open>A call that writes \<open>dest\<close>: its result and the string left there.\<close>

definition copy_identity :: "bytes \<Rightarrow> nat \<Rightarrow> int \<times> bytes" where
  "copy_identity src dest_len = (if length src \<ge> dest_len then (-1, []) else (0, src))"

text \<open>\<open>copy_if_supplementary_utf8\<close> leaves \<open>dest\<close>, the last argument, alone when it returns 0.\<close>

definition copy_if_supplementary_utf8 :: "bytes \<Rightarrow> nat \<Rightarrow> bytes \<Rightarrow> int \<times> bytes" where
  "copy_if_supplementary_utf8 src dest_len dest =
     (if \<not> contains_supplementary_utf8 src then (0, dest)
      else let (r, d) = copy_identity src dest_len in if r < 0 then (-1, d) else (1, d))"

definition UCS2_STACK_CHARS :: nat where
  "UCS2_STACK_CHARS = (AFP_MAX_UTF8_NAME_CHARS + 1) * 4 + 1"

definition ucs2_buffer_get :: "(nat \<Rightarrow> bool) \<Rightarrow> nat \<Rightarrow> bool" where
  "ucs2_buffer_get malloc_ok chars = (chars \<le> UCS2_STACK_CHARS \<or> malloc_ok (chars * 2))"

definition utf8_decodes_whole :: "(nat \<Rightarrow> bool) \<Rightarrow> bytes \<Rightarrow> bool option" where
  "utf8_decodes_whole malloc_ok src =
     (if \<not> ucs2_buffer_get malloc_ok (length src + 1) then Some False
      else case UTF8toUCS2 (Some src) (length src) (length src + 1) of
          None \<Rightarrow> None
        | Some d \<Rightarrow> Some (\<not> (dec_ret d < 0 \<or> dec_substituted d \<noteq> 0 \<or> dec_consumed d \<noteq> length src)))"

section \<open>Mac Roman\<close>

fun to_mac_roman :: "char16 list \<Rightarrow> bytes option" where
  "to_mac_roman [] = Some []"
| "to_mac_roman (c # cs) =
     (if c < 0x80 then map_option ((#) (of_nat c)) (to_mac_roman cs)
      else if unicode_to_mac_roman c = 0 then None
      else map_option ((#) (of_nat (unicode_to_mac_roman c))) (to_mac_roman cs))"

text \<open>\<open>convert_utf8_to_mac_roman\<close> with a \<open>dest_len\<close> above the source's length; an empty
  source or a refused buffer leaves \<open>dest\<close>, the last argument, alone.\<close>

definition convert_utf8_to_mac_roman ::
  "(nat \<Rightarrow> bool) \<Rightarrow> bytes \<Rightarrow> nat \<Rightarrow> bytes \<Rightarrow> (int \<times> bytes) option" where
  "convert_utf8_to_mac_roman malloc_ok src dest_len dest =
     (if src = [] \<or> dest_len = 0 then Some (-1, dest)
      else if \<not> ucs2_buffer_get malloc_ok (length src + 1) then Some (-1, dest)
      else case UTF8toUCS2 (Some src) (length src) (length src + 1) of
          None \<Rightarrow> None
        | Some d \<Rightarrow>
            if dec_ret d < 0 \<or> dec_substituted d \<noteq> 0 \<or> dec_consumed d \<noteq> length src
            then Some (-1, [])
            else case to_mac_roman (dec_dest d) of
                None \<Rightarrow> Some (-1, [])
              | Some out \<Rightarrow> if length out < dest_len then Some (0, out) else None)"

section \<open>Composition and decomposition of strings\<close>

text \<open>The loop of \<open>convert_utf8dec_to_utf8pre\<close>: \<open>prev\<close> is the character not yet stored.\<close>

fun precompose_loop :: "char16 list \<Rightarrow> char16 \<Rightarrow> char16 list \<Rightarrow> char16 list option" where
  "precompose_loop [] prev out = Some out"
| "precompose_loop (c # cs) prev out =
     (case (if prev > 0 then
              (case UCS2precompose prev c of
                 None \<Rightarrow> None
               | Some cmb \<Rightarrow>
                   if cmb \<noteq> -1 then Some (u16 (nat cmb), out) else Some (c, out @ [prev]))
            else Some (c, out)) of
        None \<Rightarrow> None
      | Some (prev', out') \<Rightarrow>
          if cs = [] then Some (out' @ [prev']) else precompose_loop cs prev' out')"

definition convert_utf8dec_to_utf8pre ::
  "(nat \<Rightarrow> bool) \<Rightarrow> bytes \<Rightarrow> nat \<Rightarrow> (int \<times> bytes) option" where
  "convert_utf8dec_to_utf8pre malloc_ok src dest_len =
     (if src = [] \<or> dest_len = 0 then Some (-1, [])
      else if \<not> ucs2_buffer_get malloc_ok (length src + 1) then Some (-1, [])
      else case UTF8toUCS2 (Some src) (length src) (length src + 1) of
          None \<Rightarrow> None
        | Some d \<Rightarrow>
            if dec_ret d < 0 then Some (-1, [])
            else if \<not> ucs2_buffer_get malloc_ok (nat (dec_ret d) + 1) then Some (-1, [])
            else case precompose_loop (dec_dest d) 0 [] of
                None \<Rightarrow> None
              | Some pre \<Rightarrow>
                  if length pre \<ge> nat (dec_ret d) + 1 then None
                  else case UCS2toUTF8 (Some pre) (length pre) dest_len of
                      (ret, out) \<Rightarrow>
                        if ret \<noteq> 0 then Some (-1, [])
                        else if dec_substituted d \<noteq> 0 \<or> dec_consumed d \<noteq> length src
                        then Some (1, out) else Some (0, out))"

lemma decompose_rank:
  assumes "UCS2decompose c = Some (a, b)"
  shows "char_rank c \<le> 3 \<and> char_rank a < char_rank c \<and> char_rank b = 0"
proof -
  obtain m where m: "1 \<le> m" "m < 998" "fst (table ! (build_decompose_index ! m)) = c"
      "a = snd (table ! (build_decompose_index ! m)) div 65536 mod 65536"
      "b = snd (table ! (build_decompose_index ! m)) mod 65536"
    using decompose_loop_sound [OF assms [unfolded UCS2decompose_def]] by auto
  let ?k = "build_decompose_index ! m"
  have k: "1 \<le> ?k" "?k < 998" using decompose_index_range m by auto
  then have e: "table ! ?k \<in> set (tl table)"
    using nth_tl [of "?k - 1" table] nth_mem [of "?k - 1" "tl table"] by simp
  then have "rank_falls (table ! ?k)"
    using table_rank_falls by (simp add: list_all_iff)
  moreover have "snd (table ! ?k) < 4294967296"
    using table_precomposed_bounds k by (auto simp: list_all_length case_prod_beta)
  ultimately show ?thesis using m by (simp add: rank_falls_def)
qed

text \<open>\<open>decompose_char\<close>: the characters it appends.\<close>

function decompose_char :: "char16 \<Rightarrow> char16 list" where
  "decompose_char c =
     (case UCS2decompose c of
        Some (a, b) \<Rightarrow> decompose_char a @ decompose_char b
      | None \<Rightarrow> [c])"
  by pat_completeness auto
termination
proof (relation "measure char_rank")
  fix c ab a b
  assume "UCS2decompose c = Some ab" "(a, b) = ab"
  then have "char_rank a < char_rank c" "char_rank b < char_rank c"
    using decompose_rank [of c a b] by auto
  then show "(a, c) \<in> measure char_rank" "(b, c) \<in> measure char_rank" by auto
qed simp

declare decompose_char.simps [simp del]

definition convert_utf8pre_to_utf8dec ::
  "(nat \<Rightarrow> bool) \<Rightarrow> bytes \<Rightarrow> nat \<Rightarrow> (int \<times> bytes) option" where
  "convert_utf8pre_to_utf8dec malloc_ok src dest_len =
     (if src = [] \<or> dest_len = 0 then Some (-1, [])
      else if \<not> ucs2_buffer_get malloc_ok (length src + 1) then Some (-1, [])
      else case UTF8toUCS2 (Some src) (length src) (length src + 1) of
          None \<Rightarrow> None
        | Some d \<Rightarrow>
            if dec_ret d < 0 \<or> dec_substituted d \<noteq> 0 \<or> dec_consumed d \<noteq> length src
            then Some (-1, [])
            else if \<not> ucs2_buffer_get malloc_ok (nat (dec_ret d) * 4 + 1) then Some (-1, [])
            else let dec = concat (map decompose_char (dec_dest d)) in
                 if length dec \<ge> nat (dec_ret d) * 4 + 1 then None
                 else case UCS2toUTF8 (Some dec) (length dec) dest_len of
                     (ret, out) \<Rightarrow> if ret \<noteq> 0 then Some (-1, []) else Some (0, out))"

section \<open>Names and paths\<close>

text \<open>An AFP slash is a UNIX colon, up to the terminator of the name.\<close>

definition unix_name_bytes :: "bytes \<Rightarrow> bytes" where
  "unix_name_bytes d = map (\<lambda>b. if b = 0x2f then 0x3a else b) (cstr d)"

definition convert_name_to_unix ::
  "(nat \<Rightarrow> bool) \<Rightarrow> nat \<Rightarrow> bytes \<Rightarrow> nat \<Rightarrow> (int \<times> bytes) option" where
  "convert_name_to_unix malloc_ok encoding src dest_len =
     (if dest_len = 0 \<or> int (length src) > INT_MAX \<or> int dest_len > INT_MAX then Some (-1, [])
      else if encoding = kFPUTF8Name then
        (if utf8_is_ascii src then
           (case copy_identity src dest_len of
              (r, d) \<Rightarrow> if r < 0 then Some (-1, d) else Some (0, unix_name_bytes d))
         else
           (case copy_if_supplementary_utf8 src dest_len [] of
              (r, d) \<Rightarrow>
                if r < 0 then Some (-1, d)
                else if (d = [] \<or> hd d = 0) \<and> src \<noteq> [] then
                  (case convert_utf8dec_to_utf8pre malloc_ok src dest_len of
                     None \<Rightarrow> None
                   | Some (r', d') \<Rightarrow>
                       if r' < 0 then Some (-1, d') else Some (0, unix_name_bytes d'))
                else Some (0, unix_name_bytes d)))
      else if encoding = kFPLongName then
        (case convert_mac_roman_to_utf8 src dest_len of
           (_, None) \<Rightarrow> Some (0, [])
         | (_, Some d) \<Rightarrow> Some (0, unix_name_bytes d))
      else Some (-1, []))"

text \<open>\<open>convert_path_to_unix\<close> reads its source up to a NUL or \<open>dest_len\<close> bytes.\<close>

definition convert_path_to_unix ::
  "(nat \<Rightarrow> bool) \<Rightarrow> nat \<Rightarrow> bytes \<Rightarrow> nat \<Rightarrow> (int \<times> bytes) option" where
  "convert_path_to_unix malloc_ok encoding src dest_len =
     (if dest_len = 0 then Some (-1, [])
      else convert_name_to_unix malloc_ok encoding (take dest_len (cstr src)) dest_len)"

text \<open>\<open>convert_path_to_afp\<close>: the source is a C string.\<close>

definition convert_path_to_afp ::
  "(nat \<Rightarrow> bool) \<Rightarrow> nat \<Rightarrow> bytes \<Rightarrow> nat \<Rightarrow> (int \<times> bytes) option" where
  "convert_path_to_afp malloc_ok encoding src dest_len =
     (if dest_len = 0 then Some (-1, [])
      else if length src \<ge> dest_len then Some (-1, [])
      else let ascii = utf8_is_ascii src in
      if encoding = kFPUTF8Name then
        (if ascii then Some (copy_identity src dest_len)
         else case copy_if_supplementary_utf8 src dest_len [] of
             (copied, d) \<Rightarrow>
               (case (if copied > 0 then utf8_decodes_whole malloc_ok src else Some True) of
                  None \<Rightarrow> None
                | Some whole \<Rightarrow>
                    if copied < 0 \<or> \<not> whole then Some (-1, [])
                    else if copied = 0 \<and> src \<noteq> [] then
                      (case convert_utf8pre_to_utf8dec malloc_ok src dest_len of
                         None \<Rightarrow> None
                       | Some (r, d') \<Rightarrow> if r < 0 then Some (-1, d') else Some (0, d'))
                    else Some (0, d)))
      else if encoding = kFPLongName then
        (case (if ascii then Some (copy_identity src dest_len)
               else if contains_supplementary_utf8 src then Some (-1, [])
               else convert_utf8_to_mac_roman malloc_ok src dest_len []) of
           None \<Rightarrow> None
         | Some (r, d) \<Rightarrow>
             if r < 0 then Some (-1, d)
             else if length (take dest_len (cstr d)) > 255 then Some (-1, []) else Some (0, d))
      else Some (-1, []))"

section \<open>The bounds the buffers rest on\<close>

lemma UCS2precompose_total: "\<exists>r. UCS2precompose a b = Some r"
  using precompose_lookup by blast

lemma precompose_loop_shrinks:
  "\<exists>out'. precompose_loop cs prev out = Some out' \<and>
     length out' \<le> length out + length cs + (if prev > 0 then 1 else 0)"
proof (induction cs prev out rule: precompose_loop.induct)
  case (2 c cs prev out)
  obtain r where r: "UCS2precompose prev c = Some r" using UCS2precompose_total by blast
  show ?case
  proof (cases "prev > 0")
    case True
    then show ?thesis using "2.IH" r by (cases "r = -1"; cases "cs = []") (fastforce split: if_splits)+
  next
    case False
    then show ?thesis using "2.IH" r by (cases "cs = []") (fastforce split: if_splits)+
  qed
qed simp

lemma decompose_char_entry:
  assumes "UCS2decompose c = Some (a, b)"
  shows "decompose_char c = decompose_char a @ [b]"
proof -
  have "UCS2decompose b = None"
  proof (rule ccontr)
    assume "UCS2decompose b \<noteq> None"
    then obtain x y where "UCS2decompose b = Some (x, y)" by auto
    from decompose_rank [OF this] decompose_rank [OF assms] show False by simp
  qed
  then show ?thesis
    using assms decompose_char.simps [of c] decompose_char.simps [of b] by simp
qed

lemma decompose_char_atom: "UCS2decompose c = None \<Longrightarrow> decompose_char c = [c]"
  by (simp add: decompose_char.simps)

lemma decompose_char_rank: "UCS2decompose c \<noteq> None \<Longrightarrow> length (decompose_char c) \<le> 1 + char_rank c"
proof (induction c rule: decompose_char.induct)
  case (1 c)
  then obtain a b where ab: "UCS2decompose c = Some (a, b)" by auto
  show ?case
  proof (cases "UCS2decompose a")
    case None
    then show ?thesis
      using decompose_char_entry [OF ab] decompose_char_atom [OF None] decompose_rank [OF ab] by simp
  next
    case (Some x)
    then show ?thesis
      using "1.IH"(1) [OF ab refl] decompose_char_entry [OF ab] decompose_rank [OF ab] by simp
  qed
qed

lemma decompose_char_length: "0 < length (decompose_char c) \<and> length (decompose_char c) \<le> 4"
proof (cases "UCS2decompose c")
  case None
  then show ?thesis by (simp add: decompose_char_atom)
next
  case (Some ab)
  then show ?thesis
    using decompose_char_rank [of c] decompose_rank [of c "fst ab" "snd ab"]
      decompose_char_entry [of c "fst ab" "snd ab"] by simp
qed

lemma decompose_string_length: "length (concat (map decompose_char cs)) \<le> 4 * length cs"
proof (induction cs)
  case (Cons c cs)
  then show ?case using decompose_char_length [of c] by simp
qed simp

lemma utf8_decode_any:
  "\<exists>d. UTF8toUCS2 (Some src) (length src) (length src + 1) = Some d \<and>
     (d = decode_failed \<or> dec_ret d = int (length (dec_dest d)) \<and> length (dec_dest d) \<le> length src)"
  using UTF8toUCS2_safe [of "length src" src "length src + 1"] by fastforce

lemma convert_utf8dec_to_utf8pre_safe: "convert_utf8dec_to_utf8pre malloc_ok src dest_len \<noteq> None"
proof -
  obtain d where d: "UTF8toUCS2 (Some src) (length src) (length src + 1) = Some d"
    "d = decode_failed \<or> dec_ret d = int (length (dec_dest d))"
    using utf8_decode_any by blast
  obtain out where o: "precompose_loop (dec_dest d) 0 [] = Some out" "length out \<le> length (dec_dest d)"
    using precompose_loop_shrinks [of "dec_dest d" 0 "[]"] by auto
  show ?thesis
    using d o by (auto simp: convert_utf8dec_to_utf8pre_def decode_failed_def Let_def split: prod.splits)
qed

lemma convert_utf8pre_to_utf8dec_safe: "convert_utf8pre_to_utf8dec malloc_ok src dest_len \<noteq> None"
proof -
  obtain d where d: "UTF8toUCS2 (Some src) (length src) (length src + 1) = Some d"
    "d = decode_failed \<or> dec_ret d = int (length (dec_dest d))"
    using utf8_decode_any by blast
  show ?thesis
    using d decompose_string_length [of "dec_dest d"]
    by (auto simp: convert_utf8pre_to_utf8dec_def decode_failed_def Let_def split: prod.splits)
qed

lemma to_mac_roman_length: "to_mac_roman cs = Some out \<Longrightarrow> length out = length cs"
  by (induction cs arbitrary: out) (auto split: if_splits)

lemma convert_utf8_to_mac_roman_safe:
  "length src < dest_len \<Longrightarrow> convert_utf8_to_mac_roman malloc_ok src dest_len dest \<noteq> None"
proof -
  assume l: "length src < dest_len"
  obtain d where d: "UTF8toUCS2 (Some src) (length src) (length src + 1) = Some d"
    "d = decode_failed \<or> dec_ret d = int (length (dec_dest d)) \<and> length (dec_dest d) \<le> length src"
    using utf8_decode_any by blast
  then show ?thesis
    using l to_mac_roman_length
    by (fastforce simp: convert_utf8_to_mac_roman_def decode_failed_def split: option.splits)
qed

lemma utf8_decodes_whole_safe: "utf8_decodes_whole malloc_ok src \<noteq> None"
  using utf8_decode_any [of src] by (auto simp: utf8_decodes_whole_def)

section \<open>Recomposition\<close>

lemma decompose_scalars:
  assumes "UCS2decompose c = Some (a, b)"
  shows "scalar16 c \<and> scalar16 a \<and> scalar16 b"
proof -
  obtain m where m: "1 \<le> m" "m < 998" "fst (table ! (build_decompose_index ! m)) = c"
      "a = snd (table ! (build_decompose_index ! m)) div 65536 mod 65536"
      "b = snd (table ! (build_decompose_index ! m)) mod 65536"
    using decompose_loop_sound [OF assms [unfolded UCS2decompose_def]] by auto
  let ?k = "build_decompose_index ! m"
  have k: "1 \<le> ?k" "?k < 998" using decompose_index_range m by auto
  then have "table ! ?k \<in> set (tl table)"
    using nth_tl [of "?k - 1" table] nth_mem [of "?k - 1" "tl table"] by simp
  then have "scalar16 (fst (table ! ?k)) \<and> scalar16 (snd (table ! ?k) div 65536)
      \<and> scalar16 (snd (table ! ?k) mod 65536)"
    using table_scalars by (simp add: list_all_iff entry_scalars_def)
  then show ?thesis using m by (auto simp: scalar16_def)
qed

lemma decompose_char_scalars: "scalar16 c \<Longrightarrow> list_all scalar16 (decompose_char c)"
proof (induction c rule: decompose_char.induct)
  case (1 c)
  show ?case
  proof (cases "UCS2decompose c")
    case None
    then show ?thesis using 1 by (simp add: decompose_char_atom)
  next
    case (Some ab)
    then obtain a b where "UCS2decompose c = Some (a, b)" by (cases ab) auto
    then show ?thesis
      using "1.IH"(1) [of "(a, b)" a b] decompose_char_entry [of c a b] decompose_scalars [of c a b]
      by simp
  qed
qed

lemma precompose_decompose_char:
  assumes "scalar16 c"
  shows "precompose_loop (decompose_char c @ cs) 0 out =
    (if cs = [] then Some (out @ [c]) else precompose_loop cs c out)"
  using assms
proof (induction c arbitrary: cs rule: decompose_char.induct)
  case (1 c)
  show ?case
  proof (cases "UCS2decompose c")
    case None
    then show ?thesis by (simp add: decompose_char_atom)
  next
    case (Some ab)
    then obtain a b where ab: "UCS2decompose c = Some (a, b)" by (cases ab) auto
    have "precompose_loop (decompose_char c @ cs) 0 out = precompose_loop (b # cs) a out"
      using "1.IH"(1) [OF ab refl, of "b # cs"] decompose_char_entry [OF ab] decompose_scalars [OF ab]
      by simp
    also have "\<dots> = (if cs = [] then Some (out @ [c]) else precompose_loop cs c out)"
      using decompose_precompose_entry [OF ab] decompose_scalars [OF ab] by (simp add: scalar16_def)
    finally show ?thesis .
  qed
qed

text \<open>A string in precomposed form: no character composes with the base of the next.\<close>

fun precomposed_form :: "char16 list \<Rightarrow> bool" where
  "precomposed_form (a # b # cs) \<longleftrightarrow>
     UCS2precompose a (hd (decompose_char b)) = Some (-1) \<and> precomposed_form (b # cs)"
| "precomposed_form _ \<longleftrightarrow> True"

lemma precompose_next:
  assumes "UCS2precompose p (hd (decompose_char c)) = Some (-1)" "p > 0"
  shows "precompose_loop (decompose_char c @ cs) p out = precompose_loop (decompose_char c @ cs) 0 (out @ [p])"
proof -
  obtain d ds where "decompose_char c = d # ds"
    using decompose_char_length [of c] by (cases "decompose_char c") auto
  then show ?thesis using assms by simp
qed

lemma precompose_decompose:
  assumes "list_all scalar16 cs" "cs \<noteq> []" "precomposed_form cs"
  shows "precompose_loop (concat (map decompose_char cs)) 0 out = Some (out @ cs)"
  using assms
proof (induction cs arbitrary: out rule: precomposed_form.induct)
  case (1 a b cs)
  define r where "r = concat (map decompose_char (b # cs))"
  have "r \<noteq> []" using decompose_char_length [of b] by (auto simp: r_def)
  then have "precompose_loop (decompose_char a @ r) 0 out = precompose_loop r a out"
    using precompose_decompose_char [of a r] "1.prems" by simp
  then have "precompose_loop (concat (map decompose_char (a # b # cs))) 0 out =
      precompose_loop (concat (map decompose_char (b # cs))) a out"
    by (simp add: r_def)
  also have "\<dots> = precompose_loop (concat (map decompose_char (b # cs))) 0 (out @ [a])"
    using precompose_next [of a b "concat (map decompose_char cs)" out] "1.prems"
    by (simp add: scalar16_def)
  finally show ?case using "1.IH" [of "out @ [a]"] "1.prems" by simp
next
  case "2_2"
  then show ?case using precompose_decompose_char [of _ "[]"] by simp
qed simp

lemma name_round_trip:
  assumes "list_all scalar16 cs" "cs \<noteq> []" "precomposed_form cs" "\<And>n. malloc_ok n"
    and "length (encode_chars (concat (map decompose_char cs))) < afp_len"
    and "length (encode_chars cs) < unix_len"
  shows "\<exists>d. convert_utf8pre_to_utf8dec malloc_ok (encode_chars cs) afp_len = Some (0, d) \<and>
    convert_utf8dec_to_utf8pre malloc_ok d unix_len = Some (0, encode_chars cs)"
proof -
  define ds where "ds = concat (map decompose_char cs)"
  have ds: "list_all scalar16 ds" "ds \<noteq> []"
    using assms(1,2) decompose_char_scalars decompose_char_length [of "hd cs"]
    by (auto simp: ds_def list_all_iff neq_Nil_conv)
  have len: "length cs \<le> length (encode_chars cs)" for cs
  proof (induction cs)
    case (Cons c cs)
    then show ?case using encode_char16_length [of c] by (cases "encode_char16 c") auto
  qed simp
  have ne: "encode_chars cs \<noteq> []" "encode_chars ds \<noteq> []"
    using assms(2) ds(2) len by (metis le_zero_eq length_0_conv)+
  have buf: "ucs2_buffer_get malloc_ok n" for n using assms(4) by (simp add: ucs2_buffer_get_def)
  have 1: "UTF8toUCS2 (Some (encode_chars cs)) (length (encode_chars cs)) (length (encode_chars cs) + 1) =
    Some \<lparr>dec_ret = int (length cs), dec_dest = cs, dec_consumed = length (encode_chars cs),
          dec_substituted = 0\<rparr>"
    using utf8_round_trip [of cs "length cs" "length (encode_chars cs) + 1" "length (encode_chars cs) + 1"]
      assms(1,2) len [of cs] by auto
  have 2: "UTF8toUCS2 (Some (encode_chars ds)) (length (encode_chars ds)) (length (encode_chars ds) + 1) =
    Some \<lparr>dec_ret = int (length ds), dec_dest = ds, dec_consumed = length (encode_chars ds),
          dec_substituted = 0\<rparr>"
    using utf8_round_trip [of ds "length ds" "length (encode_chars ds) + 1" "length (encode_chars ds) + 1"]
      ds len [of ds] by auto
  have 3: "UCS2toUTF8 (Some ds) (length ds) afp_len = (0, encode_chars ds)"
    using UCS2toUTF8_loop_fits [of ds "length ds" "[]" afp_len] ds assms(5)
    by (simp add: UCS2toUTF8_def ds_def)
  have 4: "UCS2toUTF8 (Some cs) (length cs) unix_len = (0, encode_chars cs)"
    using UCS2toUTF8_loop_fits [of cs "length cs" "[]" unix_len] assms(1,6) by (simp add: UCS2toUTF8_def)
  have 5: "precompose_loop ds 0 [] = Some cs"
    using precompose_decompose [OF assms(1-3)] by (simp add: ds_def)
  have 6: "length cs \<le> length ds" "length ds \<le> 4 * length cs"
    using precompose_loop_shrinks [of ds 0 "[]"] 5 decompose_string_length [of cs] by (auto simp: ds_def)
  have "convert_utf8pre_to_utf8dec malloc_ok (encode_chars cs) afp_len = Some (0, encode_chars ds)"
    using 1 3 6 ne buf assms(5) by (simp add: convert_utf8pre_to_utf8dec_def ds_def [symmetric] Let_def)
  moreover have "convert_utf8dec_to_utf8pre malloc_ok (encode_chars ds) unix_len = Some (0, encode_chars cs)"
    using 2 4 5 6 ne buf assms(6) by (simp add: convert_utf8dec_to_utf8pre_def)
  ultimately show ?thesis by blast
qed

section \<open>Every conversion stays inside its buffers\<close>

lemma UCS2toUTF8_loop_bound:
  "UCS2toUTF8_loop cs n dest_len out = Some out' \<Longrightarrow> length out < dest_len \<Longrightarrow> length out' < dest_len"
  by (induction cs n dest_len out rule: UCS2toUTF8_loop.induct) (auto split: if_splits)

lemma UCS2toUTF8_bound: "0 < dest_len \<Longrightarrow> length (snd (UCS2toUTF8 cs n dest_len)) < dest_len"
  using UCS2toUTF8_loop_bound [of _ n dest_len "[]"]
  by (auto simp: UCS2toUTF8_def split: option.splits)

lemma convert_utf8dec_to_utf8pre_bound:
  "convert_utf8dec_to_utf8pre malloc_ok src dest_len = Some (r, d) \<Longrightarrow> 0 < dest_len
     \<Longrightarrow> length d < dest_len"
  using UCS2toUTF8_bound [of dest_len]
  by (auto simp: convert_utf8dec_to_utf8pre_def Let_def split: if_splits option.splits prod.splits)
    (metis snd_conv)+

lemma convert_utf8pre_to_utf8dec_bound:
  "convert_utf8pre_to_utf8dec malloc_ok src dest_len = Some (r, d) \<Longrightarrow> 0 < dest_len
     \<Longrightarrow> length d < dest_len"
  using UCS2toUTF8_bound [of dest_len]
  by (auto simp: convert_utf8pre_to_utf8dec_def Let_def split: if_splits option.splits prod.splits)
    (metis snd_conv)+

lemma convert_utf8_to_mac_roman_bound:
  "convert_utf8_to_mac_roman malloc_ok src dest_len [] = Some (r, d) \<Longrightarrow> 0 < dest_len
     \<Longrightarrow> length d < dest_len"
  by (auto simp: convert_utf8_to_mac_roman_def split: if_splits option.splits)

lemma copy_identity_bound: "0 < dest_len \<Longrightarrow> length (snd (copy_identity src dest_len)) < dest_len"
  by (simp add: copy_identity_def)

lemma copy_if_supplementary_bound:
  "0 < dest_len \<Longrightarrow> length (snd (copy_if_supplementary_utf8 src dest_len [])) < dest_len"
  by (simp add: copy_if_supplementary_utf8_def copy_identity_def)

lemma unix_name_bytes_length: "length (unix_name_bytes d) \<le> length d"
  by (simp add: unix_name_bytes_def length_cstr)

lemma convert_path_to_afp_in_bounds:
  assumes "0 < dest_len"
  shows "\<exists>r d. convert_path_to_afp malloc_ok encoding src dest_len = Some (r, d) \<and> length d < dest_len"
proof -
  note facts = convert_utf8pre_to_utf8dec_safe [of malloc_ok src dest_len]
    convert_utf8_to_mac_roman_safe [of src dest_len malloc_ok "[]"]
    utf8_decodes_whole_safe [of malloc_ok src]
    convert_utf8pre_to_utf8dec_bound [of malloc_ok src dest_len]
    convert_utf8_to_mac_roman_bound [of malloc_ok src dest_len]
    copy_identity_bound [OF assms, of src] copy_if_supplementary_bound [OF assms, of src]
  obtain r d where c: "copy_if_supplementary_utf8 src dest_len [] = (r, d)" "length d < dest_len"
    using facts by (metis surj_pair snd_conv)
  obtain r' d' where i: "copy_identity src dest_len = (r', d')" "length d' < dest_len"
    using facts by (metis surj_pair snd_conv)
  obtain w where w: "utf8_decodes_whole malloc_ok src = Some w" using facts by blast
  obtain r1 d1 where u: "convert_utf8pre_to_utf8dec malloc_ok src dest_len = Some (r1, d1)"
    "length d1 < dest_len"
    using facts assms by (metis not_None_eq surj_pair)
  show ?thesis
  proof (cases "length src < dest_len")
    case False
    then show ?thesis using assms by (simp add: convert_path_to_afp_def)
  next
    case True
    then obtain r2 d2 where m: "convert_utf8_to_mac_roman malloc_ok src dest_len [] = Some (r2, d2)"
      "length d2 < dest_len"
      using facts assms by (metis not_None_eq surj_pair)
    show ?thesis
      using assms True c i w u m by (auto simp: convert_path_to_afp_def Let_def)
  qed
qed

lemma convert_mac_roman_bound:
  "convert_mac_roman_to_utf8 src dest_len = (r, Some d) \<Longrightarrow> 0 < dest_len \<Longrightarrow> length d < dest_len"
  using UCS2toUTF8_bound [of dest_len "Some (mac_roman_chars src 255)" "length (mac_roman_chars src 255)"]
  by (auto simp: convert_mac_roman_to_utf8_def Let_def split: if_splits prod.splits)

lemma convert_name_to_unix_in_bounds:
  assumes "0 < dest_len"
  shows "\<exists>r d. convert_name_to_unix malloc_ok encoding src dest_len = Some (r, d) \<and> length d < dest_len"
proof -
  have un: "length d < dest_len \<Longrightarrow> length (unix_name_bytes d) < dest_len" for d
    using unix_name_bytes_length [of d] by simp
  obtain r d where c: "copy_if_supplementary_utf8 src dest_len [] = (r, d)" "length d < dest_len"
    using copy_if_supplementary_bound [OF assms, of src] by (metis surj_pair snd_conv)
  obtain r' d' where i: "copy_identity src dest_len = (r', d')" "length d' < dest_len"
    using copy_identity_bound [OF assms, of src] by (metis surj_pair snd_conv)
  obtain r1 d1 where u: "convert_utf8dec_to_utf8pre malloc_ok src dest_len = Some (r1, d1)"
    "length d1 < dest_len"
    using convert_utf8dec_to_utf8pre_safe [of malloc_ok src dest_len]
      convert_utf8dec_to_utf8pre_bound [of malloc_ok src dest_len] assms
    by (metis not_None_eq surj_pair)
  obtain r2 m where m: "convert_mac_roman_to_utf8 src dest_len = (r2, m)" by fastforce
  then have mb: "m = Some d2 \<Longrightarrow> length d2 < dest_len" for d2
    using convert_mac_roman_bound [of src dest_len r2 d2] assms by simp
  show ?thesis
    using assms c i u m mb un
    by (cases m) (auto simp: convert_name_to_unix_def)
qed

section \<open>Mac Roman names\<close>

lemma to_mac_roman_chars:
  assumes "0 \<notin> set s" "length s \<le> room" "0xBA \<notin> set s" "0xC5 \<notin> set s" "0xE4 \<notin> set s"
  shows "to_mac_roman (mac_roman_chars s room) = Some s \<and> list_all scalar16 (mac_roman_chars s room)
    \<and> length (mac_roman_chars s room) = length s"
  using assms
proof (induction s arbitrary: room)
  case (Cons b s)
  then obtain n where n: "room = Suc n" by (cases room) auto
  have IH: "to_mac_roman (mac_roman_chars s n) = Some s \<and> list_all scalar16 (mac_roman_chars s n)
    \<and> length (mac_roman_chars s n) = length s"
    using Cons n by auto
  have pos: "0 < unat b" using Cons.prems(1) by (simp add: unat_gt_0)
  show ?case
  proof (cases "unat b < 0x80")
    case True
    then have "scalar16 (unat b)" using pos by (simp add: scalar16_def)
    then show ?thesis using True IH n Cons.prems by simp
  next
    case False
    let ?u = "mac_roman_2uni ! (unat b - 0x80)"
    have b: "unat b \<noteq> 0xBA" "unat b \<noteq> 0xC5" "unat b \<noteq> 0xE4"
      using Cons.prems by (auto simp: word_unat_eq_iff)
    have i: "unat b - 0x80 < 128" using unat_byte_bound [of b] False by linarith
    have u: "unicode_to_mac_roman ?u = unat b"
      using reverse_agrees_nth [OF reverse_tables_agree, of "unat b - 0x80"] i b False
      by (simp add: unmapped_mac_roman_def)
    have sc: "scalar16 ?u" "0x80 \<le> ?u"
      using mac_roman_scalar mac_roman_not_ascii i by (simp_all add: list_all_length)
    show ?thesis using IH n Cons.prems(1) False u sc pos by simp
  qed
qed simp

lemma mac_roman_name_round_trip:
  assumes "s \<noteq> []" "length s \<le> 255" "0 \<notin> set s" "0xBA \<notin> set s" "0xC5 \<notin> set s" "0xE4 \<notin> set s"
    and "3 * length s < unix_len" "3 * length s < afp_len" "\<And>n. malloc_ok n"
  shows "\<exists>u. convert_mac_roman_to_utf8 s unix_len = (0, Some u) \<and>
    convert_utf8_to_mac_roman malloc_ok u afp_len dest = Some (0, s)"
proof -
  define cs where "cs = mac_roman_chars s 255"
  have cs: "to_mac_roman cs = Some s" "list_all scalar16 cs" "length cs = length s" "cs \<noteq> []"
    using to_mac_roman_chars [of s 255] assms(1-6) by (auto simp: cs_def)
  have e3: "length (encode_chars xs) \<le> 3 * length xs \<and> length xs \<le> length (encode_chars xs)" for xs
  proof (induction xs)
    case (Cons c xs)
    have "1 \<le> length (encode_char16 c) \<and> length (encode_char16 c) \<le> 3"
      by (simp add: encode_char16_def Let_def)
    then show ?case using Cons by simp
  qed simp
  let ?u = "encode_chars cs"
  have e: "length ?u \<le> 3 * length s" "length s \<le> length ?u" using e3 [of cs] cs(3) by auto
  have d: "UCS2toUTF8 (Some cs) (length cs) unix_len = (0, ?u) \<and>
      UTF8toUCS2 (Some ?u) (length ?u) (length ?u + 1) =
      Some \<lparr>dec_ret = int (length cs), dec_dest = cs, dec_consumed = length ?u, dec_substituted = 0\<rparr>"
    using utf8_round_trip [of cs "length cs" unix_len "length ?u + 1"] cs e assms(7) by auto
  then have "convert_mac_roman_to_utf8 s unix_len = (0, Some ?u)"
    using assms(1,7) by (simp add: convert_mac_roman_to_utf8_def cs_def [symmetric])
  moreover have "convert_utf8_to_mac_roman malloc_ok ?u afp_len dest = Some (0, s)"
    using d cs e assms(1,8,9) by (auto simp: convert_utf8_to_mac_roman_def ucs2_buffer_get_def)
  ultimately show ?thesis by blast
qed

section \<open>Properties\<close>

text \<open>C23: names survive the trip to the server and back. A name in precomposed form (no
  character composes with the base of the next) that \<open>convert_utf8pre_to_utf8dec\<close> decomposes
  for the wire is restored byte for byte by \<open>convert_utf8dec_to_utf8pre\<close>.\<close>
theorem utf8_name_round_trip:
  assumes "list_all scalar16 cs" "cs \<noteq> []" "precomposed_form cs" "\<And>n. malloc_ok n"
    and "length (encode_chars (concat (map decompose_char cs))) < afp_len"
    and "length (encode_chars cs) < unix_len"
  shows "\<exists>d. convert_utf8pre_to_utf8dec malloc_ok (encode_chars cs) afp_len = Some (0, d) \<and>
    convert_utf8dec_to_utf8pre malloc_ok d unix_len = Some (0, encode_chars cs)"
  using assms by (rule name_round_trip)

theorem utf8_name_round_trip_witness:
  "\<exists>d. convert_utf8pre_to_utf8dec (\<lambda>_. True) (encode_chars [0xC0]) 100 = Some (0, d) \<and>
    convert_utf8dec_to_utf8pre (\<lambda>_. True) d 100 = Some (0, encode_chars [0xC0])"
proof -
  have len: "length (encode_chars cs) \<le> 3 * length cs" for cs
  proof (induction cs)
    case (Cons c cs)
    then show ?case using encode_char16_length [of c] by simp
  qed simp
  have "length (encode_chars (concat (map decompose_char [0xC0]))) < 100"
    using len [of "concat (map decompose_char [0xC0])"] decompose_string_length [of "[0xC0]"] by simp
  then show ?thesis
    using utf8_name_round_trip [of "[0xC0]" "\<lambda>_. True" 100 100] len [of "[0xC0]"]
    by (simp add: scalar16_def)
qed

text \<open>the buffers of the name conversions are large enough. A character decomposes into
  at most four, and precomposition never grows a string; so neither conversion writes outside
  the UCS-2 buffers it takes, whatever the name's bytes, and each result leaves room for its
  terminator in \<open>dest\<close>.\<close>
theorem name_conversions_in_bounds:
  assumes "0 < dest_len"
  shows "(\<exists>r d. convert_path_to_afp malloc_ok encoding src dest_len = Some (r, d) \<and> length d < dest_len)
    \<and> (\<exists>r d. convert_name_to_unix malloc_ok encoding src dest_len = Some (r, d) \<and> length d < dest_len)
    \<and> length (decompose_char c) \<le> 4"
  using convert_path_to_afp_in_bounds convert_name_to_unix_in_bounds decompose_char_length assms
  by blast

theorem name_conversions_in_bounds_witness:
  "(\<exists>r d. convert_path_to_afp (\<lambda>_. False) kFPUTF8Name [0xc3, 0xa9] 8 = Some (r, d) \<and> length d < 8)
    \<and> (\<exists>r d. convert_name_to_unix (\<lambda>_. False) kFPUTF8Name [0xc3, 0xff] 8 = Some (r, d) \<and> length d < 8)"
  using name_conversions_in_bounds [of 8 "\<lambda>_. False" kFPUTF8Name "[0xc3, 0xa9]" 0]
    name_conversions_in_bounds [of 8 "\<lambda>_. False" kFPUTF8Name "[0xc3, 0xff]" 0]
  by simp

text \<open>A Mac Roman name without the bytes 0xBA, 0xC5 and 0xE4 survives the conversion to
  UTF-8 and back; those three are the ones the reverse tables miss.\<close>
theorem mac_roman_names_round_trip:
  assumes "s \<noteq> []" "length s \<le> 255" "0 \<notin> set s" "0xBA \<notin> set s" "0xC5 \<notin> set s" "0xE4 \<notin> set s"
    and "3 * length s < unix_len" "3 * length s < afp_len" "\<And>n. malloc_ok n"
  shows "\<exists>u. convert_mac_roman_to_utf8 s unix_len = (0, Some u) \<and>
    convert_utf8_to_mac_roman malloc_ok u afp_len dest = Some (0, s)"
  using assms by (rule mac_roman_name_round_trip)

theorem mac_roman_names_round_trip_witness:
  "\<exists>u. convert_mac_roman_to_utf8 [0x63, 0x61, 0x66, 0x8e] 20 = (0, Some u) \<and>
    convert_utf8_to_mac_roman (\<lambda>_. True) u 20 [] = Some (0, [0x63, 0x61, 0x66, 0x8e])"
  by (rule mac_roman_names_round_trip) simp_all

end
