(* ===== verification/Dsi_Types.thy ===== *)
theory Dsi_Types
  imports Codepage
begin

text \<open>
  The data of a DSI session: the frame header of \<open>lib/dsi_protocol.h\<close>, the requests of
  \<open>lib/dsi.h\<close> and the part of \<open>struct afp_server\<close> (\<open>lib/afp_internal.h\<close>) the session uses.
  Requests live in a heap of addresses, because a request leaves the queue before its sender
  frees it, and the receiver holds one across a blocking read.  The type parameter \<open>'o\<close> is what
  a command's reply parser fills.
\<close>

section \<open>Constants\<close>

abbreviation (input) DSI_REQUEST :: nat where "DSI_REQUEST \<equiv> 0"
abbreviation (input) DSI_REPLY :: nat where "DSI_REPLY \<equiv> 1"
abbreviation (input) DSI_DSICloseSession :: nat where "DSI_DSICloseSession \<equiv> 1"
abbreviation (input) DSI_DSICommand :: nat where "DSI_DSICommand \<equiv> 2"
abbreviation (input) DSI_DSIGetStatus :: nat where "DSI_DSIGetStatus \<equiv> 3"
abbreviation (input) DSI_DSIOpenSession :: nat where "DSI_DSIOpenSession \<equiv> 4"
abbreviation (input) DSI_DSITickle :: nat where "DSI_DSITickle \<equiv> 5"
abbreviation (input) DSI_DSIWrite :: nat where "DSI_DSIWrite \<equiv> 6"
abbreviation (input) DSI_DSIAttention :: nat where "DSI_DSIAttention \<equiv> 8"
abbreviation (input) kServerReplayCacheSize :: nat where "kServerReplayCacheSize \<equiv> 2"
abbreviation (input) DSI_HEADER_SIZE :: nat where "DSI_HEADER_SIZE \<equiv> 16"

abbreviation (input) DSI_DONT_WAIT :: int where "DSI_DONT_WAIT \<equiv> 0"
abbreviation (input) DSI_DEFAULT_TIMEOUT :: int where "DSI_DEFAULT_TIMEOUT \<equiv> 5"
abbreviation (input) DSI_LOGIN_TIMEOUT :: int where "DSI_LOGIN_TIMEOUT \<equiv> 20"
abbreviation (input) DSI_MAX_TRANSFER_WAIT :: nat where "DSI_MAX_TRANSFER_WAIT \<equiv> 604800"
abbreviation (input) GETSTATUS_BUF_SIZE :: nat where "GETSTATUS_BUF_SIZE \<equiv> 1024"

abbreviation (input) afpRead :: nat where "afpRead \<equiv> 27"
abbreviation (input) afpReadExt :: nat where "afpReadExt \<equiv> 60"

abbreviation (input) AFP_BUFSIZE :: nat where "AFP_BUFSIZE \<equiv> 131072"

text \<open>The connection states of \<open>lib/afp_internal.h\<close>.\<close>

datatype connect_state = STATE_CONNECTED | STATE_DISCONNECTED | STATE_CONNECTING | STATE_DESTROYED

section \<open>Frame headers\<close>

record dsi_header =
  hdr_flags :: nat
  hdr_command :: nat
  hdr_requestid :: nat
  hdr_error_code :: nat
  hdr_length :: nat
  hdr_reserved :: nat

definition encode_header :: "dsi_header \<Rightarrow> bytes" where
  "encode_header h = of_nat (hdr_flags h) # of_nat (hdr_command h) # be_bytes 2 (hdr_requestid h)
     @ be_bytes 4 (hdr_error_code h) @ be_bytes 4 (hdr_length h) @ be_bytes 4 (hdr_reserved h)"

text \<open>The header a receive buffer starts with, as the code reads it through a struct pointer
  and \<open>ntohs\<close> or \<open>ntohl\<close>; the buffer holds at least 16 bytes.\<close>

definition header_of :: "bytes \<Rightarrow> dsi_header" where
  "header_of buf =
     \<lparr>hdr_flags = unat (buf ! 0), hdr_command = unat (buf ! 1),
      hdr_requestid = be_nat (take 2 (drop 2 buf)),
      hdr_error_code = be_nat (take 4 (drop 4 buf)),
      hdr_length = be_nat (take 4 (drop 8 buf)),
      hdr_reserved = be_nat (take 4 (drop 12 buf))\<rparr>"

section \<open>Requests\<close>

text \<open>\<open>struct afp_rx_buffer\<close>: the data area, its capacity and the bytes it holds.\<close>

record rx_buffer =
  rx_data :: bytes
  rx_maxsize :: nat
  rx_size :: nat
  rx_errorcode :: int

text \<open>The \<open>void *other\<close> of a request: no destination, a receive buffer, or the object the
  command's reply parser fills.\<close>

datatype 'o dest = Dest_null | Dest_rx rx_buffer | Dest_obj 'o

record 'o dsi_request =
  req_requestid :: nat
  req_subcommand :: nat
  req_other :: "'o dest"
  req_wait :: int
  req_deadline :: "int \<times> int"
  req_done_waiting :: bool
  req_ignore_replies :: bool
  req_receiving :: bool
  req_return_code :: int
  req_generation :: nat
  req_reply_handler :: "nat option"
  req_stream_buffer :: "rx_buffer option"

section \<open>The session\<close>

record dsi_stats =
  st_runt_packets :: nat
  st_rx_bytes :: nat
  st_tx_bytes :: nat
  st_requests_pending :: nat
  st_commands :: "nat \<Rightarrow> nat"

text \<open>What a status reply fills.\<close>

record status_info =
  si_machine_type :: bytes
  si_versions :: "nat list"
  si_supported_uams :: nat
  si_icon :: bytes
  si_flags :: nat
  si_server_name :: bytes
  si_signature :: bytes
  si_server_name_utf8 :: bytes
  si_server_name_printable :: bytes

text \<open>The session's fields of \<open>struct afp_server\<close>; \<open>srv_heap\<close> holds the allocated requests,
  \<open>srv_queue\<close> is the list \<open>command_requests\<close>, \<open>srv_sent\<close> the bytes written to the socket and
  \<open>srv_attentions\<close> the attention threads started, each with its generation and packet.\<close>

record 'o afp_server =
  srv_quantum :: nat
  srv_dsi_default_timeout :: int
  srv_fd :: int
  srv_stats :: dsi_stats
  srv_status :: status_info
  srv_connect_state :: connect_state
  srv_need_resume :: bool
  srv_reconnect_in_progress :: bool
  srv_suspended :: bool
  srv_dtrefnums :: "nat list"
  srv_lastrequestid :: nat
  srv_expectedrequestid :: nat
  srv_heap :: "nat \<Rightarrow> 'o dsi_request option"
  srv_queue :: "nat list"
  srv_generation :: nat
  srv_replay_cache_size :: nat
  srv_supports_replay_cache :: bool
  srv_incoming_buffer :: bytes
  srv_data_read :: nat
  srv_bufsize :: nat
  srv_discard_remaining :: nat
  srv_stream_read :: nat
  srv_rx_generation :: nat
  srv_attention_quantum :: nat
  srv_sent :: bytes
  srv_attentions :: "(nat \<times> bytes) list"

definition upd_stats :: "(dsi_stats \<Rightarrow> dsi_stats) \<Rightarrow> 'o afp_server \<Rightarrow> 'o afp_server" where
  "upd_stats f srv = srv\<lparr>srv_stats := f (srv_stats srv)\<rparr>"

definition set_request :: "nat \<Rightarrow> 'o dsi_request \<Rightarrow> 'o afp_server \<Rightarrow> 'o afp_server" where
  "set_request p r srv = srv\<lparr>srv_heap := (srv_heap srv)(p \<mapsto> r)\<rparr>"

definition upd_request ::
  "nat \<Rightarrow> ('o dsi_request \<Rightarrow> 'o dsi_request) \<Rightarrow> 'o afp_server \<Rightarrow> 'o afp_server" where
  "upd_request p f srv = (case srv_heap srv p of None \<Rightarrow> srv | Some r \<Rightarrow> set_request p (f r) srv)"

section \<open>Headers round trip\<close>

definition wf_header :: "dsi_header \<Rightarrow> bool" where
  "wf_header h \<longleftrightarrow> hdr_flags h < 256 \<and> hdr_command h < 256 \<and> hdr_requestid h < 65536
     \<and> hdr_error_code h < 2 ^ 32 \<and> hdr_length h < 2 ^ 32 \<and> hdr_reserved h < 2 ^ 32"

lemma length_encode_header [simp, wire]: "length (encode_header h) = 16"
  by (simp add: encode_header_def)

lemma header_of_encode [wire]:
  assumes "wf_header h"
  shows "header_of (encode_header h @ rest) = h"
proof -
  have s: "take k (drop n (a @ b @ c)) = b" if "length a = n" "length b = k"
    for a b c :: bytes and k n
    using that by simp
  let ?b0 = "of_nat (hdr_flags h) :: byte" and ?b1 = "of_nat (hdr_command h) :: byte"
  let ?i = "be_bytes 2 (hdr_requestid h)" and ?e = "be_bytes 4 (hdr_error_code h)"
  let ?l = "be_bytes 4 (hdr_length h)" and ?r = "be_bytes 4 (hdr_reserved h)"
  have e: "encode_header h @ rest = [?b0, ?b1] @ ?i @ ?e @ ?l @ ?r @ rest"
    by (simp add: encode_header_def)
  have "take 2 (drop 2 (encode_header h @ rest)) = ?i"
    unfolding e by (rule s) simp_all
  moreover have "take 4 (drop 4 (encode_header h @ rest)) = ?e"
    using s [of "[?b0, ?b1] @ ?i" 4 ?e 4 "?l @ ?r @ rest"] e by simp
  moreover have "take 4 (drop 8 (encode_header h @ rest)) = ?l"
    using s [of "[?b0, ?b1] @ ?i @ ?e" 8 ?l 4 "?r @ rest"] e by simp
  moreover have "take 4 (drop 12 (encode_header h @ rest)) = ?r"
    using s [of "[?b0, ?b1] @ ?i @ ?e @ ?l" 12 ?r 4 rest] e by simp
  moreover have "(encode_header h @ rest) ! 0 = ?b0" "(encode_header h @ rest) ! 1 = ?b1"
    by (simp_all add: encode_header_def)
  ultimately show ?thesis
    using assms unfolding header_of_def wf_header_def by simp
qed

lemma header_of_bounds: "wf_header (header_of buf)"
proof -
  have "be_nat (take n xs) < 256 ^ n" for n xs
  proof -
    have "256 ^ length (take n xs) \<le> (256 :: nat) ^ n"
      by (rule power_increasing) simp_all
    then show ?thesis using be_nat_bound [of "take n xs"] by (rule less_le_trans [rotated])
  qed
  from this [of 2 "drop 2 buf"] this [of 4 "drop 4 buf"] this [of 4 "drop 8 buf"]
    this [of 4 "drop 12 buf"]
  show ?thesis by (simp add: wf_header_def header_of_def)
qed

lemma header_of_take: "16 \<le> n \<Longrightarrow> header_of (take n buf) = header_of buf"
  by (simp add: header_of_def drop_take min_def)

lemma header_of_cong: "take 16 a = take 16 b \<Longrightarrow> header_of a = header_of b"
  using header_of_take [of 16 a] header_of_take [of 16 b] by simp

end
