(* ===== verification/Dsi_Queue.thy ===== *)
theory Dsi_Queue
  imports Dsi_Types
begin

text \<open>
  The request queue of a session (\<open>lib/dsi.c\<close>): request identifiers, the operations a sender,
  the receiver, a disconnect and a reconnect perform on the queue, each under the queue's mutex
  and therefore one step, and the deadlines of written requests.  \<open>queue_op\<close> lists the steps
  other threads can take while the receiver waits for bytes.
\<close>

section \<open>A fresh session\<close>

text \<open>A fresh session, as \<open>afp_server_init\<close> sets it up.\<close>

definition server_init :: "nat \<Rightarrow> 'o afp_server" where
  "server_init bufsize =
     \<lparr>srv_quantum = 0, srv_dsi_default_timeout = DSI_DEFAULT_TIMEOUT, srv_fd = -1,
      srv_stats = \<lparr>st_runt_packets = 0, st_rx_bytes = 0, st_tx_bytes = 0, st_requests_pending = 0,
                   st_commands = (\<lambda>_. 0)\<rparr>,
      srv_status = \<lparr>si_machine_type = replicate 17 0, si_versions = replicate 10 0,
                    si_supported_uams = 0, si_icon = replicate 256 0, si_flags = 0,
                    si_server_name = replicate 33 0, si_signature = replicate 16 0,
                    si_server_name_utf8 = replicate 255 0,
                    si_server_name_printable = replicate 255 0\<rparr>,
      srv_connect_state = STATE_DISCONNECTED, srv_need_resume = False,
      srv_reconnect_in_progress = False, srv_suspended = False, srv_dtrefnums = [],
      srv_lastrequestid = 0, srv_expectedrequestid = 0, srv_heap = (\<lambda>_. None), srv_queue = [],
      srv_generation = 0, srv_replay_cache_size = 0, srv_supports_replay_cache = False,
      srv_incoming_buffer = replicate bufsize 0, srv_data_read = 0, srv_bufsize = bufsize,
      srv_discard_remaining = 0, srv_stream_read = 0, srv_rx_generation = 0,
      srv_attention_quantum = 1024, srv_sent = [], srv_attentions = []\<rparr>"

section \<open>Identifiers\<close>

definition setup_header :: "'o afp_server \<Rightarrow> nat \<Rightarrow> dsi_header \<times> 'o afp_server" where
  "setup_header srv command =
     (let lastrequestid =
        (if srv_lastrequestid srv = 65535 then (if \<not> srv_supports_replay_cache srv then 0 else 1)
         else srv_lastrequestid srv + 1)
      in (\<lparr>hdr_flags = 0, hdr_command = command, hdr_requestid = lastrequestid,
           hdr_error_code = 0, hdr_length = 0, hdr_reserved = 0\<rparr>,
          srv\<lparr>srv_lastrequestid := lastrequestid, srv_expectedrequestid := lastrequestid\<rparr>))"

section \<open>Queue operations\<close>

text \<open>The request \<open>afpc_dsi_send_with_reply\<close> allocates, and its place at the queue's end.\<close>

definition new_request ::
  "'o afp_server \<Rightarrow> nat \<Rightarrow> int \<Rightarrow> nat \<Rightarrow> 'o dest \<Rightarrow> nat option \<Rightarrow> rx_buffer option \<Rightarrow> 'o dsi_request" where
  "new_request srv requestid wait subcommand oth handler stream =
     \<lparr>req_requestid = requestid, req_subcommand = subcommand, req_other = oth, req_wait = wait,
      req_deadline = (0, 0), req_done_waiting = False, req_ignore_replies = False,
      req_receiving = False, req_return_code = 0, req_generation = srv_generation srv,
      req_reply_handler = handler, req_stream_buffer = stream\<rparr>"

definition enqueue_request :: "nat \<Rightarrow> 'o dsi_request \<Rightarrow> 'o afp_server \<Rightarrow> 'o afp_server" where
  "enqueue_request p r srv =
     upd_stats (\<lambda>s. s\<lparr>st_requests_pending := u64 (st_requests_pending s + 1)\<rparr>)
       ((set_request p r srv)\<lparr>srv_queue := srv_queue srv @ [p]\<rparr>)"

definition count_removed :: "'o afp_server \<Rightarrow> 'o afp_server" where
  "count_removed = upd_stats (\<lambda>s. s\<lparr>st_requests_pending := size_t_sub (st_requests_pending s) 1\<rparr>)"

definition free_request :: "nat \<Rightarrow> 'o afp_server \<Rightarrow> 'o afp_server" where
  "free_request p srv = srv\<lparr>srv_heap := (srv_heap srv)(p := None)\<rparr>"

text \<open>\<open>afpc_dsi_remove_from_request_queue\<close>; \<^term>\<open>None\<close> while the receiver holds the request,
  which the sender waits for.\<close>

definition remove_from_request_queue ::
  "nat \<Rightarrow> 'o afp_server \<Rightarrow> (int \<times> 'o afp_server) option" where
  "remove_from_request_queue p srv =
     (case srv_heap srv p of
        None \<Rightarrow> None
      | Some r \<Rightarrow>
          if req_receiving r then None
          else if p \<in> set (srv_queue srv) then
            Some (0, free_request p (count_removed (srv\<lparr>srv_queue := remove1 p (srv_queue srv)\<rparr>)))
          else if req_ignore_replies r then Some (0, free_request p srv)
          else Some (-1, srv))"

text \<open>Wakes a waiting request with a result; one already answered keeps its own.\<close>

definition wake_request :: "int \<Rightarrow> 'o dsi_request \<Rightarrow> 'o dsi_request" where
  "wake_request err r =
     (if req_done_waiting r then r else r\<lparr>req_return_code := err, req_done_waiting := True\<rparr>)"

fun flush_loop :: "nat list \<Rightarrow> 'o afp_server \<Rightarrow> 'o afp_server" where
  "flush_loop [] srv = srv"
| "flush_loop (p # ps) srv =
     flush_loop ps (upd_request p (\<lambda>r. wake_request (- EIO) (r\<lparr>req_ignore_replies := True\<rparr>))
       (count_removed srv))"

definition flush_request_queue :: "'o afp_server \<Rightarrow> 'o afp_server" where
  "flush_request_queue srv = flush_loop (srv_queue srv) (srv\<lparr>srv_queue := []\<rparr>)"

fun fail_loop :: "int \<Rightarrow> nat list \<Rightarrow> 'o afp_server \<Rightarrow> 'o afp_server" where
  "fail_loop err [] srv = srv"
| "fail_loop err (p # ps) srv = fail_loop err ps (upd_request p (wake_request err) srv)"

definition fail_request_queue :: "'o afp_server \<Rightarrow> int \<Rightarrow> 'o afp_server" where
  "fail_request_queue srv err = fail_loop err (srv_queue srv) srv"

text \<open>\<open>afpc_dsi_find_request\<close>: the first queued request that waits for the id, held.\<close>

definition awaits :: "nat \<Rightarrow> 'o dsi_request \<Rightarrow> bool" where
  "awaits request_id r \<longleftrightarrow>
     \<not> req_ignore_replies r \<and> \<not> req_done_waiting r \<and> request_id = req_requestid r"

fun first_awaiting :: "(nat \<Rightarrow> 'o dsi_request option) \<Rightarrow> nat \<Rightarrow> nat list \<Rightarrow> nat option" where
  "first_awaiting h request_id [] = None"
| "first_awaiting h request_id (p # ps) =
     (case h p of
        None \<Rightarrow> first_awaiting h request_id ps
      | Some r \<Rightarrow> if awaits request_id r then Some p else first_awaiting h request_id ps)"

definition find_request :: "'o afp_server \<Rightarrow> nat \<Rightarrow> nat option \<times> 'o afp_server" where
  "find_request srv request_id =
     (case first_awaiting (srv_heap srv) request_id (srv_queue srv) of
        None \<Rightarrow> (None, srv)
      | Some p \<Rightarrow> (Some p, upd_request p (\<lambda>r. r\<lparr>req_receiving := True\<rparr>) srv))"

definition release_request :: "nat \<Rightarrow> 'o afp_server \<Rightarrow> 'o afp_server" where
  "release_request p = upd_request p (\<lambda>r. r\<lparr>req_receiving := False\<rparr>)"

text \<open>The receiver's answer to a request, at the label \<open>out\<close> of \<open>afpc_dsi_recv_frame\<close>.\<close>

definition answer_request :: "int \<Rightarrow> 'o dsi_request \<Rightarrow> 'o dsi_request" where
  "answer_request result r =
     (if req_done_waiting r then r
      else r\<lparr>req_return_code := result, req_wait := 0, req_done_waiting := True\<rparr>)"

section \<open>Deadlines\<close>

definition transfer_wait :: "'o afp_server \<Rightarrow> nat \<Rightarrow> nat \<Rightarrow> int" where
  "transfer_wait srv n bytes_per_second =
     srv_dsi_default_timeout srv + int (min (n div bytes_per_second) DSI_MAX_TRANSFER_WAIT)"

fun waits_ahead :: "(nat \<Rightarrow> 'o dsi_request option) \<Rightarrow> nat list \<Rightarrow> int" where
  "waits_ahead h [] = 0"
| "waits_ahead h (p # ps) =
     (case h p of
        None \<Rightarrow> 0
      | Some r \<Rightarrow> if fst (req_deadline r) \<noteq> 0 then req_wait r else 0) + waits_ahead h ps"

definition set_deadline :: "int \<times> int \<Rightarrow> nat \<Rightarrow> 'o afp_server \<Rightarrow> 'o afp_server" where
  "set_deadline now p srv =
     upd_request p (\<lambda>r. r\<lparr>req_deadline :=
       (fst now + (req_wait r + waits_ahead (srv_heap srv) (srv_queue srv)), snd now * 1000)\<rparr>) srv"

section \<open>Ends and starts of a connection\<close>

text \<open>\<open>loop_disconnect\<close> of \<open>lib/loop.c\<close>.\<close>

definition loop_disconnect :: "'o afp_server \<Rightarrow> 'o afp_server" where
  "loop_disconnect srv =
     (let old = srv_fd srv;
          s1 = srv\<lparr>srv_fd := -1\<rparr>;
          s2 = (if old \<ge> 0 then s1\<lparr>srv_dtrefnums := map (\<lambda>_. 0) (srv_dtrefnums s1)\<rparr> else s1);
          s3 = fail_request_queue s2 (- EIO);
          s4 = (if srv_connect_state s3 = STATE_CONNECTED \<or> srv_connect_state s3 = STATE_CONNECTING
                then s3\<lparr>srv_connect_state := STATE_DISCONNECTED\<rparr> else s3)
      in s4\<lparr>srv_need_resume := True\<rparr>)"

text \<open>\<open>afp_server_connect\<close> of \<open>lib/afp.c\<close> up to its status exchange: the old descriptor is
  taken, the next generation starts, and the socket the parameter stands for, if one connects,
  is published unless the server was removed.\<close>

definition server_connect :: "int option \<Rightarrow> 'o afp_server \<Rightarrow> 'o afp_server" where
  "server_connect sock srv =
     (let s1 = srv\<lparr>srv_fd := -1, srv_generation := u32 (srv_generation srv + 1)\<rparr> in
      case sock of
        None \<Rightarrow> s1
      | Some newfd \<Rightarrow>
          let s2 = (if \<not> srv_supports_replay_cache s1 then s1\<lparr>srv_lastrequestid := 0\<rparr> else s1) in
          if srv_connect_state s2 = STATE_DESTROYED then s2
          else s2\<lparr>srv_fd := newfd, srv_connect_state := STATE_CONNECTING\<rparr>)"

section \<open>Steps of other threads\<close>

datatype 'o queue_op =
    Op_enqueue nat nat int nat "'o dest" "nat option" "rx_buffer option"
  | Op_deadline "int \<times> int" nat
  | Op_remove nat
  | Op_flush
  | Op_fail int
  | Op_disconnect
  | Op_connect "int option"
  | Op_header nat

text \<open>A step that is not enabled, an allocation at an address in use or a removal the receiver
  holds back, leaves the state alone.\<close>

definition apply_op :: "'o queue_op \<Rightarrow> 'o afp_server \<Rightarrow> 'o afp_server" where
  "apply_op op srv =
     (case op of
        Op_enqueue p requestid wait subcommand oth handler stream \<Rightarrow>
          if srv_heap srv p = None
          then enqueue_request p (new_request srv requestid wait subcommand oth handler stream) srv
          else srv
      | Op_deadline now p \<Rightarrow> set_deadline now p srv
      | Op_remove p \<Rightarrow>
          (case remove_from_request_queue p srv of None \<Rightarrow> srv | Some (_, srv') \<Rightarrow> srv')
      | Op_flush \<Rightarrow> flush_request_queue srv
      | Op_fail err \<Rightarrow> fail_request_queue srv err
      | Op_disconnect \<Rightarrow> loop_disconnect srv
      | Op_connect sock \<Rightarrow> server_connect sock srv
      | Op_header command \<Rightarrow> snd (setup_header srv command))"

definition apply_ops :: "'o queue_op list \<Rightarrow> 'o afp_server \<Rightarrow> 'o afp_server" where
  "apply_ops ops srv = foldl (\<lambda>s op. apply_op op s) srv ops"

lemma apply_ops_simps [simp]:
  "apply_ops [] srv = srv" "apply_ops (op # ops) srv = apply_ops ops (apply_op op srv)"
  by (simp_all add: apply_ops_def)

section \<open>The queue's invariant\<close>

text \<open>Queued addresses are distinct and allocated, a request is queued exactly when no flush
  took it off, and the statistics count the queue.\<close>

definition queue_inv :: "'o afp_server \<Rightarrow> bool" where
  "queue_inv srv \<longleftrightarrow>
     distinct (srv_queue srv) \<and> (\<forall>p \<in> set (srv_queue srv). srv_heap srv p \<noteq> None)
     \<and> (\<forall>p r. srv_heap srv p = Some r \<longrightarrow> (p \<in> set (srv_queue srv) \<longleftrightarrow> \<not> req_ignore_replies r))
     \<and> st_requests_pending (srv_stats srv) = u64 (length (srv_queue srv))"

text \<open>What an operation on one request leaves of it: everything but its result, its wait, its
  deadline and its marks.\<close>

definition same_request :: "'o dsi_request \<Rightarrow> 'o dsi_request \<Rightarrow> bool" where
  "same_request r r' \<longleftrightarrow>
     req_requestid r' = req_requestid r \<and> req_subcommand r' = req_subcommand r
     \<and> req_other r' = req_other r \<and> req_stream_buffer r' = req_stream_buffer r
     \<and> req_generation r' = req_generation r \<and> req_reply_handler r' = req_reply_handler r
     \<and> req_receiving r' = req_receiving r
     \<and> (req_done_waiting r \<longrightarrow> req_done_waiting r' \<and> req_return_code r' = req_return_code r)"

text \<open>The rely condition of the receiver: a step of another thread keeps the receive state, the
  queue's invariant, the result of every answered request it does not free, and the request the
  receiver holds.\<close>

definition rely :: "'o afp_server \<Rightarrow> 'o afp_server \<Rightarrow> bool" where
  "rely s s' \<longleftrightarrow>
     srv_incoming_buffer s' = srv_incoming_buffer s \<and> srv_data_read s' = srv_data_read s
     \<and> srv_bufsize s' = srv_bufsize s \<and> srv_discard_remaining s' = srv_discard_remaining s
     \<and> srv_stream_read s' = srv_stream_read s \<and> srv_rx_generation s' = srv_rx_generation s
     \<and> srv_quantum s' = srv_quantum s
     \<and> (queue_inv s \<longrightarrow> queue_inv s')
     \<and> (\<forall>p r. srv_heap s p = Some r \<longrightarrow>
          (srv_heap s' p = None \<and> \<not> req_receiving r)
          \<or> (\<exists>r'. srv_heap s' p = Some r' \<and> same_request r r'))"

lemma same_request_refl [simp]: "same_request r r"
  by (simp add: same_request_def)

lemma same_request_trans: "same_request a b \<Longrightarrow> same_request b c \<Longrightarrow> same_request a c"
  by (simp add: same_request_def)

lemma same_request_wake [simp]: "same_request r (wake_request e r)"
  by (simp add: same_request_def wake_request_def)

lemma rely_refl [simp]: "rely s s"
  by (simp add: rely_def)

text \<open>A step sequence of another thread may free a request and allocate its address anew; the
  relation over sequences therefore follows the requests the receiver holds.\<close>

definition rely_held :: "'o afp_server \<Rightarrow> 'o afp_server \<Rightarrow> bool" where
  "rely_held s s' \<longleftrightarrow>
     srv_incoming_buffer s' = srv_incoming_buffer s \<and> srv_data_read s' = srv_data_read s
     \<and> srv_bufsize s' = srv_bufsize s \<and> srv_discard_remaining s' = srv_discard_remaining s
     \<and> srv_stream_read s' = srv_stream_read s \<and> srv_rx_generation s' = srv_rx_generation s
     \<and> srv_quantum s' = srv_quantum s
     \<and> (queue_inv s \<longrightarrow> queue_inv s')
     \<and> (\<forall>p r. srv_heap s p = Some r \<longrightarrow> req_receiving r \<longrightarrow>
          (\<exists>r'. srv_heap s' p = Some r' \<and> same_request r r'))"

lemma rely_imp_held: "rely s s' \<Longrightarrow> rely_held s s'"
  by (auto simp: rely_def rely_held_def)

lemma rely_held_refl [simp]: "rely_held s s"
  by (simp add: rely_held_def)

lemma rely_held_trans:
  assumes ab: "rely_held a b" and bc: "rely_held b c"
  shows "rely_held a c"
proof -
  have "\<exists>r2. srv_heap c p = Some r2 \<and> same_request r r2"
    if r: "srv_heap a p = Some r" "req_receiving r" for p r
  proof -
    obtain r1 where r1: "srv_heap b p = Some r1" "same_request r r1"
      using ab r unfolding rely_held_def by blast
    then have "req_receiving r1" using r by (simp add: same_request_def)
    then obtain r2 where "srv_heap c p = Some r2" "same_request r1 r2"
      using bc r1 unfolding rely_held_def by blast
    then show ?thesis using r1 same_request_trans by blast
  qed
  then show ?thesis using ab bc unfolding rely_held_def by simp
qed

text \<open>The contract between the receiver and every other thread of the process.\<close>

locale other_threads =
  fixes step :: "'op \<Rightarrow> 'o afp_server \<Rightarrow> 'o afp_server"
  assumes step_rely: "rely s (step op s)"
begin

lemma run_held: "rely_held s (foldl (\<lambda>s op. step op s) s ops)"
proof (induction ops arbitrary: s)
  case (Cons op ops)
  then show ?case
    using rely_held_trans [OF rely_imp_held [OF step_rely [of s op]]] by auto
qed simp

lemma answered_kept:
  assumes "srv_heap s p = Some r" "req_done_waiting r" "srv_heap (step op s) p = Some r'"
  shows "req_done_waiting r' \<and> req_return_code r' = req_return_code r"
  using step_rely [of s op] assms unfolding rely_def same_request_def by fastforce

lemma run_queue_inv: "queue_inv s \<Longrightarrow> queue_inv (foldl (\<lambda>s op. step op s) s ops)"
  using run_held [of s ops] by (auto simp: rely_held_def)

end

section \<open>Every operation meets the contract\<close>

lemma size_t_sub_u64_Suc: "size_t_sub (u64 (Suc n)) 1 = u64 n"
proof (cases "u64 (Suc n) = 0")
  case True
  then have "(n + 1) mod 18446744073709551616 = 0" by (simp add: u64_def)
  then have "n mod 18446744073709551616 = 18446744073709551615"
    by (simp add: mod_Suc split: if_splits)
  then show ?thesis using True by (simp add: size_t_sub_def u64_def)
next
  case False
  then have "(n + 1) mod 18446744073709551616 = n mod 18446744073709551616 + 1"
    by (simp add: u64_def mod_Suc split: if_splits)
  then show ?thesis by (simp add: size_t_sub_def u64_def)
qed

lemma u64_Suc_u64: "u64 (Suc (u64 n)) = u64 (Suc n)"
  by (simp add: u64_def mod_Suc_eq)

lemma upd_request_simps [simp]:
  "srv_queue (upd_request p f s) = srv_queue s" "srv_stats (upd_request p f s) = srv_stats s"
  "srv_incoming_buffer (upd_request p f s) = srv_incoming_buffer s"
  "srv_data_read (upd_request p f s) = srv_data_read s" "srv_bufsize (upd_request p f s) = srv_bufsize s"
  "srv_discard_remaining (upd_request p f s) = srv_discard_remaining s"
  "srv_stream_read (upd_request p f s) = srv_stream_read s"
  "srv_rx_generation (upd_request p f s) = srv_rx_generation s" "srv_quantum (upd_request p f s) = srv_quantum s"
  "srv_generation (upd_request p f s) = srv_generation s" "srv_fd (upd_request p f s) = srv_fd s"
  "srv_connect_state (upd_request p f s) = srv_connect_state s"
  by (simp_all add: upd_request_def set_request_def split: option.splits)

lemma upd_request_heap:
  "srv_heap (upd_request p f s) q = (if q = p then map_option f (srv_heap s p) else srv_heap s q)"
  by (simp add: upd_request_def set_request_def split: option.splits)

lemma count_removed_simps [simp]:
  "srv_queue (count_removed s) = srv_queue s" "srv_heap (count_removed s) = srv_heap s"
  "srv_incoming_buffer (count_removed s) = srv_incoming_buffer s"
  "srv_data_read (count_removed s) = srv_data_read s" "srv_bufsize (count_removed s) = srv_bufsize s"
  "srv_discard_remaining (count_removed s) = srv_discard_remaining s"
  "srv_stream_read (count_removed s) = srv_stream_read s"
  "srv_rx_generation (count_removed s) = srv_rx_generation s" "srv_quantum (count_removed s) = srv_quantum s"
  "srv_generation (count_removed s) = srv_generation s"
  by (simp_all add: count_removed_def upd_stats_def)

lemma queue_inv_upd_request:
  assumes "queue_inv s" "\<And>r. req_ignore_replies (f r) = req_ignore_replies r"
  shows "queue_inv (upd_request p f s)"
  using assms unfolding queue_inv_def
  by (auto simp: upd_request_heap split: if_splits)

lemma rely_upd_request:
  assumes "\<And>r. same_request r (f r)" "\<And>r. req_ignore_replies (f r) = req_ignore_replies r"
  shows "rely s (upd_request p f s)"
  using queue_inv_upd_request [of s f p] assms
  by (auto simp: rely_def upd_request_heap)

lemma wake_request_ignore [simp]: "req_ignore_replies (wake_request e r) = req_ignore_replies r"
  by (simp add: wake_request_def)

text \<open>The loops update each request of a list of distinct addresses once.\<close>

lemma fail_loop_heap:
  "distinct ps \<Longrightarrow> srv_heap (fail_loop e ps s) q =
     (if q \<in> set ps then map_option (wake_request e) (srv_heap s q) else srv_heap s q)"
  by (induction ps arbitrary: s) (auto simp: upd_request_heap)

lemma fail_loop_simps [simp]:
  "srv_queue (fail_loop e ps s) = srv_queue s" "srv_stats (fail_loop e ps s) = srv_stats s"
  "srv_incoming_buffer (fail_loop e ps s) = srv_incoming_buffer s"
  "srv_data_read (fail_loop e ps s) = srv_data_read s" "srv_bufsize (fail_loop e ps s) = srv_bufsize s"
  "srv_discard_remaining (fail_loop e ps s) = srv_discard_remaining s"
  "srv_stream_read (fail_loop e ps s) = srv_stream_read s"
  "srv_rx_generation (fail_loop e ps s) = srv_rx_generation s" "srv_quantum (fail_loop e ps s) = srv_quantum s"
  "srv_generation (fail_loop e ps s) = srv_generation s" "srv_fd (fail_loop e ps s) = srv_fd s"
  "srv_connect_state (fail_loop e ps s) = srv_connect_state s"
  by (induction ps arbitrary: s) simp_all

lemma fail_loop_rely_one:
  "queue_inv s \<longrightarrow> queue_inv (fail_loop e ps s)"
  "srv_heap s p = Some r \<Longrightarrow> \<exists>r'. srv_heap (fail_loop e ps s) p = Some r' \<and> same_request r r'"
proof -
  show "queue_inv s \<longrightarrow> queue_inv (fail_loop e ps s)"
    by (induction ps arbitrary: s) (simp_all add: queue_inv_upd_request)
  show "srv_heap s p = Some r \<Longrightarrow> \<exists>r'. srv_heap (fail_loop e ps s) p = Some r' \<and> same_request r r'"
  proof (induction ps arbitrary: s r)
    case (Cons q ps)
    obtain r1 where r1: "srv_heap (upd_request q (wake_request e) s) p = Some r1" "same_request r r1"
      using Cons.prems by (cases "p = q") (auto simp: upd_request_heap)
    then show ?case using Cons.IH [OF r1(1)] same_request_trans by fastforce
  qed simp
qed

lemma rely_fail: "rely s (fail_request_queue s e)"
  unfolding rely_def fail_request_queue_def
  using fail_loop_rely_one(1) fail_loop_rely_one(2) [of s _ _ e "srv_queue s"] by simp

lemma flush_loop_simps [simp]:
  "srv_queue (flush_loop ps s) = srv_queue s"
  "srv_incoming_buffer (flush_loop ps s) = srv_incoming_buffer s"
  "srv_data_read (flush_loop ps s) = srv_data_read s" "srv_bufsize (flush_loop ps s) = srv_bufsize s"
  "srv_discard_remaining (flush_loop ps s) = srv_discard_remaining s"
  "srv_stream_read (flush_loop ps s) = srv_stream_read s"
  "srv_rx_generation (flush_loop ps s) = srv_rx_generation s" "srv_quantum (flush_loop ps s) = srv_quantum s"
  "srv_generation (flush_loop ps s) = srv_generation s"
  by (induction ps arbitrary: s) simp_all

definition flushed :: "'o dsi_request \<Rightarrow> 'o dsi_request" where
  "flushed r = wake_request (- EIO) (r\<lparr>req_ignore_replies := True\<rparr>)"

lemma same_request_flushed [simp]: "same_request r (flushed r)"
  by (simp add: same_request_def wake_request_def flushed_def)

lemma flushed_ignored [simp]: "req_ignore_replies (flushed r)"
  by (simp add: flushed_def)

lemma flush_loop_heap:
  "distinct ps \<Longrightarrow> srv_heap (flush_loop ps s) q =
     (if q \<in> set ps then map_option flushed (srv_heap s q) else srv_heap s q)"
  by (induction ps arbitrary: s) (auto simp: upd_request_heap flushed_def [abs_def])

lemma flush_loop_heap_one:
  "srv_heap s p = Some r \<Longrightarrow> \<exists>r'. srv_heap (flush_loop ps s) p = Some r' \<and> same_request r r'"
proof (induction ps arbitrary: s r)
  case (Cons q ps)
  let ?f = "\<lambda>r. wake_request (- EIO) (r\<lparr>req_ignore_replies := True\<rparr>)"
  obtain r1 where r1: "srv_heap (upd_request q ?f (count_removed s)) p = Some r1" "same_request r r1"
    using Cons.prems same_request_flushed [of r]
    by (cases "p = q") (auto simp: upd_request_heap flushed_def)
  then show ?case using Cons.IH [OF r1(1)] same_request_trans by fastforce
qed simp

lemma flush_loop_pending:
  "st_requests_pending (srv_stats s) = u64 (n + length ps)
     \<Longrightarrow> st_requests_pending (srv_stats (flush_loop ps s)) = u64 n"
proof (induction ps arbitrary: s)
  case (Cons p ps)
  have "st_requests_pending (srv_stats (count_removed s)) = u64 (n + length ps)"
    using Cons.prems size_t_sub_u64_Suc [of "n + length ps"] by (simp add: count_removed_def upd_stats_def)
  then show ?case using Cons.IH by simp
qed simp

lemma queue_inv_flush:
  assumes "queue_inv s"
  shows "queue_inv (flush_request_queue s)"
proof -
  note q = assms [unfolded queue_inv_def]
  have "st_requests_pending (srv_stats (flush_request_queue s)) = u64 0"
    unfolding flush_request_queue_def by (rule flush_loop_pending) (use q in simp)
  moreover have "req_ignore_replies r" if "srv_heap (flush_request_queue s) p = Some r" for p r
    using that q by (auto simp: flush_request_queue_def flush_loop_heap split: if_splits)
  ultimately show ?thesis by (auto simp: queue_inv_def flush_request_queue_def)
qed

lemma rely_flush: "rely s (flush_request_queue s)"
  unfolding rely_def
  using queue_inv_flush [of s] flush_loop_heap_one [of "s\<lparr>srv_queue := []\<rparr>" _ _ "srv_queue s"]
  by (simp add: flush_request_queue_def)

lemma rely_deadline: "rely s (set_deadline now p s)"
  unfolding set_deadline_def by (rule rely_upd_request) (simp_all add: same_request_def)

lemma queue_inv_enqueue:
  assumes "queue_inv s" "srv_heap s p = None" "\<not> req_ignore_replies r"
  shows "queue_inv (enqueue_request p r s)"
proof -
  have "p \<notin> set (srv_queue s)" using assms unfolding queue_inv_def by blast
  then show ?thesis
    using assms u64_Suc_u64 [of "length (srv_queue s)"] unfolding queue_inv_def
    by (auto simp: enqueue_request_def upd_stats_def set_request_def)
qed

lemma rely_enqueue:
  assumes "srv_heap s p = None" "\<not> req_ignore_replies r"
  shows "rely s (enqueue_request p r s)"
  using assms queue_inv_enqueue [of s p r]
  by (auto simp: rely_def enqueue_request_def upd_stats_def set_request_def)

lemma queue_inv_remove:
  assumes "queue_inv s" "remove_from_request_queue p s = Some (rc, s')"
  shows "queue_inv s' \<and> rc = 0"
proof -
  note q = assms(1) [unfolded queue_inv_def]
  obtain r where r: "srv_heap s p = Some r" "\<not> req_receiving r"
    using assms(2) by (auto simp: remove_from_request_queue_def split: option.splits if_splits)
  show ?thesis
  proof (cases "p \<in> set (srv_queue s)")
    case True
    then have s': "s' = free_request p (count_removed (s\<lparr>srv_queue := remove1 p (srv_queue s)\<rparr>))"
      and rc: "rc = 0"
      using assms(2) r by (auto simp: remove_from_request_queue_def)
    have l: "length (srv_queue s) = Suc (length (remove1 p (srv_queue s)))"
      using True by (simp add: length_remove1) (metis Suc_pred length_pos_if_in_set)
    then have "size_t_sub (st_requests_pending (srv_stats s)) 1 = u64 (length (remove1 p (srv_queue s)))"
      using q size_t_sub_u64_Suc by simp
    then show ?thesis
      using q rc True by (auto simp: s' queue_inv_def free_request_def count_removed_def upd_stats_def split: if_splits)
  next
    case False
    then have "req_ignore_replies r" using q r by blast
    then show ?thesis
      using False assms(2) r q
      by (auto simp: remove_from_request_queue_def queue_inv_def free_request_def split: if_splits)
  qed
qed

lemma rely_remove:
  assumes "remove_from_request_queue p s = Some (rc, s')"
  shows "rely s s'"
proof -
  obtain r where r: "srv_heap s p = Some r" "\<not> req_receiving r"
    using assms by (auto simp: remove_from_request_queue_def split: option.splits if_splits)
  have "queue_inv s \<longrightarrow> queue_inv s'" using queue_inv_remove assms by blast
  moreover have "s' = s \<or> s' = free_request p s
      \<or> s' = free_request p (count_removed (s\<lparr>srv_queue := remove1 p (srv_queue s)\<rparr>))"
    using assms r by (auto simp: remove_from_request_queue_def split: if_splits)
  ultimately show ?thesis
    using r by (auto simp: rely_def free_request_def split: if_splits)
qed

text \<open>Fields outside the receive state and the queue are free to change around a step.\<close>

definition same_session :: "'o afp_server \<Rightarrow> 'o afp_server \<Rightarrow> bool" where
  "same_session s s' \<longleftrightarrow>
     srv_incoming_buffer s' = srv_incoming_buffer s \<and> srv_data_read s' = srv_data_read s
     \<and> srv_bufsize s' = srv_bufsize s \<and> srv_discard_remaining s' = srv_discard_remaining s
     \<and> srv_stream_read s' = srv_stream_read s \<and> srv_rx_generation s' = srv_rx_generation s
     \<and> srv_quantum s' = srv_quantum s \<and> srv_heap s' = srv_heap s \<and> srv_queue s' = srv_queue s
     \<and> srv_stats s' = srv_stats s"

lemma same_session_queue_inv: "same_session s s' \<Longrightarrow> queue_inv s' = queue_inv s"
  by (simp add: same_session_def queue_inv_def)

lemma rely_same_session:
  assumes "same_session s t" "rely t t'" "same_session t' s'"
  shows "rely s s'"
  using assms same_session_queue_inv [OF assms(1)] same_session_queue_inv [OF assms(3)]
  by (simp add: rely_def same_session_def)

lemma rely_disconnect: "rely s (loop_disconnect s)"
proof -
  let ?t = "if srv_fd s \<ge> 0 then s\<lparr>srv_fd := -1, srv_dtrefnums := map (\<lambda>_. 0) (srv_dtrefnums s)\<rparr>
    else s\<lparr>srv_fd := -1\<rparr>"
  show ?thesis
    by (rule rely_same_session [OF _ rely_fail [of ?t "- EIO"]])
      (simp_all add: same_session_def loop_disconnect_def Let_def)
qed

lemma rely_connect: "rely s (server_connect sock s)"
  by (rule rely_same_session [OF _ rely_refl [of s]])
    (simp_all add: same_session_def server_connect_def Let_def split: option.splits)

lemma rely_header: "rely s (snd (setup_header s c))"
  by (rule rely_same_session [OF _ rely_refl [of s]])
    (simp_all add: same_session_def setup_header_def Let_def)

lemma rely_op: "rely s (apply_op op s)"
proof (cases op)
  case (Op_enqueue p i w sc oth h st)
  then show ?thesis
    using rely_enqueue [of s p "new_request s i w sc oth h st"] by (simp add: apply_op_def new_request_def)
next
  case (Op_remove p)
  then show ?thesis
    using rely_remove [of p s] by (auto simp: apply_op_def split: option.splits)
qed (simp_all add: apply_op_def rely_deadline rely_flush rely_fail rely_disconnect rely_connect rely_header)

interpretation queue_ops: other_threads apply_op
  by unfold_locales (rule rely_op)

lemma apply_ops_held: "rely_held s (apply_ops ops s)"
  unfolding apply_ops_def by (rule queue_ops.run_held)

section \<open>Request identifiers\<close>

fun header_ids :: "nat \<Rightarrow> 'o afp_server \<Rightarrow> nat list" where
  "header_ids 0 s = []"
| "header_ids (Suc n) s =
     (let (h, s') = setup_header s DSI_DSICommand in hdr_requestid h # header_ids n s')"

lemma header_ids_replay:
  "srv_supports_replay_cache s \<Longrightarrow> srv_lastrequestid s \<le> 65535 \<Longrightarrow>
     header_ids n s = map (\<lambda>k. (srv_lastrequestid s + k) mod 65535 + 1) [0..<n]"
proof (induction n arbitrary: s)
  case (Suc n)
  define l where "l = (if srv_lastrequestid s = 65535 then 1 else srv_lastrequestid s + 1)"
  let ?s' = "s\<lparr>srv_lastrequestid := l, srv_expectedrequestid := l\<rparr>"
  have s: "header_ids (Suc n) s = l # header_ids n ?s'"
    using Suc.prems by (simp add: setup_header_def Let_def l_def)
  have l: "l \<le> 65535" "l = srv_lastrequestid s mod 65535 + 1"
    using Suc.prems by (auto simp: l_def)
  have IH: "header_ids n ?s' = map (\<lambda>k. (l + k) mod 65535 + 1) [0..<n]"
    using Suc.IH [of ?s'] Suc.prems l by simp
  have e: "(l + k) mod 65535 = (srv_lastrequestid s + Suc k) mod 65535" for k
    unfolding l(2) by (metis add.commute add_Suc_right mod_add_right_eq plus_1_eq_Suc add.assoc)
  have "[0..<Suc n] = 0 # map Suc [0..<n]" by (rule upt_conv_Cons [THEN trans]) (simp_all add: map_Suc_upt)
  then show ?case unfolding s IH using l(2) e by (simp add: comp_def)
qed simp

lemma mod_shift_inject:
  fixes a x y m :: nat
  assumes "(a + x) mod m = (a + y) mod m" "x < m" "y < m"
  shows "x = y"
proof -
  have one: "x = y" if "x \<le> y" "(a + y) mod m = (a + x) mod m" "y < m" for x y
  proof -
    have "m dvd (a + y) - (a + x)" using mod_eq_dvd_iff_nat [of "a + x" "a + y" m] that by simp
    then have "y - x = 0" using that nat_dvd_not_less [of "y - x" m] by force
    then show ?thesis using that by simp
  qed
  then show ?thesis using assms by (metis nat_le_linear)
qed

lemma distinct_mod_range: "n \<le> m \<Longrightarrow> distinct (map (\<lambda>k. Suc ((a + k) mod m)) [0..<n])"
  by (auto simp: distinct_map intro!: inj_onI dest!: mod_shift_inject)

section \<open>Properties\<close>


lemma queue_inv_init: "queue_inv (server_init n)"
  by (simp add: queue_inv_def server_init_def)


text \<open>C14: an answered request keeps its result. Once a request is done, no step of another
  thread, be it a failing disconnect, a flush before a reconnect, a deadline or another sender's
  removal, changes its return code or wakes it again.\<close>
theorem answered_request_keeps_result:
  assumes "srv_heap s p = Some r" "req_done_waiting r" "srv_heap (apply_op op s) p = Some r'"
  shows "req_done_waiting r' \<and> req_return_code r' = req_return_code r"
  using assms by (rule queue_ops.answered_kept)

definition answered_session :: "nat afp_server" where
  "answered_session = set_request 7
     ((new_request (server_init 64) 1 5 2 Dest_null None None)
        \<lparr>req_done_waiting := True, req_return_code := 3\<rparr>)
     ((server_init 64)\<lparr>srv_queue := [7]\<rparr>)"

theorem answered_request_keeps_result_witness:
  "\<exists>r'. srv_heap (apply_op Op_flush answered_session) 7 = Some r' \<and> req_return_code r' = 3"
proof -
  obtain r' where r': "srv_heap (apply_op Op_flush answered_session) 7 = Some r'"
    by (simp add: answered_session_def apply_op_def flush_request_queue_def upd_request_heap
        set_request_def)
  then show ?thesis
    using answered_request_keeps_result [OF _ _ r']
    by (simp add: answered_session_def set_request_def)
qed

text \<open>C15: the receiver's hold. While the receiver holds a request, no sequence of steps of
  other threads frees it or changes its destination buffers, identifiers or reply handler, so
  the receiver never writes to freed memory; its sender's removal waits.\<close>
theorem held_request_not_freed:
  assumes "srv_heap s p = Some r" "req_receiving r"
  shows "\<exists>r'. srv_heap (apply_ops ops s) p = Some r' \<and> same_request r r' \<and>
    remove_from_request_queue p (apply_ops ops s) = None"
proof -
  obtain r' where "srv_heap (apply_ops ops s) p = Some r'" "same_request r r'"
    using apply_ops_held [of s ops] assms unfolding rely_held_def by blast
  then show ?thesis using assms by (auto simp: same_request_def remove_from_request_queue_def)
qed

theorem held_request_not_freed_witness:
  "\<exists>r'. srv_heap (apply_ops [Op_remove 7, Op_flush, Op_remove 7]
      (snd (find_request (enqueue_request 7 (new_request (server_init 64) 1 5 2 Dest_null None None)
        (server_init 64 :: nat afp_server)) 1))) 7 = Some r' \<and> req_receiving r'"
proof -
  let ?s = "snd (find_request (enqueue_request 7 (new_request (server_init 64) 1 5 2 Dest_null None None)
    (server_init 64 :: nat afp_server)) 1)"
  have "srv_heap ?s 7 =
      Some ((new_request (server_init 64) 1 5 2 Dest_null None None)\<lparr>req_receiving := True\<rparr>)"
    by (simp add: find_request_def enqueue_request_def upd_stats_def set_request_def awaits_def
        new_request_def upd_request_heap server_init_def)
  from held_request_not_freed [OF this, of "[Op_remove 7, Op_flush, Op_remove 7]"]
  show ?thesis by (auto simp: same_request_def)
qed

text \<open>a flush before a reconnect empties the queue, so that no late reply matches a request,
  and wakes every request: one already answered keeps its result, each other one gets -EIO.\<close>
theorem flush_empties_queue:
  assumes "queue_inv s"
  shows "srv_queue (flush_request_queue s) = [] \<and>
    fst (find_request (flush_request_queue s) i) = None \<and>
    st_requests_pending (srv_stats (flush_request_queue s)) = 0 \<and>
    (\<forall>p \<in> set (srv_queue s). \<exists>r r'. srv_heap s p = Some r \<and>
       srv_heap (flush_request_queue s) p = Some r' \<and> req_done_waiting r' \<and>
       req_return_code r' = (if req_done_waiting r then req_return_code r else - EIO))"
proof -
  have q: "srv_queue (flush_request_queue s) = []" by (simp add: flush_request_queue_def)
  moreover have "st_requests_pending (srv_stats (flush_request_queue s)) = 0"
    using queue_inv_flush [OF assms] q by (simp add: queue_inv_def u64_def)
  moreover have "\<exists>r r'. srv_heap s p = Some r \<and> srv_heap (flush_request_queue s) p = Some r' \<and>
      req_done_waiting r' \<and> req_return_code r' = (if req_done_waiting r then req_return_code r else - EIO)"
    if p: "p \<in> set (srv_queue s)" for p
  proof -
    obtain r where r: "srv_heap s p = Some r" using p assms unfolding queue_inv_def by blast
    then have "srv_heap (flush_request_queue s) p = Some (flushed r)"
      using p assms by (simp add: flush_request_queue_def flush_loop_heap queue_inv_def)
    then show ?thesis using r by (simp add: flushed_def wake_request_def)
  qed
  ultimately show ?thesis by (simp add: find_request_def)
qed

theorem flush_empties_queue_witness:
  "\<exists>r'. srv_heap (flush_request_queue (enqueue_request 7
      (new_request (server_init 64) 1 5 2 Dest_null None None) (server_init 64 :: nat afp_server))) 7
      = Some r' \<and> req_return_code r' = - EIO"
proof -
  let ?s = "enqueue_request 7 (new_request (server_init 64) 1 5 2 Dest_null None None)
    (server_init 64 :: nat afp_server)"
  have "queue_inv ?s"
    by (rule queue_inv_enqueue [OF queue_inv_init]) (simp_all add: server_init_def new_request_def)
  from flush_empties_queue [OF this] show ?thesis
    by (auto simp: enqueue_request_def upd_stats_def set_request_def new_request_def)
qed

text \<open>request identifiers. With a replay cache, \<open>afpc_dsi_setup_header\<close> gives 65535
  successive requests pairwise different identifiers, all from 1 to 65535, wrapping from 65535
  to 1: the server never takes one for a replay of another, and 0 is never used.\<close>
theorem request_ids_distinct:
  assumes "srv_supports_replay_cache s" "srv_lastrequestid s \<le> 65535" "n \<le> 65535"
  shows "distinct (header_ids n s) \<and> set (header_ids n s) \<subseteq> {1..65535}"
proof -
  have h: "header_ids n s = map (\<lambda>k. Suc ((srv_lastrequestid s + k) mod 65535)) [0..<n]"
    using header_ids_replay [OF assms(1,2)] by simp
  have "Suc (x mod 65535) \<le> 65535" for x :: nat
    using mod_less_divisor [of 65535 x] by (simp add: Suc_le_eq)
  then show ?thesis
    unfolding h using distinct_mod_range [OF assms(3)] by auto
qed

theorem request_ids_distinct_witness:
  "distinct (header_ids 65535 ((server_init 64 :: nat afp_server)
     \<lparr>srv_supports_replay_cache := True, srv_lastrequestid := 65530\<rparr>))"
  using request_ids_distinct [of "(server_init 64 :: nat afp_server)
     \<lparr>srv_supports_replay_cache := True, srv_lastrequestid := 65530\<rparr>" 65535] by simp

text \<open>a written request's deadline is the current time plus its own wait plus the waits of
  the requests written ahead of it and still awaited, the nanoseconds those of the clock; an
  answered request, whose wait the receiver zeroes, adds nothing. No other request changes.\<close>
theorem deadline_adds_waits_ahead:
  assumes "srv_heap s p = Some r"
  shows "srv_heap (set_deadline now p s) p = Some (r\<lparr>req_deadline :=
      (fst now + req_wait r +
        (\<Sum>q\<leftarrow>srv_queue s. case srv_heap s q of None \<Rightarrow> 0 | Some r' \<Rightarrow>
           if fst (req_deadline r') \<noteq> 0 then req_wait r' else 0), snd now * 1000)\<rparr>) \<and>
    (\<forall>q. q \<noteq> p \<longrightarrow> srv_heap (set_deadline now p s) q = srv_heap s q)"
proof -
  have "waits_ahead h ps = (\<Sum>q\<leftarrow>ps. case h q of None \<Rightarrow> 0 | Some r' \<Rightarrow>
      if fst (req_deadline r') \<noteq> 0 then req_wait r' else 0)" for h :: "nat \<Rightarrow> 'a dsi_request option" and ps
    by (induction ps) simp_all
  then show ?thesis using assms by (simp add: set_deadline_def upd_request_heap add.assoc)
qed

theorem deadline_adds_waits_ahead_witness:
  "\<exists>r. srv_heap (set_deadline (1000, 5) 7 (enqueue_request 7
      (new_request (server_init 64) 1 30 2 Dest_null None None) (server_init 64 :: nat afp_server))) 7
      = Some r \<and> req_deadline r = (1030, 5000)"
  using deadline_adds_waits_ahead [of "enqueue_request 7
      (new_request (server_init 64) 1 30 2 Dest_null None None) (server_init 64 :: nat afp_server)" 7
      "new_request (server_init 64) 1 30 2 Dest_null None None" "(1000, 5)"]
  by (simp add: enqueue_request_def upd_stats_def set_request_def new_request_def server_init_def)

end
