(* ===== verification/Dsi_Status.thy ===== *)
theory Dsi_Status
  imports Dsi_Queue
begin

text \<open>
  The two DSI replies that describe the server: the session options of DSIOpenSession and the
  status block of DSIGetStatus (\<open>lib/dsi.c\<close>), with the tables of AFP versions (\<open>lib/afp.c\<close>) and of
  authentication methods (\<open>lib/uams_def.c\<close>) they are matched against.  Every read of the receive
  buffer is checked against the buffer.  The parameter \<open>iconv_name\<close> is the conversion
  of a Mac Roman server name by \<open>iconv\<close>, \<^term>\<open>None\<close> when \<open>iconv_open\<close> fails.
\<close>

unbundle bit_operations_syntax

abbreviation (input) SERVER_MAX_VERSIONS :: nat where "SERVER_MAX_VERSIONS \<equiv> 10"
abbreviation (input) SERVER_MAX_UAMS :: nat where "SERVER_MAX_UAMS \<equiv> 10"
abbreviation (input) AFP_UAM_LENGTH :: nat where "AFP_UAM_LENGTH \<equiv> 24"
abbreviation (input) DSI_DEFAULT_QUANTUM :: nat where "DSI_DEFAULT_QUANTUM \<equiv> 1048576"
abbreviation (input) DSI_MAX_QUANTUM :: nat where "DSI_MAX_QUANTUM \<equiv> 268435456"

section \<open>Tables\<close>

definition afp_versions :: "(string \<times> nat) list" where
  "afp_versions = [(''AFPVersion 1.1'', 11), (''AFPVersion 2.0'', 20), (''AFPVersion 2.1'', 21),
     (''AFP2.2'', 22), (''AFPX03'', 30), (''AFP3.1'', 31), (''AFP3.2'', 32), (''AFP3.3'', 33),
     (''AFP3.4'', 34)]"

definition afp_strings :: "string list" where
  "afp_strings = [''No User Authent'', ''Cleartxt Passwrd'', ''Randnum Exchange'',
     ''2-Way Randnum Exchange'', ''DHCAST128'', ''Client Krb v2'', ''DHX2'', ''Recon1'', ''SRP'']"

definition uam_aliases :: "(string \<times> string) list" where
  "uam_aliases = [(''guest'', ''No User Authent''), (''clrtxt'', ''Cleartxt Passwrd''),
     (''randnum'', ''Randnum Exchange''), (''randnum2'', ''2-Way Randnum Exchange''),
     (''dhx'', ''DHCAST128''), (''dhx2'', ''DHX2''), (''srp'', ''SRP'')]"

definition resolve_uam_shorthand :: "string \<Rightarrow> string" where
  "resolve_uam_shorthand name =
     (case find (\<lambda>(short, _). strcaseeq name short) uam_aliases of
        Some (_, full_name) \<Rightarrow> full_name | None \<Rightarrow> name)"

fun bit_of_name :: "string \<Rightarrow> string list \<Rightarrow> nat \<Rightarrow> nat" where
  "bit_of_name name [] i = 0"
| "bit_of_name name (s # ss) i = (if strcaseeq name s then 2 ^ i else bit_of_name name ss (i + 1))"

definition uam_string_to_bitmap :: "string \<Rightarrow> nat" where
  "uam_string_to_bitmap name = bit_of_name (resolve_uam_shorthand name) afp_strings 0"

text \<open>\<open>uam_bitmap_to_string\<close>: the name of the highest bit the table has.\<close>

fun highest_name :: "nat \<Rightarrow> string list \<Rightarrow> nat \<Rightarrow> string option" where
  "highest_name bitmap [] i = None"
| "highest_name bitmap (s # ss) i =
     (case highest_name bitmap ss (i + 1) of
        Some t \<Rightarrow> Some t
      | None \<Rightarrow> if bitmap div 2 ^ i mod 2 = 1 then Some s else None)"

definition uam_bitmap_to_string :: "nat \<Rightarrow> string option" where
  "uam_bitmap_to_string bitmap = highest_name bitmap afp_strings 0"

section \<open>Session options\<close>

text \<open>The loop of \<open>afpc_dsi_opensession_reply\<close>: the quantum and the replay cache size read so
  far.\<close>

function opensession_loop ::
  "bytes \<Rightarrow> nat \<Rightarrow> nat \<Rightarrow> nat \<Rightarrow> nat option \<Rightarrow> (nat \<times> nat option) option" where
  "opensession_loop buf data_read offset quantum cache =
     (if offset + 2 \<le> data_read then
        (case (rd8 buf offset, rd8 buf (offset + 1)) of
           (Some option_type, Some option_len) \<Rightarrow>
             if offset + 2 + option_len > data_read then Some (quantum, cache)
             else if option_type = 0 \<and> option_len = 4 then
               (case rd32 buf (offset + 2) of
                  None \<Rightarrow> None
                | Some q \<Rightarrow> opensession_loop buf data_read (offset + 2 + option_len) q cache)
             else if option_type = kServerReplayCacheSize \<and> option_len = 4 then
               (case rd32 buf (offset + 2) of
                  None \<Rightarrow> None
                | Some c \<Rightarrow> opensession_loop buf data_read (offset + 2 + option_len) quantum (Some c))
             else opensession_loop buf data_read (offset + 2 + option_len) quantum cache
         | _ \<Rightarrow> None)
      else Some (quantum, cache))"
  by pat_completeness auto
termination
  by (relation "measure (\<lambda>(buf, data_read, offset, q, c). data_read + 2 - offset)") auto

declare opensession_loop.simps [simp del]

definition opensession_reply :: "'o afp_server \<Rightarrow> 'o afp_server option" where
  "opensession_reply srv =
     (case opensession_loop (srv_incoming_buffer srv) (srv_data_read srv) DSI_HEADER_SIZE 0 None of
        None \<Rightarrow> None
      | Some (quantum, cache) \<Rightarrow>
          let s1 = (case cache of None \<Rightarrow> srv
                    | Some c \<Rightarrow> srv\<lparr>srv_replay_cache_size := c, srv_supports_replay_cache := True\<rparr>);
              q = (if quantum = 0 \<or> quantum > DSI_MAX_QUANTUM then DSI_DEFAULT_QUANTUM else quantum)
          in Some (s1\<lparr>srv_quantum := q\<rparr>))"

section \<open>Status\<close>

fun parse_versions_loop :: "nat \<Rightarrow> bytes \<Rightarrow> nat \<Rightarrow> nat list option" where
  "parse_versions_loop 0 buf p = Some []"
| "parse_versions_loop (Suc n) buf p =
     (case copy_from_pascal (replicate 33 0) (Some (drop p buf)) 33 of
        None \<Rightarrow> None
      | Some (l, name) \<Rightarrow>
          (case parse_versions_loop n buf (p + u8 (l + 1)) of
             None \<Rightarrow> None
           | Some vs \<Rightarrow>
               (case map_of afp_versions (string_of (cstr name)) of
                  None \<Rightarrow> Some vs
                | Some v \<Rightarrow> Some (v # vs))))"

text \<open>\<open>afpc_dsi_parse_versions\<close>: the array \<open>versions\<close>, zero behind the versions recognised.\<close>

definition parse_versions :: "bytes \<Rightarrow> nat \<Rightarrow> nat list option" where
  "parse_versions buf p =
     (case rd8 buf p of
        None \<Rightarrow> None
      | Some num_versions \<Rightarrow>
          (case parse_versions_loop (min num_versions SERVER_MAX_VERSIONS) buf (p + 1) of
             None \<Rightarrow> None
           | Some vs \<Rightarrow> Some (vs @ replicate (SERVER_MAX_VERSIONS - length vs) 0)))"

fun parse_uams_loop :: "nat \<Rightarrow> bytes \<Rightarrow> nat \<Rightarrow> nat \<Rightarrow> nat option" where
  "parse_uams_loop 0 buf p uams = Some uams"
| "parse_uams_loop (Suc n) buf p uams =
     (case copy_from_pascal (replicate (AFP_UAM_LENGTH + 1) 0) (Some (drop p buf)) AFP_UAM_LENGTH of
        None \<Rightarrow> None
      | Some (l, name) \<Rightarrow>
          parse_uams_loop n buf (p + u8 (l + 1)) (uams OR uam_string_to_bitmap (string_of (cstr name))))"

definition parse_uams :: "bytes \<Rightarrow> nat \<Rightarrow> nat option" where
  "parse_uams buf p =
     (case rd8 buf p of
        None \<Rightarrow> None
      | Some num_uams \<Rightarrow> parse_uams_loop (min num_uams SERVER_MAX_UAMS) buf (p + 1) 0)"

text \<open>The name part of \<open>afpc_dsi_getstatus_reply\<close>, from the offset \<open>p\<close> behind the signature's.\<close>

definition status_names ::
  "(nat \<Rightarrow> bool) \<Rightarrow> (bytes \<Rightarrow> bytes option) \<Rightarrow> bytes \<Rightarrow> nat \<Rightarrow> status_info \<Rightarrow> status_info option" where
  "status_names malloc_ok iconv_name buf p st =
     (if si_flags st div 0x200 mod 2 = 1 then
        (case rd16 buf p of
           None \<Rightarrow> None
         | Some off \<Rightarrow>
             (case copy_from_pascal (si_server_name_utf8 st) (Some (drop (DSI_HEADER_SIZE + off + 1) buf)) 255 of
                None \<Rightarrow> None
              | Some (l, name) \<Rightarrow>
                  (case (if l = 0
                         then copy_from_pascal name (Some (drop (DSI_HEADER_SIZE + off + 2) buf)) 255
                         else Some (l, name)) of
                     None \<Rightarrow> None
                   | Some (_, name') \<Rightarrow>
                       (case convert_utf8dec_to_utf8pre malloc_ok (cstr name') 255 of
                          None \<Rightarrow> None
                        | Some (_, out) \<Rightarrow>
                            Some (st\<lparr>si_server_name_utf8 := name',
                              si_server_name_printable :=
                                write_at (si_server_name_printable st) 0 (out @ [0])\<rparr>)))))
      else
        (case iconv_name (cstr (si_server_name st)) of
           None \<Rightarrow> Some st
         | Some out \<Rightarrow>
             Some (st\<lparr>si_server_name_printable :=
               write_at (si_server_name_printable st) 0 (take 255 out)\<rparr>)))"

text \<open>\<open>afpc_dsi_getstatus_reply\<close>; the receive buffer starts at an even address.\<close>

definition getstatus_reply ::
  "(nat \<Rightarrow> bool) \<Rightarrow> (bytes \<Rightarrow> bytes option) \<Rightarrow> 'o afp_server \<Rightarrow> 'o afp_server option" where
  "getstatus_reply malloc_ok iconv_name srv =
     (let buf = srv_incoming_buffer srv; st = srv_status srv in
      if srv_data_read srv < 34 then Some srv
      else case (rd16 buf 16, rd16 buf 18, rd16 buf 20, rd16 buf 22, rd16 buf 24) of
          (Some machine_offset, Some version_offset, Some uams_offset, Some icon_offset, Some fl) \<Rightarrow>
            (case copy_from_pascal (si_machine_type st) (Some (drop (16 + machine_offset) buf)) 17 of
               None \<Rightarrow> None
             | Some (_, machine) \<Rightarrow>
            (case parse_versions buf (16 + version_offset) of
               None \<Rightarrow> None
             | Some vs \<Rightarrow>
            (case parse_uams buf (16 + uams_offset) of
               None \<Rightarrow> None
             | Some uams \<Rightarrow>
            (case (if icon_offset > 0 then rd_bytes buf (16 + icon_offset) 256 else Some (si_icon st)) of
               None \<Rightarrow> None
             | Some icon \<Rightarrow>
            (case copy_from_pascal (si_server_name st) (Some (drop 26 buf)) 33 of
               None \<Rightarrow> None
             | Some (l, name) \<Rightarrow>
               let p0 = 26 + l + 1; p = (if p0 mod 2 = 1 then p0 + 1 else p0) in
            (case rd16 buf p of
               None \<Rightarrow> None
             | Some signature_offset \<Rightarrow>
            (case rd_bytes buf (16 + signature_offset) 16 of
               None \<Rightarrow> None
             | Some sig \<Rightarrow>
               let p1 = p + 2;
                   p2 = (if fl div 0x20 mod 2 = 1 then p1 + 2 else p1);
                   p3 = (if fl div 0x100 mod 2 = 1 then p2 + 2 else p2) in
            (case status_names malloc_ok iconv_name buf p3
                    (st\<lparr>si_machine_type := machine, si_versions := vs, si_supported_uams := uams,
                       si_icon := icon, si_flags := fl, si_server_name := name,
                       si_signature := sig\<rparr>) of
               None \<Rightarrow> None
             | Some st' \<Rightarrow> Some (srv\<lparr>srv_status := st'\<rparr>)))))))))
        | _ \<Rightarrow> None)"

section \<open>The status block stays inside the receive buffer\<close>

lemma copy_from_pascal_safe:
  assumes "p + 256 \<le> length buf" "0 < max_len" "max_len \<le> length dest"
  shows "\<exists>l d. copy_from_pascal dest (Some (drop p buf)) max_len = Some (l, d) \<and> l < 256
    \<and> length d = length dest"
proof -
  obtain l where l: "rd8 (drop p buf) 0 = Some l"
    using assms(1) rd_None_iff [of 1 "drop p buf" 0] by fastforce
  then have "l < 256" using rd_bound [of 1] by fastforce
  moreover have "1 + min l (max_len - 1) \<le> length (drop p buf)" using assms(1) \<open>l < 256\<close> by simp
  ultimately show ?thesis
    using copy_from_pascal_copies [OF l assms(2,3)] assms(2,3) by simp
qed

lemma parse_versions_loop_safe:
  "p + 256 * n \<le> length buf \<Longrightarrow> \<exists>vs. parse_versions_loop n buf p = Some vs \<and> length vs \<le> n"
proof (induction n arbitrary: p)
  case (Suc n)
  obtain l d where l: "copy_from_pascal (replicate 33 0) (Some (drop p buf)) 33 = Some (l, d)" "l < 256"
    using copy_from_pascal_safe [of p buf 33 "replicate 33 0"] Suc.prems by auto
  have "p + u8 (l + 1) + 256 * n \<le> length buf"
    using Suc.prems u8_bound [of "l + 1"] by (simp del: u8_bound)
  from Suc.IH [OF this] l show ?case by (auto split: option.splits)
qed simp

lemma parse_uams_loop_safe:
  "p + 256 * n \<le> length buf \<Longrightarrow> parse_uams_loop n buf p u \<noteq> None"
proof (induction n arbitrary: p u)
  case (Suc n)
  obtain l d where l: "copy_from_pascal (replicate (AFP_UAM_LENGTH + 1) 0) (Some (drop p buf))
      AFP_UAM_LENGTH = Some (l, d)" "l < 256"
    using copy_from_pascal_safe [of p buf AFP_UAM_LENGTH "replicate (AFP_UAM_LENGTH + 1) 0"] Suc.prems
    by auto
  have "p + u8 (l + 1) + 256 * n \<le> length buf"
    using Suc.prems u8_bound [of "l + 1"] by (simp del: u8_bound)
  from Suc.IH [OF this] l show ?case by simp
qed simp

lemma parse_versions_safe:
  "p + 2561 \<le> length buf \<Longrightarrow> \<exists>vs. parse_versions buf p = Some vs \<and> length vs = 10"
proof -
  assume b: "p + 2561 \<le> length buf"
  then obtain n where n: "rd8 buf p = Some n" by (auto simp: rd_def)
  have "p + 1 + 256 * min n 10 \<le> length buf" using b min.cobounded2 [of n 10] by linarith
  then obtain vs where "parse_versions_loop (min n 10) buf (p + 1) = Some vs" "length vs \<le> min n 10"
    using parse_versions_loop_safe by blast
  then show ?thesis using n by (simp add: parse_versions_def)
qed

lemma parse_uams_safe: "p + 2561 \<le> length buf \<Longrightarrow> parse_uams buf p \<noteq> None"
  using parse_uams_loop_safe [of "p + 1" "min (the (rd8 buf p)) 10" buf 0]
  by (auto simp: parse_uams_def rd_def)

definition wf_status :: "status_info \<Rightarrow> bool" where
  "wf_status st \<longleftrightarrow> length (si_machine_type st) = 17 \<and> length (si_versions st) = 10
     \<and> length (si_icon st) = 256 \<and> length (si_server_name st) = 33 \<and> length (si_signature st) = 16
     \<and> length (si_server_name_utf8 st) = 255 \<and> length (si_server_name_printable st) = 255"

lemma rd16_range: "p + 2 \<le> length buf \<Longrightarrow> \<exists>v. rd16 buf p = Some v \<and> v < 65536"
  using rd_bound [of 2 buf p] by (auto simp: rd_def)

lemma status_names_safe:
  assumes "wf_status st" "p + 2 \<le> 1000" "length buf = AFP_BUFSIZE"
  shows "\<exists>st'. status_names malloc_ok iconv_name buf p st = Some st' \<and> wf_status st'"
proof (cases "si_flags st div 0x200 mod 2 = 1")
  case True
  obtain off where off: "rd16 buf p = Some off" "off < 65536"
    using rd16_range [of p buf] assms by auto
  obtain l n where n: "copy_from_pascal (si_server_name_utf8 st) (Some (drop (DSI_HEADER_SIZE + off + 1) buf)) 255
      = Some (l, n)" "length n = 255"
    using copy_from_pascal_safe [of "16 + off + 1" buf 255 "si_server_name_utf8 st"] assms off
    by (auto simp: wf_status_def)
  obtain l' n' where n': "copy_from_pascal n (Some (drop (DSI_HEADER_SIZE + off + 2) buf)) 255
      = Some (l', n')" "length n' = 255"
    using copy_from_pascal_safe [of "16 + off + 2" buf 255 n] assms off n by auto
  obtain l2 n2 where n2: "(if l = 0 then copy_from_pascal n (Some (drop (DSI_HEADER_SIZE + off + 2) buf)) 255
      else Some (l, n)) = Some (l2, n2)" "length n2 = 255"
    using n n' by (cases "l = 0") auto
  obtain r out where o: "convert_utf8dec_to_utf8pre malloc_ok (cstr n2) 255 = Some (r, out)" "length out < 255"
    using convert_utf8dec_to_utf8pre_safe [of malloc_ok "cstr n2" 255]
      convert_utf8dec_to_utf8pre_bound [of malloc_ok "cstr n2" 255] by fastforce
  show ?thesis
    using True off(1) n(1) n2 o assms(1) unfolding status_names_def
    by (simp add: wf_status_def)
next
  case False
  then show ?thesis
    using assms(1) by (auto simp: status_names_def wf_status_def split: option.splits)
qed

lemma getstatus_reply_in_buffer:
  assumes "wf_status (srv_status srv)" "length (srv_incoming_buffer srv) = AFP_BUFSIZE"
  shows "\<exists>srv'. getstatus_reply malloc_ok iconv_name srv = Some srv' \<and> wf_status (srv_status srv')
    \<and> srv' = srv\<lparr>srv_status := srv_status srv'\<rparr>"
proof (cases "srv_data_read srv < 34")
  case True
  then show ?thesis using assms by (simp add: getstatus_reply_def Let_def)
next
  case False
  let ?buf = "srv_incoming_buffer srv" and ?st = "srv_status srv"
  obtain mo vo uo io fl where o: "rd16 ?buf 16 = Some mo" "rd16 ?buf 18 = Some vo"
    "rd16 ?buf 20 = Some uo" "rd16 ?buf 22 = Some io" "rd16 ?buf 24 = Some fl"
    "mo < 65536" "vo < 65536" "uo < 65536" "io < 65536" "fl < 65536"
    using rd16_range [of 16 ?buf] rd16_range [of 18 ?buf] rd16_range [of 20 ?buf]
      rd16_range [of 22 ?buf] rd16_range [of 24 ?buf] assms(2) by auto
  obtain lm machine where m: "copy_from_pascal (si_machine_type ?st) (Some (drop (16 + mo) ?buf)) 17
      = Some (lm, machine)" "length machine = 17"
    using copy_from_pascal_safe [of "16 + mo" ?buf 17 "si_machine_type ?st"] assms o
    by (auto simp: wf_status_def)
  obtain vs where vs: "parse_versions ?buf (16 + vo) = Some vs" "length vs = 10"
    using parse_versions_safe [of "16 + vo" ?buf] assms(2) o by auto
  obtain us where us: "parse_uams ?buf (16 + uo) = Some us"
    using parse_uams_safe [of "16 + uo" ?buf] assms(2) o by auto
  obtain icon where icon: "(if io > 0 then rd_bytes ?buf (16 + io) 256 else Some (si_icon ?st)) = Some icon"
    "length icon = 256"
    using assms o by (cases "io > 0") (auto simp: rd_bytes_def wf_status_def)
  obtain l name where n: "copy_from_pascal (si_server_name ?st) (Some (drop 26 ?buf)) 33 = Some (l, name)"
    "l < 256" "length name = 33"
    using copy_from_pascal_safe [of 26 ?buf 33 "si_server_name ?st"] assms by (auto simp: wf_status_def)
  define p where "p = (if (26 + l + 1) mod 2 = 1 then 26 + l + 1 + 1 else 26 + l + 1)"
  have p: "p \<le> 284" using n(2) by (simp add: p_def)
  obtain so where so: "rd16 ?buf p = Some so" "so < 65536"
    using rd16_range [of p ?buf] p assms(2) by auto
  obtain sig where sig: "rd_bytes ?buf (16 + so) 16 = Some sig" "length sig = 16"
    using so assms(2) by (auto simp: rd_bytes_def)
  define p3 where "p3 = (let p1 = p + 2; p2 = (if fl div 0x20 mod 2 = 1 then p1 + 2 else p1)
    in if fl div 0x100 mod 2 = 1 then p2 + 2 else p2)"
  have p3: "p3 + 2 \<le> 1000" using p by (simp add: p3_def Let_def)
  define st1 where "st1 = ?st\<lparr>si_machine_type := machine, si_versions := vs, si_supported_uams := us,
    si_icon := icon, si_flags := fl, si_server_name := name, si_signature := sig\<rparr>"
  have "wf_status st1"
    using assms(1) m vs icon n sig by (simp add: st1_def wf_status_def)
  then obtain st' where st': "status_names malloc_ok iconv_name ?buf p3 st1 = Some st'" "wf_status st'"
    using status_names_safe p3 assms(2) by blast
  have "getstatus_reply malloc_ok iconv_name srv = Some (srv\<lparr>srv_status := st'\<rparr>)"
    using False
    unfolding getstatus_reply_def Let_def o m(1) vs(1) us icon(1) n(1) option.case prod.case
      p_def [symmetric] so(1) sig(1) st1_def [symmetric]
      p3_def [unfolded Let_def, symmetric] st'(1)
    by simp
  then show ?thesis using st'(2) by simp
qed

section \<open>Session options\<close>

text \<open>The options a reply encodes, and what the last quantum and cache size of a list are.\<close>

definition encode_options :: "(nat \<times> bytes) list \<Rightarrow> bytes" where
  "encode_options opts = concat (map (\<lambda>(t, d). of_nat t # of_nat (length d) # d) opts)"

definition option_step :: "nat \<times> nat option \<Rightarrow> nat \<times> bytes \<Rightarrow> nat \<times> nat option" where
  "option_step qc opt =
     (case (qc, opt) of ((q, c), (t, d)) \<Rightarrow>
        if t = 0 \<and> length d = 4 then (be_nat d, c)
        else if t = kServerReplayCacheSize \<and> length d = 4 then (q, Some (be_nat d))
        else (q, c))"

definition wf_option :: "nat \<times> bytes \<Rightarrow> bool" where
  "wf_option opt \<longleftrightarrow> fst opt < 256 \<and> length (snd opt) < 256"

lemma opensession_loop_encoded:
  assumes "list_all wf_option opts" "buf = pre @ encode_options opts @ post"
    and "data_read = length pre + length (encode_options opts)"
  shows "opensession_loop buf data_read (length pre) q c = Some (foldl option_step (q, c) opts)"
  using assms
proof (induction opts arbitrary: pre q c)
  case Nil
  then show ?case by (subst opensession_loop.simps) (simp add: encode_options_def)
next
  case (Cons opt opts)
  obtain t d where opt: "opt = (t, d)" "t < 256" "length d < 256"
    using Cons.prems(1) by (cases opt) (auto simp: wf_option_def)
  let ?o = "of_nat t # of_nat (length d) # d :: bytes"
  have enc: "encode_options (opt # opts) = ?o @ encode_options opts"
    by (simp add: encode_options_def opt)
  have buf: "buf = (pre @ ?o) @ encode_options opts @ post" using Cons.prems(2) enc by simp
  have len: "data_read = length (pre @ ?o) + length (encode_options opts)"
    using Cons.prems(3) enc by simp
  have b0: "rd8 buf (length pre) = Some t" "rd8 buf (length pre + 1) = Some (length d)"
    using opt buf by (simp_all add: rd_def be_nat_def)
  have b2: "rd32 buf (length pre + 2) = Some (be_nat d)" if "length d = 4"
    using that buf by (simp add: rd_def)
  have IH: "opensession_loop buf data_read (length (pre @ ?o)) q' c' =
      Some (foldl option_step (q', c') opts)" for q' c'
    by (rule Cons.IH) (use Cons.prems(1) buf len in auto)
  then have IH': "opensession_loop buf data_read (length pre + 2 + length d) q' c' =
      Some (foldl option_step (q', c') opts)" for q' c'
    by (simp add: add.commute add.left_commute)
  have "length pre + 2 + length d \<le> data_read" using len by simp
  then show ?case
    using b0 b2 IH' opt
    by (subst opensession_loop.simps) (auto simp: option_step_def)
qed

lemma opensession_loop_safe:
  assumes "data_read \<le> length buf" "q < 2 ^ 32"
  shows "\<exists>q' c'. opensession_loop buf data_read offset q c = Some (q', c') \<and> q' < 2 ^ 32"
  using assms
proof (induction buf data_read offset q c rule: opensession_loop.induct)
  case (1 buf data_read offset q c)
  show ?case
  proof (cases "offset + 2 \<le> data_read")
    case False
    then show ?thesis using "1.prems" by (subst opensession_loop.simps) simp
  next
    case True
    obtain t l where tl: "rd8 buf offset = Some t" "rd8 buf (offset + 1) = Some l"
      using True "1.prems" by (auto simp: rd_def)
    show ?thesis
    proof (cases "offset + 2 + l > data_read")
      case over: True
      then show ?thesis using True tl "1.prems" by (subst opensession_loop.simps) simp
    next
      case False
      have r4: "\<exists>v. rd32 buf (offset + 2) = Some v \<and> v < 2 ^ 32" if "l = 4"
        using that False "1.prems" rd_bound [of 4 buf "offset + 2"] by (auto simp: rd_def)
      then obtain v where v: "l = 4 \<Longrightarrow> rd32 buf (offset + 2) = Some v \<and> v < 2 ^ 32" by blast
      note IH1 = "1.IH"(1) [OF True refl tl False _ _ "1.prems"(1)]
      note IH2 = "1.IH"(2) [OF True refl tl False _ _ _ "1.prems"]
      note IH3 = "1.IH"(3) [OF True refl tl False _ _ "1.prems"]
      consider "t = 0" "l = 4" | "t = 2" "l = 4" | "\<not> (t = 0 \<and> l = 4)" "\<not> (t = 2 \<and> l = 4)" by blast
      then show ?thesis
      proof cases
        case 1
        then show ?thesis using IH1 [of v] v True tl False by (subst opensession_loop.simps) simp
      next
        case 2
        then show ?thesis using IH2 [of v] v True tl False by (subst opensession_loop.simps) simp
      next
        case 3
        then show ?thesis using IH3 True tl False by (subst opensession_loop.simps) auto
      qed
    qed
  qed
qed

section \<open>Properties\<close>

text \<open>The session options of a DSIOpenSession reply. For every list of options the reply
  encodes, the quantum becomes the last 4-byte option of type 0, or 1 MiB when that is missing, 0
  or above 256 MiB, and the replay cache size the last 4-byte option of type 2, which also turns
  the replay cache on; other options are skipped by their lengths.\<close>
theorem opensession_reply_options:
  assumes "list_all wf_option opts" "length hdr = 16"
    and "srv_incoming_buffer s = hdr @ encode_options opts @ post"
    and "srv_data_read s = 16 + length (encode_options opts)"
  shows "opensession_reply s =
    (let (q, c) = foldl option_step (0, None) opts;
         s1 = (case c of None \<Rightarrow> s
               | Some n \<Rightarrow> s\<lparr>srv_replay_cache_size := n, srv_supports_replay_cache := True\<rparr>)
     in Some (s1\<lparr>srv_quantum :=
          if q = 0 \<or> q > DSI_MAX_QUANTUM then DSI_DEFAULT_QUANTUM else q\<rparr>))"
proof -
  have "opensession_loop (srv_incoming_buffer s) (srv_data_read s) (length hdr) 0 None =
      Some (foldl option_step (0, None) opts)"
    by (rule opensession_loop_encoded [OF assms(1,3)]) (use assms in simp)
  then show ?thesis using assms(2) by (simp add: opensession_reply_def split: prod.splits)
qed

theorem opensession_reply_options_witness:
  "map_option srv_quantum (opensession_reply ((server_init 64 :: nat afp_server)
     \<lparr>srv_incoming_buffer := replicate 16 0 @ encode_options [(0, [0, 0, 16, 0])] @ replicate 42 0,
      srv_data_read := 22\<rparr>)) = Some 4096"
  using opensession_reply_options [of "[(0, [0, 0, 16, 0])]" "replicate 16 0"
      "(server_init 64 :: nat afp_server)
        \<lparr>srv_incoming_buffer := replicate 16 0 @ encode_options [(0, [0, 0, 16, 0])] @ replicate 42 0,
         srv_data_read := 22\<rparr>" "replicate 42 0"]
  by (simp add: wf_option_def option_step_def be_nat_def encode_options_def Let_def)

text \<open>on every reply, malformed or cut options included, the loop over the session options
  ends, reads no byte outside the receive buffer, and leaves a usable quantum between 1 byte and
  256 MiB.\<close>
theorem opensession_quantum_usable:
  assumes "srv_data_read s \<le> length (srv_incoming_buffer s)"
  shows "\<exists>s'. opensession_reply s = Some s' \<and> 1 \<le> srv_quantum s' \<and> srv_quantum s' \<le> DSI_MAX_QUANTUM"
proof -
  obtain q c where "opensession_loop (srv_incoming_buffer s) (srv_data_read s) 16 0 None = Some (q, c)"
    using opensession_loop_safe [OF assms, of 0 16 None] by auto
  then show ?thesis by (auto simp: opensession_reply_def Let_def)
qed

theorem opensession_quantum_usable_witness:
  "\<exists>s'. opensession_reply ((server_init 32 :: nat afp_server)
      \<lparr>srv_incoming_buffer := replicate 16 0 @ [0, 4, 255] @ replicate 13 1, srv_data_read := 19\<rparr>)
    = Some s' \<and> 1 \<le> srv_quantum s' \<and> srv_quantum s' \<le> DSI_MAX_QUANTUM"
  by (rule opensession_quantum_usable) simp

text \<open>C22: parsing a status reply is memory safe. The offsets of \<open>afpc_dsi_getstatus_reply\<close> come
  from the server and are not compared with the reply's length, but none of the 16-bit offsets,
  the lists of ten versions and ten authentication methods and the names behind them reaches past
  the 128 KiB receive buffer, no fixed-size field overflows, and nothing but the status fields
  changes.\<close>
theorem getstatus_reply_memory_safe:
  assumes "wf_status (srv_status s)" "length (srv_incoming_buffer s) = AFP_BUFSIZE"
  shows "\<exists>st. getstatus_reply malloc_ok iconv_name s = Some (s\<lparr>srv_status := st\<rparr>) \<and> wf_status st"
  using getstatus_reply_in_buffer [OF assms, of malloc_ok iconv_name] by metis

theorem getstatus_reply_memory_safe_witness:
  "\<exists>st. getstatus_reply (\<lambda>_. True) (\<lambda>_. None)
      ((server_init AFP_BUFSIZE :: nat afp_server)\<lparr>srv_data_read := 40\<rparr>) =
    Some (((server_init AFP_BUFSIZE)\<lparr>srv_data_read := 40\<rparr>)\<lparr>srv_status := st\<rparr>) \<and> wf_status st"
  by (rule getstatus_reply_memory_safe) (simp_all add: server_init_def wf_status_def)

end
