(* ===== verification/Dsi_Write.thy ===== *)
theory Dsi_Write
  imports Dsi_Status
begin

text \<open>
  Writing frames (\<open>lib/dsi.c\<close>): the loop over \<open>send\<close>, tickles and the two frames DSI sends of
  its own.  A script lists what the calls of \<open>send\<close> return, in order; a script that ends stands
  for a call that fails.
\<close>

datatype send_result = Send_ok nat | Send_EINTR | Send_error

text \<open>The loop of \<open>afpc_dsi_write_frame\<close>: whether every byte was sent, and the bytes sent.\<close>

fun write_loop :: "bytes \<Rightarrow> send_result list \<Rightarrow> bool \<times> bytes" where
  "write_loop msg [] = (msg = [], [])"
| "write_loop msg (r # rs) =
     (if msg = [] then (True, [])
      else case r of
          Send_EINTR \<Rightarrow> write_loop msg rs
        | Send_error \<Rightarrow> (False, [])
        | Send_ok n \<Rightarrow>
            (let k = min n (length msg); (ok, out) = write_loop (drop k msg) rs
             in (ok, take k msg @ out)))"

definition count_frame :: "nat \<Rightarrow> nat \<Rightarrow> nat \<Rightarrow> dsi_stats \<Rightarrow> dsi_stats" where
  "count_frame command n subcommand st =
     (let st1 = st\<lparr>st_tx_bytes := u64 (st_tx_bytes st + n)\<rparr> in
      if command = DSI_DSICommand \<or> command = DSI_DSIWrite
      then st1\<lparr>st_commands := (st_commands st1)(subcommand := u64 (st_commands st1 subcommand + 1))\<rparr>
      else st1)"

definition write_frame ::
  "'o afp_server \<Rightarrow> bytes \<Rightarrow> nat \<Rightarrow> send_result list \<Rightarrow> int \<times> 'o afp_server" where
  "write_frame srv msg subcommand rs =
     (let (ok, out) = write_loop msg rs; s1 = srv\<lparr>srv_sent := srv_sent srv @ out\<rparr> in
      if \<not> ok then (- EIO, s1)
      else (0, upd_stats (count_frame (hdr_command (header_of msg)) (length msg) subcommand) s1))"

text \<open>\<open>afpc_dsi_tickle_unless_busy\<close>: \<open>room\<close> says that the send mutex was free and the socket
  has room.\<close>

definition tickle_unless_busy :: "bool \<Rightarrow> send_result list \<Rightarrow> 'o afp_server \<Rightarrow> 'o afp_server" where
  "tickle_unless_busy room rs srv =
     (if room \<and> srv_fd srv \<ge> 0 then
        (let (h, s1) = setup_header srv DSI_DSITickle
         in snd (write_frame s1 (encode_header h) DSI_DSITickle rs))
      else srv)"

definition sendtickle :: "bool \<Rightarrow> send_result list \<Rightarrow> 'o afp_server \<Rightarrow> int \<times> 'o afp_server" where
  "sendtickle room rs srv = (0, tickle_unless_busy room rs srv)"

definition incoming_tickle :: "bool \<Rightarrow> send_result list \<Rightarrow> 'o afp_server \<Rightarrow> 'o afp_server" where
  "incoming_tickle room rs srv = tickle_unless_busy room rs srv"

text \<open>The frame of \<open>afpc_dsi_opensession\<close>, whose length field the send sets.\<close>

definition opensession_message :: "'o afp_server \<Rightarrow> bytes \<times> 'o afp_server" where
  "opensession_message srv =
     (let (h, s1) = setup_header srv DSI_DSIOpenSession
      in (encode_header h @ [1, 4] @ be_bytes 4 (srv_attention_quantum srv), s1))"

definition getstatus_message :: "'o afp_server \<Rightarrow> bytes \<times> 'o afp_server" where
  "getstatus_message srv = (let (h, s1) = setup_header srv DSI_DSIGetStatus in (encode_header h, s1))"

section \<open>What a write sends\<close>

lemma write_loop_sent:
  "fst (write_loop msg rs) \<Longrightarrow> snd (write_loop msg rs) = msg"
proof (induction msg rs rule: write_loop.induct)
  case (2 msg r rs)
  show ?case
  proof (cases r)
    case (Send_ok n)
    then show ?thesis
      using "2.prems" "2.IH"(1) [of n "min n (length msg)"]
      by (auto simp: Let_def split: prod.splits if_splits)
  qed (use 2 in \<open>auto split: if_splits\<close>)
qed simp

lemma write_loop_prefix: "prefix (snd (write_loop msg rs)) msg"
proof (induction msg rs rule: write_loop.induct)
  case (2 msg r rs)
  show ?case
  proof (cases r)
    case (Send_ok n)
    let ?k = "min n (length msg)"
    have "msg \<noteq> [] \<Longrightarrow> prefix (snd (write_loop (drop ?k msg) rs)) (drop ?k msg)"
      using "2.IH"(1) Send_ok by blast
    then have "msg \<noteq> [] \<Longrightarrow> prefix (take ?k msg @ snd (write_loop (drop ?k msg) rs)) msg"
      by (metis append_take_drop_id same_prefix_prefix)
    then show ?thesis using Send_ok by (simp add: Let_def case_prod_beta)
  qed (use 2 in auto)
qed simp

text \<open>C24: a frame is written whole or reported. When \<open>afpc_dsi_write_frame\<close> returns 0, through any
  sequence of short and interrupted sends, exactly the frame's bytes were sent, in order; when it
  returns -EIO a prefix of them was, and the frame is not counted. Nothing but the bytes sent and
  the counters changes.\<close>
theorem write_frame_all_or_error:
  "\<exists>rc s' out. write_frame s msg subcommand rs = (rc, s') \<and> srv_sent s' = srv_sent s @ out \<and>
     prefix out msg \<and> (rc = 0 \<longrightarrow> out = msg) \<and> (rc \<noteq> 0 \<longrightarrow> rc = - EIO \<and> srv_stats s' = srv_stats s) \<and>
     s' = s\<lparr>srv_sent := srv_sent s', srv_stats := srv_stats s'\<rparr>"
proof -
  obtain ok out where w: "write_loop msg rs = (ok, out)" by fastforce
  then have "prefix out msg" "ok \<Longrightarrow> out = msg"
    using write_loop_prefix [of msg rs] write_loop_sent [of msg rs] by auto
  then show ?thesis
    by (cases ok) (auto simp: write_frame_def w upd_stats_def)
qed

theorem write_frame_all_or_error_witness:
  "\<exists>s'. write_frame (server_init 64 :: nat afp_server)
      [0, 5, 0, 1, 0, 0, 0, 0, 0, 0, 0, 0, 0, 0, 0, 0] 5 [Send_ok 3, Send_EINTR, Send_ok 100] = (0, s') \<and>
     srv_sent s' = [0, 5, 0, 1, 0, 0, 0, 0, 0, 0, 0, 0, 0, 0, 0, 0]"
proof -
  let ?m = "[0, 5, 0, 1, 0, 0, 0, 0, 0, 0, 0, 0, 0, 0, 0, 0] :: bytes"
  obtain rc s' where w: "write_frame (server_init 64 :: nat afp_server) ?m 5
      [Send_ok 3, Send_EINTR, Send_ok 100] = (rc, s')" by fastforce
  moreover have "rc = 0" using w by (simp add: write_frame_def)
  ultimately show ?thesis
    using write_frame_all_or_error [of "server_init 64 :: nat afp_server" ?m 5
        "[Send_ok 3, Send_EINTR, Send_ok 100]"]
    by (auto simp: server_init_def)
qed

end
