(* ===== verification/Dsi_Recv.thy ===== *)
theory Dsi_Recv
  imports Dsi_Write
begin

text \<open>
  The receiver of a session, \<open>afpc_dsi_recv\<close> of \<open>lib/dsi.c\<close>.  One call reads one piece of the
  stream.  A read takes its outcome from an event: the steps other threads take while it blocks,
  and the bytes it delivers.  The gotos of \<open>afpc_dsi_recv_frame\<close> are the values of \<open>label\<close>, the code
  between two labels one definition.  \<^term>\<open>None\<close> is a memory error: a write outside a buffer, a
  request used after it was freed, or a missing request dereferenced.  The reply parsers of AFP
  commands, the results of allocations and the socket's room are in the environment.
\<close>

datatype read_outcome = Read_fail | Read_data bytes

type_synonym 'o event = "'o queue_op list \<times> read_outcome"

datatype read_result = RR_replaced bytes | RR_error | RR_eof | RR_data bytes

datatype label = L_return int | L_gotenough | L_process_packet | L_after_processing | L_out | L_error

record 'o recv_env =
  env_reply :: "nat option \<Rightarrow> nat \<Rightarrow> bytes \<Rightarrow> 'o dest \<Rightarrow> int \<times> 'o dest"
  env_malloc :: "nat \<Rightarrow> bool"
  env_iconv :: "bytes \<Rightarrow> bytes option"
  env_thread :: bool
  env_room :: bool
  env_send :: "send_result list"

section \<open>Reading\<close>

text \<open>\<open>afpc_dsi_read\<close>: bytes read after a connect replaced the connection are stored all the
  same, and reported as replaced.\<close>

definition dsi_read :: "'o afp_server \<Rightarrow> nat \<Rightarrow> nat \<Rightarrow> 'o event \<Rightarrow> 'o afp_server \<times> read_result" where
  "dsi_read srv gen len ev =
     (let s = apply_ops (fst ev) srv;
          bs = (case snd ev of Read_fail \<Rightarrow> [] | Read_data b \<Rightarrow> take len b)
      in if srv_generation s \<noteq> gen then (s, RR_replaced bs)
         else case snd ev of
             Read_fail \<Rightarrow> (s, RR_error)
           | Read_data _ \<Rightarrow> if bs = [] then (s, RR_eof) else (s, RR_data bs))"

definition store_incoming :: "nat \<Rightarrow> bytes \<Rightarrow> 'o afp_server \<Rightarrow> 'o afp_server option" where
  "store_incoming off bs srv =
     (if off + length bs \<le> length (srv_incoming_buffer srv)
      then Some (srv\<lparr>srv_incoming_buffer := write_at (srv_incoming_buffer srv) off bs\<rparr>)
      else None)"

definition count_rx :: "nat \<Rightarrow> 'o afp_server \<Rightarrow> 'o afp_server" where
  "count_rx n = upd_stats (\<lambda>s. s\<lparr>st_rx_bytes := u64 (st_rx_bytes s + n)\<rparr>)"

definition count_runt :: "'o afp_server \<Rightarrow> 'o afp_server" where
  "count_runt = upd_stats (\<lambda>s. s\<lparr>st_runt_packets := u64 (st_runt_packets s + 1)\<rparr>)"

abbreviation (input) srv_header :: "'o afp_server \<Rightarrow> dsi_header" where
  "srv_header srv \<equiv> header_of (srv_incoming_buffer srv)"

definition command_is_defined :: "nat \<Rightarrow> bool" where
  "command_is_defined c \<longleftrightarrow>
     c \<in> {DSI_DSICloseSession, DSI_DSICommand, DSI_DSIGetStatus, DSI_DSIOpenSession, DSI_DSITickle,
          DSI_DSIWrite, DSI_DSIAttention}"

section \<open>Dropping a frame and reading a header\<close>

definition recv_discard :: "'o afp_server \<Rightarrow> nat \<Rightarrow> 'o event \<Rightarrow> (int \<times> 'o afp_server) option" where
  "recv_discard srv gen ev =
     (case dsi_read srv gen (min (srv_discard_remaining srv) (srv_bufsize srv)) ev of
        (s, RR_replaced bs) \<Rightarrow> map_option (Pair 0) (store_incoming 0 bs s)
      | (s, RR_error) \<Rightarrow> Some (-1, s)
      | (s, RR_eof) \<Rightarrow> Some (-1, s)
      | (s, RR_data bs) \<Rightarrow>
          map_option (\<lambda>s1. (0, (count_rx (length bs) s1)
              \<lparr>srv_discard_remaining := size_t_sub (srv_discard_remaining s1) (length bs)\<rparr>))
            (store_incoming 0 bs s))"

definition recv_header :: "'o afp_server \<Rightarrow> nat \<Rightarrow> 'o event \<Rightarrow> (label \<times> 'o afp_server) option" where
  "recv_header srv gen ev =
     (case dsi_read srv gen (DSI_HEADER_SIZE - srv_data_read srv) ev of
        (s, RR_replaced bs) \<Rightarrow> map_option (Pair (L_return 0)) (store_incoming (srv_data_read s) bs s)
      | (s, RR_error) \<Rightarrow> Some (L_return (-1), s)
      | (s, RR_eof) \<Rightarrow> Some (L_return (-1), s)
      | (s, RR_data bs) \<Rightarrow>
          (case store_incoming (srv_data_read s) bs s of
             None \<Rightarrow> None
           | Some s1 \<Rightarrow>
               let s2 = (count_rx (length bs) s1)\<lparr>srv_data_read := srv_data_read s1 + length bs\<rparr> in
               if srv_data_read s2 = DSI_HEADER_SIZE \<and> hdr_length (srv_header s2) = 0
               then Some (L_gotenough, s2) else Some (L_return 0, s2)))"

section \<open>Matching a frame with a request\<close>

text \<open>The request the frame answers, the request held, and whether the frame is dropped.\<close>

definition match_request ::
  "'o afp_server \<Rightarrow> nat option \<times> nat option \<times> bool \<times> 'o afp_server" where
  "match_request srv =
     (let h = srv_header srv in
      if hdr_flags h = DSI_REPLY then
        (case find_request srv (hdr_requestid h) of
           (None, s) \<Rightarrow> (None, None, True, count_runt s)
         | (Some p, s) \<Rightarrow>
             (case srv_heap s p of
                Some r \<Rightarrow>
                  if req_generation r \<noteq> srv_generation s
                  then (None, Some p, True, count_runt s) else (Some p, Some p, False, s)
              | None \<Rightarrow> (Some p, Some p, False, s)))
      else if hdr_command h \<noteq> DSI_DSICloseSession \<and> hdr_command h \<noteq> DSI_DSITickle
              \<and> hdr_command h \<noteq> DSI_DSIAttention
      then (None, None, True, count_runt srv)
      else (None, None, False, srv))"

section \<open>Read replies\<close>

datatype buffer_ref = Buf_null | Buf_stream rx_buffer | Buf_other rx_buffer | Buf_confused

definition read_buffer :: "'o dsi_request \<Rightarrow> buffer_ref" where
  "read_buffer r =
     (case req_stream_buffer r of
        Some b \<Rightarrow> Buf_stream b
      | None \<Rightarrow> (case req_other r of Dest_null \<Rightarrow> Buf_null | Dest_rx b \<Rightarrow> Buf_other b
                 | Dest_obj _ \<Rightarrow> Buf_confused))"

text \<open>A write of bytes behind the data the request's buffer holds, which then holds \<open>n\<close> more.\<close>

definition put_bytes :: "rx_buffer \<Rightarrow> bytes \<Rightarrow> nat \<Rightarrow> rx_buffer option" where
  "put_bytes b bs n =
     (if rx_size b + length bs \<le> length (rx_data b)
      then Some (b\<lparr>rx_data := write_at (rx_data b) (rx_size b) bs, rx_size := rx_size b + n\<rparr>)
      else None)"

definition fill_buffer :: "nat \<Rightarrow> bytes \<Rightarrow> nat \<Rightarrow> 'o afp_server \<Rightarrow> 'o afp_server option" where
  "fill_buffer p bs n srv =
     (case srv_heap srv p of
        None \<Rightarrow> None
      | Some r \<Rightarrow>
          (case read_buffer r of
             Buf_stream b \<Rightarrow>
               map_option (\<lambda>b'. set_request p (r\<lparr>req_stream_buffer := Some b'\<rparr>) srv) (put_bytes b bs n)
           | Buf_other b \<Rightarrow>
               map_option (\<lambda>b'. set_request p (r\<lparr>req_other := Dest_rx b'\<rparr>) srv) (put_bytes b bs n)
           | _ \<Rightarrow> None))"

definition buffer_size :: "nat \<Rightarrow> 'o afp_server \<Rightarrow> nat" where
  "buffer_size p srv =
     (case srv_heap srv p of
        None \<Rightarrow> 0
      | Some r \<Rightarrow> (case read_buffer r of Buf_stream b \<Rightarrow> rx_size b | Buf_other b \<Rightarrow> rx_size b | _ \<Rightarrow> 0))"

text \<open>The end of a read reply: the header is done with, bytes behind it in the receive buffer move
  to its start.\<close>

definition finish_read :: "'o recv_env \<Rightarrow> 'o afp_server \<Rightarrow> label \<times> 'o afp_server" where
  "finish_read env srv =
     (let s = srv\<lparr>srv_stream_read := 0\<rparr>; size_to_copy = srv_data_read s - DSI_HEADER_SIZE in
      if size_to_copy = 0 then (L_out, s\<lparr>srv_data_read := 0\<rparr>)
      else if \<not> env_malloc env size_to_copy then (L_error, s)
      else (L_process_packet,
        s\<lparr>srv_incoming_buffer := write_at (srv_incoming_buffer s) 0
             (take size_to_copy (drop DSI_HEADER_SIZE (srv_incoming_buffer s))),
          srv_data_read := size_to_copy\<rparr>))"

definition recv_read_data ::
  "'o recv_env \<Rightarrow> 'o afp_server \<Rightarrow> nat \<Rightarrow> nat \<Rightarrow> rx_buffer \<Rightarrow> 'o event
     \<Rightarrow> (label \<times> 'o afp_server) option" where
  "recv_read_data env srv gen p b ev =
     (let announced = hdr_length (srv_header srv) in
      if rx_maxsize b = 0 then Some (L_return (-1), srv)
      else if announced < rx_size b \<or> announced > rx_maxsize b then Some (L_return (-1), srv)
      else case dsi_read srv gen (min (rx_maxsize b - rx_size b) (announced - rx_size b)) ev of
          (s, RR_replaced bs) \<Rightarrow> map_option (Pair (L_return 0)) (fill_buffer p bs 0 s)
        | (s, RR_error) \<Rightarrow> Some (L_return (-1), s)
        | (s, RR_eof) \<Rightarrow> Some (L_return (-1), s)
        | (s, RR_data bs) \<Rightarrow>
            (case fill_buffer p bs (length bs) s of
               None \<Rightarrow> None
             | Some s1 \<Rightarrow>
                 let s2 = (count_rx (length bs) s1)\<lparr>srv_stream_read := srv_stream_read s1 + length bs\<rparr> in
                 if hdr_length (srv_header s2) = buffer_size p s2 then Some (finish_read env s2)
                 else Some (L_return 0, s2)))"

definition recv_read_reply ::
  "'o recv_env \<Rightarrow> 'o afp_server \<Rightarrow> nat \<Rightarrow> nat \<Rightarrow> 'o dsi_request \<Rightarrow> 'o event
     \<Rightarrow> (label \<times> 'o afp_server) option" where
  "recv_read_reply env srv gen p r ev =
     (if srv_data_read srv = DSI_HEADER_SIZE \<and> hdr_length (srv_header srv) = 0
      then Some (L_out, srv\<lparr>srv_data_read := 0\<rparr>)
      else case read_buffer r of
          Buf_null \<Rightarrow> Some (L_return (-1), srv)
        | Buf_confused \<Rightarrow> None
        | Buf_stream b \<Rightarrow> recv_read_data env srv gen p b ev
        | Buf_other b \<Rightarrow> recv_read_data env srv gen p b ev)"

section \<open>Other frames\<close>

text \<open>The label reached, the request's result so far and the state.\<close>

definition recv_payload ::
  "'o afp_server \<Rightarrow> nat \<Rightarrow> bool \<Rightarrow> int \<Rightarrow> 'o event \<Rightarrow> (label \<times> int \<times> 'o afp_server) option" where
  "recv_payload srv gen runt result ev =
     (let payload_length = hdr_length (srv_header srv);
          payload_read = srv_data_read srv - DSI_HEADER_SIZE;
          complete = (if runt then L_after_processing else L_process_packet) in
      if srv_data_read srv = DSI_HEADER_SIZE \<and> payload_length = 0 then Some (complete, result, srv)
      else if srv_stream_read srv > 0 then
        Some (L_out, result,
          srv\<lparr>srv_discard_remaining := size_t_sub payload_length (srv_stream_read srv),
              srv_stream_read := 0, srv_data_read := 0\<rparr>)
      else if payload_length > srv_bufsize srv - DSI_HEADER_SIZE then
        (if payload_length > srv_quantum srv then Some (L_return (-1), result, srv)
         else Some (L_out, - EIO,
           srv\<lparr>srv_discard_remaining := size_t_sub payload_length payload_read, srv_data_read := 0\<rparr>))
      else if payload_read > payload_length then Some (L_error, result, srv)
      else if payload_length - payload_read = 0 then Some (L_process_packet, result, srv)
      else case dsi_read srv gen
                  (min (payload_length - payload_read) (srv_bufsize srv - srv_data_read srv)) ev of
          (s, RR_replaced bs) \<Rightarrow>
            map_option (\<lambda>s1. (L_return 0, result, s1)) (store_incoming (srv_data_read s) bs s)
        | (s, RR_error) \<Rightarrow> Some (L_return (-1), result, s)
        | (s, RR_eof) \<Rightarrow> Some (L_return (-1), result, s)
        | (s, RR_data bs) \<Rightarrow>
            (case store_incoming (srv_data_read s) bs s of
               None \<Rightarrow> None
             | Some s1 \<Rightarrow>
                 let s2 = (count_rx (length bs) s1)\<lparr>srv_data_read := srv_data_read s1 + length bs\<rparr> in
                 if srv_data_read s2 < hdr_length (srv_header s2) + DSI_HEADER_SIZE
                 then Some (L_return 0, result, s2) else Some (complete, result, s2)))"

section \<open>Processing a complete frame\<close>

text \<open>\<open>afpc_dsi_command_reply\<close>: for a read command it reads once more, into the command's own
  destination; then the command's reply parser runs on the receive buffer.\<close>

definition afp_reply_call ::
  "'o recv_env \<Rightarrow> nat option \<Rightarrow> nat \<Rightarrow> nat \<Rightarrow> 'o afp_server \<Rightarrow> (int \<times> 'o afp_server) option" where
  "afp_reply_call env handler subcommand p srv =
     (case srv_heap srv p of
        None \<Rightarrow> None
      | Some r \<Rightarrow>
          if srv_data_read srv > length (srv_incoming_buffer srv) then None
          else let (rc, oth) = env_reply env handler subcommand
                     (take (srv_data_read srv) (srv_incoming_buffer srv)) (req_other r)
               in Some (rc, set_request p (r\<lparr>req_other := oth\<rparr>) srv))"

definition command_reply ::
  "'o recv_env \<Rightarrow> nat \<Rightarrow> nat \<Rightarrow> 'o event \<Rightarrow> 'o afp_server \<Rightarrow> (int \<times> 'o afp_server) option" where
  "command_reply env subcommand p ev srv =
     (if srv_data_read srv < DSI_HEADER_SIZE then Some (-1, srv)
      else if subcommand = 0 then Some (-1, srv)
      else if subcommand = afpRead \<or> subcommand = afpReadExt then
        (case srv_heap srv p of
           None \<Rightarrow> None
         | Some r \<Rightarrow>
             (case req_other r of
                Dest_rx b \<Rightarrow>
                  (let s = apply_ops (fst ev) srv in
                   case snd ev of
                     Read_fail \<Rightarrow> Some (-1, s)
                   | Read_data bs0 \<Rightarrow>
                       (let bs = take (rx_maxsize b - rx_size b) bs0 in
                        if bs = [] then Some (-1, s)
                        else case srv_heap s p of
                            None \<Rightarrow> None
                          | Some r' \<Rightarrow>
                              (case put_bytes b bs 0 of
                                 None \<Rightarrow> None
                               | Some b' \<Rightarrow>
                                   afp_reply_call env None subcommand p
                                     ((count_rx (length bs)
                                        (set_request p (r'\<lparr>req_other := Dest_rx b'\<rparr>) s))
                                      \<lparr>srv_data_read := srv_data_read s + length bs\<rparr>))))
              | _ \<Rightarrow> None))
      else afp_reply_call env None subcommand p srv)"

text \<open>The code at \<open>process_packet\<close>; a request answered with an error keeps that over its
  parser's.\<close>

definition process_packet ::
  "'o recv_env \<Rightarrow> nat option \<Rightarrow> bool \<Rightarrow> int \<Rightarrow> 'o event \<Rightarrow> 'o afp_server
     \<Rightarrow> (label \<times> int \<times> 'o afp_server) option" where
  "process_packet env request runt result ev srv =
     (let c = hdr_command (srv_header srv) in
      if c = DSI_DSICloseSession then Some (L_after_processing, result, loop_disconnect srv)
      else if c = DSI_DSIGetStatus then
        map_option (\<lambda>s. (L_after_processing, result, s))
          (getstatus_reply (env_malloc env) (env_iconv env) srv)
      else if c = DSI_DSIOpenSession then
        map_option (\<lambda>s. (L_after_processing, result, s)) (opensession_reply srv)
      else if c = DSI_DSITickle then
        Some (L_after_processing, result, incoming_tickle (env_room env) (env_send env) srv)
      else if c = DSI_DSIWrite \<or> c = DSI_DSICommand then
        (if runt then Some (L_after_processing, result, srv)
         else case request of
             None \<Rightarrow> None
           | Some p \<Rightarrow>
               (case srv_heap srv p of
                  None \<Rightarrow> None
                | Some r \<Rightarrow>
                    (case (case req_reply_handler r of
                             Some h \<Rightarrow> afp_reply_call env (Some h) (req_subcommand r) p srv
                           | None \<Rightarrow> command_reply env (req_subcommand r) p ev srv) of
                       None \<Rightarrow> None
                     | Some (reply_result, s) \<Rightarrow>
                         Some (L_after_processing,
                           (if reply_result \<noteq> 0 \<and> result = 0 then reply_result else result), s))))
      else if c = DSI_DSIAttention then
        (if \<not> env_malloc env (DSI_HEADER_SIZE + srv_data_read srv) then Some (L_error, result, srv)
         else if srv_data_read srv > length (srv_incoming_buffer srv) then None
         else Some (L_after_processing, result,
           if env_thread env
           then srv\<lparr>srv_attentions := srv_attentions srv
                    @ [(srv_generation srv, take (srv_data_read srv) (srv_incoming_buffer srv))]\<rparr>
           else srv))
      else Some (L_error, result, srv))"

definition after_processing :: "'o afp_server \<Rightarrow> (label \<times> 'o afp_server) option" where
  "after_processing srv =
     (let len = hdr_length (srv_header srv); packet_size = u32 (len + DSI_HEADER_SIZE) in
      if srv_data_read srv = len + DSI_HEADER_SIZE then Some (L_out, srv\<lparr>srv_data_read := 0\<rparr>)
      else if srv_data_read srv < packet_size then Some (L_error, srv)
      else if srv_data_read srv > length (srv_incoming_buffer srv) then None
      else let size_to_copy = srv_data_read srv - packet_size in
        Some (L_out,
          srv\<lparr>srv_incoming_buffer := write_at (srv_incoming_buffer srv) 0
                 (take size_to_copy (drop packet_size (srv_incoming_buffer srv))),
              srv_data_read := size_to_copy\<rparr>))"

definition recv_out :: "nat option \<Rightarrow> int \<Rightarrow> 'o afp_server \<Rightarrow> (int \<times> 'o afp_server) option" where
  "recv_out request result srv =
     (case request of
        None \<Rightarrow> Some (0, srv)
      | Some p \<Rightarrow>
          (case srv_heap srv p of
             None \<Rightarrow> None
           | Some r \<Rightarrow> Some (0, set_request p (answer_request result r) srv)))"

section \<open>The receiver\<close>

definition finish_after :: "nat option \<Rightarrow> int \<Rightarrow> 'o afp_server \<Rightarrow> (int \<times> 'o afp_server) option" where
  "finish_after request result srv =
     (case after_processing srv of
        None \<Rightarrow> None
      | Some (L_out, s) \<Rightarrow> recv_out request result s
      | Some (_, s) \<Rightarrow> Some (-1, s))"

definition finish_process ::
  "'o recv_env \<Rightarrow> nat option \<Rightarrow> bool \<Rightarrow> int \<Rightarrow> 'o event \<Rightarrow> 'o afp_server \<Rightarrow> (int \<times> 'o afp_server) option" where
  "finish_process env request runt result ev srv =
     (case process_packet env request runt result ev srv of
        None \<Rightarrow> None
      | Some (L_after_processing, result', s) \<Rightarrow> finish_after request result' s
      | Some (_, _, s) \<Rightarrow> Some (-1, s))"

definition finish_label ::
  "'o recv_env \<Rightarrow> nat option \<Rightarrow> bool \<Rightarrow> 'o event \<Rightarrow> (label \<times> int \<times> 'o afp_server) option
     \<Rightarrow> (int \<times> 'o afp_server) option" where
  "finish_label env request runt ev st =
     (case st of
        None \<Rightarrow> None
      | Some (l, result, s) \<Rightarrow>
          (case l of
             L_return rc \<Rightarrow> Some (rc, s)
           | L_gotenough \<Rightarrow> Some (-1, s)
           | L_process_packet \<Rightarrow> finish_process env request runt result ev s
           | L_after_processing \<Rightarrow> finish_after request result s
           | L_out \<Rightarrow> recv_out request result s
           | L_error \<Rightarrow> Some (-1, s)))"

text \<open>From the label \<open>gotenough\<close>: the result, the request held and the state.\<close>

definition recv_gotenough ::
  "'o recv_env \<Rightarrow> 'o afp_server \<Rightarrow> nat \<Rightarrow> 'o event \<Rightarrow> 'o event
     \<Rightarrow> (int \<times> nat option \<times> 'o afp_server) option" where
  "recv_gotenough env srv gen ev ev2 =
     (let h = srv_header srv in
      if hdr_flags h \<noteq> DSI_REQUEST \<and> hdr_flags h \<noteq> DSI_REPLY \<or> \<not> command_is_defined (hdr_command h)
      then Some (-1, None, srv)
      else case match_request srv of
        (request, found, runt, s) \<Rightarrow>
          map_option (\<lambda>(rc, s'). (rc, found, s'))
            (case request of
               None \<Rightarrow> finish_label env None runt ev2 (recv_payload s gen runt 0 ev)
             | Some p \<Rightarrow>
                 let result = s32 (hdr_error_code h) in
                 (case srv_heap s p of
                    None \<Rightarrow> None
                  | Some r \<Rightarrow>
                      if req_subcommand r = afpRead \<or> req_subcommand r = afpReadExt
                      then finish_label env (Some p) runt ev2
                             (map_option (\<lambda>(l, s'). (l, result, s')) (recv_read_reply env s gen p r ev))
                      else finish_label env (Some p) runt ev2 (recv_payload s gen runt result ev))))"

definition recv_frame ::
  "'o recv_env \<Rightarrow> 'o afp_server \<Rightarrow> nat \<Rightarrow> 'o event \<Rightarrow> 'o event
     \<Rightarrow> (int \<times> nat option \<times> 'o afp_server) option" where
  "recv_frame env srv gen ev ev2 =
     (if srv_discard_remaining srv > 0 then
        map_option (\<lambda>(rc, s). (rc, None, s)) (recv_discard srv gen ev)
      else if srv_data_read srv < DSI_HEADER_SIZE then
        (case recv_header srv gen ev of
           None \<Rightarrow> None
         | Some (L_gotenough, s) \<Rightarrow> recv_gotenough env s gen ev ev2
         | Some (L_return rc, s) \<Rightarrow> Some (rc, None, s)
         | Some (_, s) \<Rightarrow> Some (-1, None, s))
      else recv_gotenough env srv gen ev ev2)"

definition dsi_recv ::
  "'o recv_env \<Rightarrow> 'o afp_server \<Rightarrow> 'o event \<Rightarrow> 'o event \<Rightarrow> (int \<times> 'o afp_server) option" where
  "dsi_recv env srv ev ev2 =
     (let gen = srv_generation srv in
      if srv_fd srv < 0 then Some (0, srv)
      else
        let s = (if srv_rx_generation srv \<noteq> gen
                 then srv\<lparr>srv_data_read := 0, srv_discard_remaining := 0, srv_stream_read := 0,
                          srv_rx_generation := gen\<rparr>
                 else srv)
        in case recv_frame env s gen ev ev2 of
             None \<Rightarrow> None
           | Some (rc, found, s') \<Rightarrow>
               Some (rc, case found of None \<Rightarrow> s' | Some p \<Rightarrow> release_request p s'))"

text \<open>One server's share of \<open>process_server_fds\<close> in \<open>lib/loop.c\<close>: a stream that ended or lost its
  framing disconnects the server.\<close>

definition serve_ready ::
  "'o recv_env \<Rightarrow> 'o afp_server \<Rightarrow> 'o event \<Rightarrow> 'o event \<Rightarrow> 'o afp_server option" where
  "serve_ready env srv ev ev2 =
     (if (srv_connect_state srv = STATE_CONNECTED \<or> srv_connect_state srv = STATE_CONNECTING)
         \<and> srv_fd srv \<ge> 0
      then (case dsi_recv env srv ev ev2 of
              None \<Rightarrow> None
            | Some (rc, s) \<Rightarrow> Some (if rc = -1 then loop_disconnect s else s))
      else Some srv)"

end
