(* ===== verification/Dsi_Safety.thy ===== *)
theory Dsi_Safety
  imports Dsi_Recv
begin

text \<open>
  Memory safety of the receiver of \<open>Dsi_Recv\<close>: an invariant of the receive buffer, the queue and
  the destinations of pending reads that every receive call keeps, whatever bytes arrive, in
  whatever pieces, and whatever other threads do while a read blocks.  One condition on the
  state remains, \<open>no_clash\<close>; a state that breaks it overruns the receive buffer.
\<close>

section \<open>The receive invariant\<close>

definition reads :: "'o dsi_request \<Rightarrow> bool" where
  "reads r \<longleftrightarrow> req_subcommand r = afpRead \<or> req_subcommand r = afpReadExt"

definition wf_rx :: "rx_buffer \<Rightarrow> bool" where
  "wf_rx b \<longleftrightarrow> rx_size b \<le> rx_maxsize b \<and> rx_maxsize b \<le> length (rx_data b)"

definition wf_request :: "'o dsi_request \<Rightarrow> bool" where
  "wf_request r \<longleftrightarrow> (reads r \<longrightarrow>
     (case read_buffer r of Buf_null \<Rightarrow> True | Buf_stream b \<Rightarrow> wf_rx b | Buf_other b \<Rightarrow> wf_rx b
      | Buf_confused \<Rightarrow> False))"

definition wf_requests :: "'o afp_server \<Rightarrow> bool" where
  "wf_requests s \<longleftrightarrow> (\<forall>p r. srv_heap s p = Some r \<longrightarrow> wf_request r)"

definition recv_inv :: "'o afp_server \<Rightarrow> bool" where
  "recv_inv s \<longleftrightarrow> queue_inv s \<and> wf_requests s \<and> wf_status (srv_status s)
     \<and> length (srv_incoming_buffer s) = AFP_BUFSIZE \<and> srv_bufsize s = AFP_BUFSIZE
     \<and> srv_data_read s \<le> AFP_BUFSIZE"

text \<open>The requests the receiver holds.\<close>

definition held :: "'o afp_server \<Rightarrow> nat set" where
  "held s = {p. \<exists>r. srv_heap s p = Some r \<and> req_receiving r}"

text \<open>A step of another thread queues reads with sound buffers only.\<close>

definition wf_op :: "'o queue_op \<Rightarrow> bool" where
  "wf_op op \<longleftrightarrow> (case op of
     Op_enqueue p i w sc oth h st \<Rightarrow> \<forall>s. wf_request (new_request s i w sc oth h st)
   | _ \<Rightarrow> True)"

definition wf_event :: "'o event \<Rightarrow> bool" where
  "wf_event ev \<longleftrightarrow> list_all wf_op (fst ev)"

section \<open>Steps of other threads\<close>

lemma request_reads_cong:
  assumes "req_subcommand r' = req_subcommand r" "req_other r' = req_other r"
    "req_stream_buffer r' = req_stream_buffer r"
  shows "reads r' = reads r" "read_buffer r' = read_buffer r" "wf_request r' = wf_request r"
proof -
  show r: "reads r' = reads r" using assms by (simp add: reads_def)
  show b: "read_buffer r' = read_buffer r" unfolding read_buffer_def assms ..
  show "wf_request r' = wf_request r" unfolding wf_request_def r b ..
qed

lemma same_request_reads:
  assumes "same_request r r'"
  shows "reads r' = reads r" "read_buffer r' = read_buffer r" "wf_request r' = wf_request r"
  using request_reads_cong [of r' r] assms by (simp_all add: same_request_def)

lemma upd_request_None [simp]: "srv_heap (upd_request p f s) q = None \<longleftrightarrow> srv_heap s q = None"
  by (simp add: upd_request_heap)

lemma flush_loop_None [simp]: "srv_heap (flush_loop ps s) q = None \<longleftrightarrow> srv_heap s q = None"
  by (induction ps arbitrary: s) simp_all

lemma fail_loop_None [simp]: "srv_heap (fail_loop e ps s) q = None \<longleftrightarrow> srv_heap s q = None"
  by (induction ps arbitrary: s) simp_all

lemma loop_disconnect_None [simp]: "srv_heap (loop_disconnect s) q = None \<longleftrightarrow> srv_heap s q = None"
  by (simp add: loop_disconnect_def fail_request_queue_def Let_def)

lemma apply_op_fresh:
  assumes "srv_heap s p = None" "srv_heap (apply_op op s) p = Some r" "wf_op op"
  shows "wf_request r \<and> \<not> req_receiving r"
proof (cases op)
  case (Op_enqueue q i w sc oth h st)
  then show ?thesis
    using assms by (auto simp: apply_op_def wf_op_def enqueue_request_def upd_stats_def set_request_def
        new_request_def split: if_splits)
next
  case (Op_remove q)
  then show ?thesis
    using assms by (auto simp: apply_op_def remove_from_request_queue_def free_request_def
        split: option.splits if_splits)
next
  case Op_flush
  then have "srv_heap (apply_op op s) p = None"
    using assms(1) by (simp add: apply_op_def flush_request_queue_def)
  then show ?thesis using assms by simp
next
  case (Op_fail e)
  then have "srv_heap (apply_op op s) p = None"
    using assms(1) by (simp add: apply_op_def fail_request_queue_def)
  then show ?thesis using assms by simp
next
  case Op_disconnect
  then have "srv_heap (apply_op op s) p = None" using assms(1) by (simp add: apply_op_def)
  then show ?thesis using assms by simp
next
  case (Op_deadline now q)
  then have "srv_heap (apply_op op s) p = None" using assms(1) by (simp add: apply_op_def set_deadline_def)
  then show ?thesis using assms by simp
qed (use assms in \<open>auto simp: apply_op_def server_connect_def setup_header_def Let_def
    split: option.splits if_splits\<close>)

lemma apply_op_wf_requests:
  assumes "wf_requests s" "wf_op op"
  shows "wf_requests (apply_op op s)"
  unfolding wf_requests_def
proof (intro allI impI)
  fix p r assume r: "srv_heap (apply_op op s) p = Some r"
  show "wf_request r"
  proof (cases "srv_heap s p")
    case None
    then show ?thesis using apply_op_fresh r assms(2) by blast
  next
    case (Some r0)
    then have "same_request r0 r" using rely_op [of s op] r unfolding rely_def by fastforce
    then show ?thesis using assms(1) Some same_request_reads(3) unfolding wf_requests_def by blast
  qed
qed

lemma apply_op_held:
  assumes "wf_op op"
  shows "held (apply_op op s) = held s"
proof -
  have "(\<exists>r. srv_heap (apply_op op s) p = Some r \<and> req_receiving r) \<longleftrightarrow>
      (\<exists>r. srv_heap s p = Some r \<and> req_receiving r)" for p
  proof (cases "srv_heap s p")
    case None
    then show ?thesis using apply_op_fresh assms by fastforce
  next
    case (Some r0)
    then show ?thesis using rely_op [of s op] unfolding rely_def same_request_def by fastforce
  qed
  then show ?thesis by (simp add: held_def)
qed

lemma loop_status [simp]:
  "srv_status (upd_request p f s) = srv_status s" "srv_status (count_removed s) = srv_status s"
  by (simp_all add: upd_request_def set_request_def count_removed_def upd_stats_def split: option.splits)

lemma loops_status [simp]:
  "srv_status (flush_loop ps s) = srv_status s" "srv_status (fail_loop e ps s) = srv_status s"
  by (induction ps arbitrary: s) simp_all

lemma apply_op_status: "srv_status (apply_op op s) = srv_status s"
  by (cases op) (simp_all add: apply_op_def enqueue_request_def upd_stats_def set_request_def
      set_deadline_def remove_from_request_queue_def free_request_def flush_request_queue_def
      fail_request_queue_def loop_disconnect_def server_connect_def setup_header_def Let_def
      split: option.splits)

lemma apply_op_recv_inv: "recv_inv s \<Longrightarrow> wf_op op \<Longrightarrow> recv_inv (apply_op op s)"
  using rely_op [of s op] apply_op_wf_requests [of s op]
  by (simp add: recv_inv_def rely_def apply_op_status)

lemma apply_ops_safe:
  assumes "recv_inv s" "list_all wf_op ops"
  shows "recv_inv (apply_ops ops s) \<and> held (apply_ops ops s) = held s"
  using assms by (induction ops arbitrary: s) (simp_all add: apply_op_recv_inv apply_op_held)

section \<open>Steps of the receiver\<close>

text \<open>A step of the receiver is sound when it keeps the invariant and the requests held.\<close>

definition sound :: "'o afp_server \<Rightarrow> 'o afp_server \<Rightarrow> bool" where
  "sound s s' \<longleftrightarrow> recv_inv s' \<and> held s' = held s"

lemma sound_trans: "sound a b \<Longrightarrow> sound b c \<Longrightarrow> sound a c"
  by (simp add: sound_def)

lemma sound_refl: "recv_inv s \<Longrightarrow> sound s s"
  by (simp add: sound_def)

text \<open>Changes outside the queue, the status and the buffer are sound.\<close>

definition same_core :: "'o afp_server \<Rightarrow> 'o afp_server \<Rightarrow> bool" where
  "same_core s s' \<longleftrightarrow> srv_queue s' = srv_queue s \<and> srv_heap s' = srv_heap s
     \<and> st_requests_pending (srv_stats s') = st_requests_pending (srv_stats s)
     \<and> wf_status (srv_status s') \<and> srv_bufsize s' = srv_bufsize s
     \<and> length (srv_incoming_buffer s') = length (srv_incoming_buffer s)"

lemma sound_same_core:
  assumes "recv_inv s" "same_core s s'" "srv_data_read s' \<le> AFP_BUFSIZE"
  shows "sound s s'"
  using assms by (simp add: sound_def recv_inv_def same_core_def queue_inv_def wf_requests_def held_def)

lemma sound_upd_request:
  assumes "recv_inv s" "\<And>r. srv_heap s p = Some r \<Longrightarrow> wf_request (f r) \<and> req_receiving (f r) = req_receiving r"
    "\<And>r. req_ignore_replies (f r) = req_ignore_replies r"
  shows "sound s (upd_request p f s)"
proof -
  have "held (upd_request p f s) = held s"
    unfolding held_def using assms(2) by (auto simp: upd_request_heap split: if_splits)
  moreover have "wf_requests (upd_request p f s)"
    using assms(1,2) unfolding wf_requests_def recv_inv_def
    by (auto simp: upd_request_heap split: if_splits)
  ultimately show ?thesis
    using assms(1,3) queue_inv_upd_request [of s f p] by (simp add: sound_def recv_inv_def)
qed

lemma set_request_upd: "srv_heap s p = Some r \<Longrightarrow> set_request p (f r) s = upd_request p f s"
  by (simp add: upd_request_def)

lemma dsi_read_sound:
  assumes "recv_inv s" "wf_event ev" "dsi_read s gen len ev = (s', rr)"
  shows "sound s s' \<and> rely_held s s' \<and>
    (case rr of RR_replaced bs \<Rightarrow> length bs \<le> len | RR_data bs \<Rightarrow> length bs \<le> len | _ \<Rightarrow> True)"
proof -
  have "s' = apply_ops (fst ev) s"
    using assms(3) by (auto simp: dsi_read_def Let_def split: if_splits read_outcome.splits)
  then have "sound s s' \<and> rely_held s s'"
    using apply_ops_safe [of s "fst ev"] apply_ops_held [of s "fst ev"] assms(1,2)
    by (simp add: sound_def wf_event_def)
  then show ?thesis
    using assms(3) by (auto simp: dsi_read_def Let_def split: if_splits read_outcome.splits)
qed

lemma store_incoming_sound:
  assumes "recv_inv s" "off + length bs \<le> AFP_BUFSIZE"
  shows "\<exists>b. store_incoming off bs s = Some (s\<lparr>srv_incoming_buffer := b\<rparr>) \<and> length b = AFP_BUFSIZE
    \<and> take off b = take off (srv_incoming_buffer s)"
proof -
  have l: "length (srv_incoming_buffer s) = AFP_BUFSIZE" using assms(1) by (simp add: recv_inv_def)
  let ?b = "write_at (srv_incoming_buffer s) off bs"
  have "store_incoming off bs s = Some (s\<lparr>srv_incoming_buffer := ?b\<rparr>)"
    using assms(2) l by (simp add: store_incoming_def)
  moreover have "length ?b = AFP_BUFSIZE" using assms(2) l by simp
  moreover have "take off ?b = take off (srv_incoming_buffer s)"
    by (rule take_write_at) (use assms(2) l in simp_all)
  ultimately show ?thesis by blast
qed

lemma recv_discard_sound:
  assumes "recv_inv s" "wf_event ev"
  shows "\<exists>rc s'. recv_discard s gen ev = Some (rc, s') \<and> sound s s'"
proof -
  obtain t rr where d: "dsi_read s gen (min (srv_discard_remaining s) (srv_bufsize s)) ev = (t, rr)"
    by fastforce
  note r = dsi_read_sound [OF assms d]
  have t: "recv_inv t" and b: "srv_bufsize s = AFP_BUFSIZE" "wf_status (srv_status t)"
    "srv_data_read t \<le> AFP_BUFSIZE"
    using r assms(1) by (auto simp: sound_def recv_inv_def)
  have l: "length (srv_incoming_buffer t) = AFP_BUFSIZE" using t by (simp add: recv_inv_def)
  show ?thesis
  proof (cases rr)
    case (RR_replaced bs)
    then obtain b' where b': "store_incoming 0 bs t = Some (t\<lparr>srv_incoming_buffer := b'\<rparr>)" "length b' = AFP_BUFSIZE"
      using store_incoming_sound [OF t, of 0 bs] r b by auto
    have "sound t (t\<lparr>srv_incoming_buffer := b'\<rparr>)"
      by (rule sound_same_core [OF t]) (use b b' l in \<open>simp_all add: same_core_def\<close>)
    then have "sound s (t\<lparr>srv_incoming_buffer := b'\<rparr>)" using r sound_trans by blast
    then show ?thesis using RR_replaced d b' by (simp add: recv_discard_def)
  next
    case (RR_data bs)
    then obtain b' where b': "store_incoming 0 bs t = Some (t\<lparr>srv_incoming_buffer := b'\<rparr>)" "length b' = AFP_BUFSIZE"
      using store_incoming_sound [OF t, of 0 bs] r b by auto
    let ?u = "(count_rx (length bs) (t\<lparr>srv_incoming_buffer := b'\<rparr>))
      \<lparr>srv_discard_remaining := size_t_sub (srv_discard_remaining t) (length bs)\<rparr>"
    have "sound t ?u"
      by (rule sound_same_core [OF t]) (use b b' l in \<open>simp_all add: same_core_def count_rx_def upd_stats_def\<close>)
    then have "sound s ?u" using r sound_trans by blast
    then show ?thesis using RR_data d b' by (simp add: recv_discard_def)
  qed (use d r in \<open>auto simp: recv_discard_def\<close>)
qed

lemma recv_header_sound:
  assumes "recv_inv s" "wf_event ev" "srv_data_read s < 16"
  shows "\<exists>l s'. recv_header s gen ev = Some (l, s') \<and> sound s s' \<and>
    (l = L_gotenough \<and> srv_data_read s' = 16 \<or> (\<exists>rc. l = L_return rc))"
proof -
  obtain t rr where d: "dsi_read s gen (DSI_HEADER_SIZE - srv_data_read s) ev = (t, rr)"
    by fastforce
  note r = dsi_read_sound [OF assms(1,2) d]
  have t: "recv_inv t" and dr: "srv_data_read t = srv_data_read s"
    using r by (auto simp: sound_def rely_held_def)
  have l: "length (srv_incoming_buffer t) = AFP_BUFSIZE" "wf_status (srv_status t)"
    using t by (simp_all add: recv_inv_def)
  show ?thesis
  proof (cases rr)
    case (RR_replaced bs)
    then have le: "srv_data_read t + length bs \<le> AFP_BUFSIZE" using r dr assms(3) by auto
    from store_incoming_sound [OF t this] obtain b'
      where b': "store_incoming (srv_data_read t) bs t = Some (t\<lparr>srv_incoming_buffer := b'\<rparr>)"
      "length b' = AFP_BUFSIZE" by auto
    have "sound t (t\<lparr>srv_incoming_buffer := b'\<rparr>)"
      by (rule sound_same_core [OF t]) (use b' l dr assms(3) in \<open>simp_all add: same_core_def\<close>)
    then have "sound s (t\<lparr>srv_incoming_buffer := b'\<rparr>)" using r sound_trans by blast
    then show ?thesis using RR_replaced d b' by (simp add: recv_header_def)
  next
    case (RR_data bs)
    then have le: "srv_data_read t + length bs \<le> AFP_BUFSIZE" using r dr assms(3) by auto
    from store_incoming_sound [OF t this] obtain b'
      where b': "store_incoming (srv_data_read t) bs t = Some (t\<lparr>srv_incoming_buffer := b'\<rparr>)"
      "length b' = AFP_BUFSIZE" by auto
    let ?u = "(count_rx (length bs) (t\<lparr>srv_incoming_buffer := b'\<rparr>))
      \<lparr>srv_data_read := srv_data_read t + length bs\<rparr>"
    have "sound t ?u"
      by (rule sound_same_core [OF t])
        (use b' l le in \<open>simp_all add: same_core_def count_rx_def upd_stats_def\<close>)
    then have "sound s ?u" using r sound_trans by blast
    then show ?thesis using RR_data d b' by (auto simp: recv_header_def Let_def count_rx_def upd_stats_def)
  qed (use d r in \<open>auto simp: recv_header_def\<close>)
qed

section \<open>Matching\<close>

text \<open>A frame that is being received past its header does not answer a read: the receiver of a
  read reply takes the bytes behind the header for another frame.\<close>

definition no_clash :: "'o afp_server \<Rightarrow> bool" where
  "no_clash s \<longleftrightarrow>
     (srv_data_read s > DSI_HEADER_SIZE \<and> hdr_flags (srv_header s) = DSI_REPLY \<longrightarrow>
       (case first_awaiting (srv_heap s) (hdr_requestid (srv_header s)) (srv_queue s) of
          None \<Rightarrow> True
        | Some p \<Rightarrow>
            (case srv_heap s p of None \<Rightarrow> True | Some r \<Rightarrow> req_generation r = srv_generation s \<longrightarrow> \<not> reads r)))"

lemma first_awaiting_Some:
  "first_awaiting h i ps = Some p \<Longrightarrow> p \<in> set ps \<and> (\<exists>r. h p = Some r \<and> awaits i r)"
  by (induction ps) (auto split: option.splits if_splits)

text \<open>What the receive state keeps across a step that touches requests and counters only.\<close>

definition same_recv :: "'o afp_server \<Rightarrow> 'o afp_server \<Rightarrow> bool" where
  "same_recv s s' \<longleftrightarrow> srv_incoming_buffer s' = srv_incoming_buffer s \<and> srv_data_read s' = srv_data_read s
     \<and> srv_discard_remaining s' = srv_discard_remaining s \<and> srv_stream_read s' = srv_stream_read s
     \<and> srv_generation s' = srv_generation s"

lemma wf_request_receiving [simp]: "wf_request (r\<lparr>req_receiving := v\<rparr>) = wf_request r"
  by (rule request_reads_cong) simp_all

lemma recv_inv_hold:
  assumes "recv_inv s"
  shows "recv_inv (upd_request p (\<lambda>r. r\<lparr>req_receiving := v\<rparr>) s)"
proof -
  have "wf_requests (upd_request p (\<lambda>r. r\<lparr>req_receiving := v\<rparr>) s)"
    using assms unfolding wf_requests_def recv_inv_def
    by (auto simp: upd_request_heap split: if_splits)
  then show ?thesis
    using assms queue_inv_upd_request [of s "\<lambda>r. r\<lparr>req_receiving := v\<rparr>" p] by (simp add: recv_inv_def)
qed

lemma held_hold:
  assumes "srv_heap s p \<noteq> None"
  shows "held (upd_request p (\<lambda>r. r\<lparr>req_receiving := v\<rparr>) s) = (if v then insert p (held s) else held s - {p})"
  using assms by (auto simp: held_def upd_request_heap split: if_splits)

lemma recv_inv_runt:
  "recv_inv s \<Longrightarrow> recv_inv (count_runt s)" "held (count_runt s) = held s" "same_recv s (count_runt s)"
  "srv_heap (count_runt s) = srv_heap s"
  by (simp_all add: recv_inv_def count_runt_def upd_stats_def queue_inv_def wf_requests_def held_def
      same_recv_def)

lemma find_request_sound:
  assumes "recv_inv s" "find_request s i = (fo, t)"
  shows "recv_inv t \<and> same_recv s t \<and> held t = held s \<union> set_option fo \<and>
    (\<forall>p. fo = Some p \<longrightarrow> first_awaiting (srv_heap s) i (srv_queue s) = Some p
      \<and> (\<exists>r. srv_heap s p = Some r \<and> srv_heap t p = Some (r\<lparr>req_receiving := True\<rparr>)))"
proof (cases "first_awaiting (srv_heap s) i (srv_queue s)")
  case None
  then show ?thesis using assms by (simp add: find_request_def same_recv_def)
next
  case (Some p)
  obtain r where r: "srv_heap s p = Some r" using first_awaiting_Some [OF Some] by blast
  have t: "t = upd_request p (\<lambda>r. r\<lparr>req_receiving := True\<rparr>) s" "fo = Some p"
    using assms(2) Some by (simp_all add: find_request_def)
  then show ?thesis
    using recv_inv_hold [OF assms(1), of p True] held_hold [of s p True] r Some
    by (simp add: same_recv_def upd_request_heap)
qed

definition frame_matches ::
  "'o afp_server \<Rightarrow> nat option \<Rightarrow> nat option \<Rightarrow> bool \<Rightarrow> 'o afp_server \<Rightarrow> bool" where
  "frame_matches s request found runt t \<longleftrightarrow>
     recv_inv t \<and> same_recv s t \<and> held t = held s \<union> set_option found
     \<and> (\<forall>p. request = Some p \<longrightarrow> found = Some p \<and> \<not> runt \<and> (\<exists>r. srv_heap t p = Some r \<and> req_receiving r
            \<and> (no_clash s \<and> srv_data_read s > DSI_HEADER_SIZE \<longrightarrow> \<not> reads r)))
     \<and> (request = None \<and> \<not> runt \<longrightarrow> hdr_command (srv_header s) \<in> {DSI_DSICloseSession, DSI_DSITickle, DSI_DSIAttention})"

lemma match_request_sound:
  assumes "recv_inv s" "match_request s = (request, found, runt, t)"
  shows "frame_matches s request found runt t"
proof (cases "hdr_flags (srv_header s) = DSI_REPLY")
  case False
  then show ?thesis
    using assms recv_inv_runt [of s]
    by (auto simp: match_request_def Let_def frame_matches_def same_recv_def split: if_splits)
next
  case True
  obtain fo u where f: "find_request s (hdr_requestid (srv_header s)) = (fo, u)" by fastforce
  note fs = find_request_sound [OF assms(1) f]
  show ?thesis
  proof (cases fo)
    case None
    then have "request = None" "found = None" "runt" "t = count_runt u"
      using assms(2) True f by (simp_all add: match_request_def Let_def)
    then show ?thesis
      using fs None recv_inv_runt [of u] by (simp add: frame_matches_def same_recv_def)
  next
    case (Some p)
    with fs obtain r where r: "first_awaiting (srv_heap s) (hdr_requestid (srv_header s)) (srv_queue s) = Some p"
      "srv_heap s p = Some r" "srv_heap u p = Some (r\<lparr>req_receiving := True\<rparr>)" by blast
    have nc: "no_clash s \<and> srv_data_read s > DSI_HEADER_SIZE \<and> req_generation r = srv_generation s \<longrightarrow> \<not> reads r"
      using True r by (simp add: no_clash_def)
    have g: "srv_generation u = srv_generation s" using fs by (simp add: same_recv_def)
    show ?thesis
    proof (cases "req_generation r = srv_generation s")
      case True
      then have "request = Some p" "found = Some p" "\<not> runt" "t = u"
        using assms(2) \<open>hdr_flags _ = _\<close> f Some r g by (auto simp: match_request_def Let_def)
      then show ?thesis using fs Some r nc True by (simp add: frame_matches_def reads_def)
    next
      case False
      then have "request = None" "found = Some p" "runt" "t = count_runt u"
        using assms(2) \<open>hdr_flags _ = _\<close> f Some r g by (auto simp: match_request_def Let_def)
      then show ?thesis
        using fs Some recv_inv_runt [of u] by (simp add: frame_matches_def same_recv_def)
    qed
  qed
qed

section \<open>Read replies\<close>

lemma put_bytes_wf:
  assumes "wf_rx b" "rx_size b + length bs \<le> rx_maxsize b" "n \<le> length bs"
  shows "\<exists>b'. put_bytes b bs n = Some b' \<and> wf_rx b'"
  using assms by (simp add: put_bytes_def wf_rx_def)

text \<open>The buffer a read reply streams into.\<close>

definition streams_into :: "'o dsi_request \<Rightarrow> rx_buffer \<Rightarrow> bool" where
  "streams_into r b \<longleftrightarrow> read_buffer r = Buf_stream b \<or> read_buffer r = Buf_other b"

lemma streams_into_wf: "wf_request r \<Longrightarrow> reads r \<Longrightarrow> streams_into r b \<Longrightarrow> wf_rx b"
  by (auto simp: wf_request_def streams_into_def)

lemma fill_buffer_sound:
  assumes "recv_inv t" "srv_heap t p = Some r" "streams_into r b" "wf_rx b"
    "rx_size b + length bs \<le> rx_maxsize b" "n \<le> length bs"
  shows "\<exists>f. fill_buffer p bs n t = Some (upd_request p f t) \<and> sound t (upd_request p f t)"
proof -
  obtain b' where b': "put_bytes b bs n = Some b'" "wf_rx b'" using put_bytes_wf assms(4-6) by blast
  define f where "f = (\<lambda>_ :: 'a dsi_request.
    if read_buffer r = Buf_stream b then r\<lparr>req_stream_buffer := Some b'\<rparr> else r\<lparr>req_other := Dest_rx b'\<rparr>)"
  have n: "req_stream_buffer r = None" if "read_buffer r = Buf_other b"
    using that by (auto simp: read_buffer_def split: option.splits)
  have w: "wf_request (f r)" "req_receiving (f r) = req_receiving r"
    using b' assms(3) n by (auto simp: f_def wf_request_def read_buffer_def streams_into_def)
  have i: "req_ignore_replies (f r) = req_ignore_replies r" by (simp add: f_def)
  have "fill_buffer p bs n t = Some (set_request p (f r) t)"
    using assms(2,3) b' by (auto simp: fill_buffer_def streams_into_def f_def)
  moreover have "set_request p (f r) t = upd_request p (\<lambda>x. if x = r then f r else x) t"
    using assms(2) by (simp add: upd_request_def)
  moreover have "sound t (upd_request p (\<lambda>x. if x = r then f r else x) t)"
    by (rule sound_upd_request) (use assms(1,2) w i in \<open>auto split: if_splits\<close>)
  ultimately show ?thesis by metis
qed

lemma recv_read_data_sound:
  assumes s: "recv_inv s" "wf_event ev" "srv_data_read s = DSI_HEADER_SIZE"
    and r: "srv_heap s p = Some r" "req_receiving r" "reads r" "streams_into r b"
  shows "\<exists>l s'. recv_read_data env s gen p b ev = Some (l, s') \<and> sound s s' \<and>
    (l = L_out \<or> (\<exists>rc. l = L_return rc))"
proof (cases "rx_maxsize b = 0 \<or> hdr_length (srv_header s) < rx_size b \<or> hdr_length (srv_header s) > rx_maxsize b")
  case True
  then show ?thesis using s sound_refl by (auto simp: recv_read_data_def Let_def)
next
  case False
  let ?n = "min (rx_maxsize b - rx_size b) (hdr_length (srv_header s) - rx_size b)"
  obtain t rr where d: "dsi_read s gen ?n ev = (t, rr)" by fastforce
  note dr = dsi_read_sound [OF s(1,2) d]
  have wf: "wf_rx b" using streams_into_wf r s(1) unfolding recv_inv_def wf_requests_def by blast
  obtain r' where r': "srv_heap t p = Some r'" "same_request r r'"
    using dr r unfolding rely_held_def by blast
  have st: "streams_into r' b" using r(4) same_request_reads(2) [OF r'(2)] by (simp add: streams_into_def)
  have t: "recv_inv t" "srv_data_read t = DSI_HEADER_SIZE" using dr s(3) by (auto simp: sound_def rely_held_def)
  have fill: "\<exists>f. fill_buffer p bs n t = Some (upd_request p f t) \<and> sound t (upd_request p f t)"
    if "length bs \<le> ?n" "n \<le> length bs" for bs n
    by (rule fill_buffer_sound [OF t(1) r'(1) st wf]) (use that wf in \<open>auto simp: wf_rx_def\<close>)
  show ?thesis
  proof (cases rr)
    case (RR_replaced bs)
    then obtain f where "fill_buffer p bs 0 t = Some (upd_request p f t)" "sound t (upd_request p f t)"
      using fill [of bs 0] dr by auto
    then show ?thesis
      using RR_replaced False d dr sound_trans by (fastforce simp: recv_read_data_def Let_def)
  next
    case (RR_data bs)
    then obtain f where f: "fill_buffer p bs (length bs) t = Some (upd_request p f t)" "sound t (upd_request p f t)"
      using fill [of bs "length bs"] dr by auto
    define u where "u = (count_rx (length bs) (upd_request p f t))\<lparr>srv_stream_read := srv_stream_read t + length bs\<rparr>"
    have u: "recv_inv (upd_request p f t)" using f by (simp add: sound_def)
    have "sound (upd_request p f t) u"
      by (rule sound_same_core [OF u])
        (use u t in \<open>simp_all add: u_def same_core_def count_rx_def upd_stats_def recv_inv_def\<close>)
    then have su: "sound s u" using dr f sound_trans by blast
    have du: "srv_data_read u = DSI_HEADER_SIZE" using t by (simp add: u_def count_rx_def upd_stats_def)
    have "sound u (u\<lparr>srv_stream_read := 0, srv_data_read := 0\<rparr>)"
      by (rule sound_same_core) (use su in \<open>simp_all add: sound_def recv_inv_def same_core_def\<close>)
    then have "sound s (u\<lparr>srv_stream_read := 0, srv_data_read := 0\<rparr>)" using su sound_trans by blast
    moreover have "finish_read env u = (L_out, u\<lparr>srv_stream_read := 0, srv_data_read := 0\<rparr>)"
      using du by (simp add: finish_read_def Let_def)
    ultimately show ?thesis
      using RR_data False d f su by (simp add: recv_read_data_def Let_def u_def [symmetric])
  qed (use False d dr in \<open>auto simp: recv_read_data_def Let_def\<close>)
qed

lemma recv_read_reply_sound:
  assumes s: "recv_inv s" "wf_event ev" "srv_data_read s = DSI_HEADER_SIZE"
    and r: "srv_heap s p = Some r" "req_receiving r" "reads r"
  shows "\<exists>l s'. recv_read_reply env s gen p r ev = Some (l, s') \<and> sound s s' \<and>
    (l = L_out \<or> (\<exists>rc. l = L_return rc))"
proof (cases "hdr_length (srv_header s) = 0")
  case True
  have "sound s (s\<lparr>srv_data_read := 0\<rparr>)"
    by (rule sound_same_core [OF s(1)]) (use s(1) in \<open>simp_all add: recv_inv_def same_core_def\<close>)
  then show ?thesis using True s(3) by (simp add: recv_read_reply_def)
next
  case False
  have "wf_request r" using r(1) s(1) unfolding recv_inv_def wf_requests_def by blast
  then have "read_buffer r \<noteq> Buf_confused" using r(3) by (auto simp: wf_request_def)
  then show ?thesis
    using False recv_read_data_sound [OF s r] sound_refl [OF s(1)]
    by (cases "read_buffer r") (auto simp: recv_read_reply_def streams_into_def)
qed

section \<open>Other frames\<close>

definition keeps_held :: "'o afp_server \<Rightarrow> 'o afp_server \<Rightarrow> bool" where
  "keeps_held s s' \<longleftrightarrow> (\<forall>p r. srv_heap s p = Some r \<longrightarrow> req_receiving r \<longrightarrow>
     (\<exists>r'. srv_heap s' p = Some r' \<and> same_request r r'))"

lemma keeps_held_same: "srv_heap s' = srv_heap s \<Longrightarrow> keeps_held s s'"
  by (simp add: keeps_held_def)

lemma recv_payload_sound:
  assumes s: "recv_inv s" "wf_event ev" "DSI_HEADER_SIZE \<le> srv_data_read s"
  shows "\<exists>l res s'. recv_payload s gen runt result ev = Some (l, res, s') \<and> sound s s' \<and>
    hdr_command (srv_header s') = hdr_command (srv_header s) \<and> keeps_held s s'"
proof -
  let ?len = "hdr_length (srv_header s)" and ?read = "srv_data_read s - DSI_HEADER_SIZE"
  have drop: "sound s (s\<lparr>srv_discard_remaining := a, srv_stream_read := b, srv_data_read := 0\<rparr>)"
    "sound s (s\<lparr>srv_discard_remaining := a, srv_data_read := 0\<rparr>)" for a b
    by (rule sound_same_core [OF s(1)]; use s(1) in \<open>simp add: recv_inv_def same_core_def\<close>)+
  consider (early) "srv_data_read s = DSI_HEADER_SIZE \<and> ?len = 0 \<or> srv_stream_read s > 0
      \<or> ?len > srv_bufsize s - DSI_HEADER_SIZE \<or> ?read \<ge> ?len"
    | (go) "\<not> (srv_data_read s = DSI_HEADER_SIZE \<and> ?len = 0)" "\<not> srv_stream_read s > 0"
      "\<not> ?len > srv_bufsize s - DSI_HEADER_SIZE" "?read < ?len" by linarith
  then show ?thesis
  proof cases
    case early
    then show ?thesis
      using sound_refl [OF s(1)] drop by (auto simp: recv_payload_def Let_def intro!: keeps_held_same)
  next
    case go
    let ?n = "min (?len - ?read) (srv_bufsize s - srv_data_read s)"
    obtain t rr where d: "dsi_read s gen ?n ev = (t, rr)" by fastforce
    note dr = dsi_read_sound [OF s(1,2) d]
    have t: "recv_inv t" "srv_data_read t = srv_data_read s" "srv_incoming_buffer t = srv_incoming_buffer s"
      using dr by (auto simp: sound_def rely_held_def)
    have k: "keeps_held s t'" if "srv_heap t' = srv_heap t" for t'
      using dr that by (simp add: keeps_held_def rely_held_def)
    have store: "\<exists>b. store_incoming (srv_data_read t) bs t = Some (t\<lparr>srv_incoming_buffer := b\<rparr>) \<and>
        length b = AFP_BUFSIZE \<and> header_of b = header_of (srv_incoming_buffer s) \<and>
        srv_data_read t + length bs \<le> AFP_BUFSIZE"
      if "length bs \<le> ?n" for bs
    proof -
      have le: "srv_data_read t + length bs \<le> AFP_BUFSIZE"
        using that t(2) s(1) unfolding recv_inv_def by linarith
      obtain b where b: "store_incoming (srv_data_read t) bs t = Some (t\<lparr>srv_incoming_buffer := b\<rparr>)"
        "length b = AFP_BUFSIZE" "take (srv_data_read t) b = take (srv_data_read t) (srv_incoming_buffer t)"
        using store_incoming_sound [OF t(1) le] by blast
      have "take 16 (take (srv_data_read t) b) = take 16 (take (srv_data_read t) (srv_incoming_buffer t))"
        using b(3) by simp
      then have "header_of b = header_of (srv_incoming_buffer s)"
        using s(3) t by (intro header_of_cong) (simp add: min_def)
      then show ?thesis using b le by blast
    qed
    show ?thesis
    proof (cases rr)
      case (RR_replaced bs)
      then obtain b where b: "store_incoming (srv_data_read t) bs t = Some (t\<lparr>srv_incoming_buffer := b\<rparr>)"
        "length b = AFP_BUFSIZE" "header_of b = header_of (srv_incoming_buffer s)" using store dr by auto
      have "sound t (t\<lparr>srv_incoming_buffer := b\<rparr>)"
        by (rule sound_same_core [OF t(1)]) (use t(1) b in \<open>simp_all add: recv_inv_def same_core_def\<close>)
      then have "sound s (t\<lparr>srv_incoming_buffer := b\<rparr>)" using dr sound_trans by blast
      then show ?thesis using RR_replaced go d b k by (auto simp: recv_payload_def Let_def)
    next
      case (RR_data bs)
      then obtain b where b: "store_incoming (srv_data_read t) bs t = Some (t\<lparr>srv_incoming_buffer := b\<rparr>)"
        "length b = AFP_BUFSIZE" "header_of b = header_of (srv_incoming_buffer s)"
        "srv_data_read t + length bs \<le> AFP_BUFSIZE" using store dr by auto
      define u where "u = (count_rx (length bs) (t\<lparr>srv_incoming_buffer := b\<rparr>))
        \<lparr>srv_data_read := srv_data_read t + length bs\<rparr>"
      have "sound t u"
        by (rule sound_same_core [OF t(1)])
          (use t(1) b in \<open>simp_all add: u_def recv_inv_def same_core_def count_rx_def upd_stats_def\<close>)
      then have "sound s u" using dr sound_trans by blast
      moreover have "header_of (srv_incoming_buffer u) = header_of (srv_incoming_buffer s)"
        using b by (simp add: u_def count_rx_def upd_stats_def)
      moreover have "recv_payload s gen runt result ev =
          (if srv_data_read u < hdr_length (srv_header u) + DSI_HEADER_SIZE then Some (L_return 0, result, u)
           else Some (if runt then L_after_processing else L_process_packet, result, u))"
        using RR_data go d b by (simp add: recv_payload_def Let_def u_def count_rx_def upd_stats_def)
      moreover have "keeps_held s u" by (rule k) (simp add: u_def count_rx_def upd_stats_def)
      ultimately show ?thesis by simp
    qed (use go d dr t k in \<open>auto simp: recv_payload_def Let_def\<close>)
  qed
qed

section \<open>Processing\<close>

text \<open>The state the labels behind a complete frame start from: a held request that is no read, a
  frame to be dropped, or a request of the server.\<close>

definition processable :: "nat option \<Rightarrow> bool \<Rightarrow> 'o afp_server \<Rightarrow> bool" where
  "processable request runt s \<longleftrightarrow>
     (case request of
        Some p \<Rightarrow> \<exists>r. srv_heap s p = Some r \<and> req_receiving r \<and> \<not> reads r
      | None \<Rightarrow> runt \<or> hdr_command (srv_header s) \<in> {DSI_DSICloseSession, DSI_DSITickle, DSI_DSIAttention})"

lemma held_heap: "p \<in> held s \<Longrightarrow> \<exists>r. srv_heap s p = Some r \<and> req_receiving r"
  by (simp add: held_def)

lemma sound_disconnect: "recv_inv s \<Longrightarrow> sound s (loop_disconnect s)"
  using apply_op_recv_inv [of s Op_disconnect] apply_op_held [of Op_disconnect s]
  by (simp add: sound_def apply_op_def wf_op_def)

lemma write_frame_core:
  "recv_inv s \<Longrightarrow> same_core s (snd (write_frame s m c rs)) \<and> srv_data_read (snd (write_frame s m c rs)) = srv_data_read s"
  by (simp add: write_frame_def same_core_def upd_stats_def count_frame_def Let_def recv_inv_def
      split: prod.splits)

lemma sound_tickle: "recv_inv s \<Longrightarrow> sound s (incoming_tickle room rs s)"
proof -
  assume s: "recv_inv s"
  define t where "t = snd (setup_header s DSI_DSITickle)"
  have t: "sound s t"
    by (rule sound_same_core [OF s]) (use s in \<open>simp_all add: t_def setup_header_def Let_def same_core_def recv_inv_def\<close>)
  then have "sound t (snd (write_frame t m c rs))" for m c
    using write_frame_core [of t m c rs] by (intro sound_same_core) (auto simp: sound_def recv_inv_def)
  then have "sound s (snd (write_frame t m c rs))" for m c using t sound_trans by blast
  then show ?thesis
    using sound_refl [OF s]
    by (auto simp: incoming_tickle_def tickle_unless_busy_def t_def split: prod.splits)
qed

lemma afp_reply_call_sound:
  assumes "recv_inv s" "srv_heap s p = Some r" "\<not> reads r"
  shows "\<exists>rc s'. afp_reply_call env h sc p s = Some (rc, s') \<and> sound s s'"
proof -
  obtain rc oth where e: "env_reply env h sc (take (srv_data_read s) (srv_incoming_buffer s)) (req_other r) = (rc, oth)"
    by fastforce
  have "afp_reply_call env h sc p s = Some (rc, upd_request p (\<lambda>r. r\<lparr>req_other := oth\<rparr>) s)"
    using assms(1,2) e by (simp add: afp_reply_call_def recv_inv_def upd_request_def)
  moreover have "sound s (upd_request p (\<lambda>r. r\<lparr>req_other := oth\<rparr>) s)"
    by (rule sound_upd_request) (use assms in \<open>simp_all add: wf_request_def reads_def\<close>)
  ultimately show ?thesis by blast
qed

lemma command_reply_sound:
  assumes "recv_inv s" "srv_heap s p = Some r" "\<not> reads r" "req_subcommand r = sc"
  shows "\<exists>rc s'. command_reply env sc p ev s = Some (rc, s') \<and> sound s s'"
  using afp_reply_call_sound [OF assms(1-3)] sound_refl [OF assms(1)] assms(3,4)
  by (auto simp: command_reply_def reads_def)

lemma opensession_reply_sound:
  assumes "recv_inv s"
  shows "\<exists>s'. opensession_reply s = Some s' \<and> sound s s'"
proof -
  have "srv_data_read s \<le> length (srv_incoming_buffer s)" using assms by (simp add: recv_inv_def)
  then obtain q c where l: "opensession_loop (srv_incoming_buffer s) (srv_data_read s) 16 0 None = Some (q, c)"
    using opensession_loop_safe [of "srv_data_read s" "srv_incoming_buffer s" 0 16 None] by auto
  define s' where "s' = (the (opensession_reply s))"
  have s': "opensession_reply s = Some s'" "same_core s s'" "srv_data_read s' = srv_data_read s"
    using l assms
    by (auto simp: s'_def opensession_reply_def Let_def same_core_def recv_inv_def split: option.splits)
  then have "sound s s'" using assms by (intro sound_same_core) (auto simp: recv_inv_def)
  then show ?thesis using s' by blast
qed

lemma getstatus_reply_sound:
  assumes "recv_inv s"
  shows "\<exists>s'. getstatus_reply m ic s = Some s' \<and> sound s s'"
proof -
  have "wf_status (srv_status s)" "length (srv_incoming_buffer s) = AFP_BUFSIZE"
    using assms by (simp_all add: recv_inv_def)
  from getstatus_reply_in_buffer [OF this, of m ic] obtain s' where
    s': "getstatus_reply m ic s = Some s'" "wf_status (srv_status s')" "s' = s\<lparr>srv_status := srv_status s'\<rparr>"
    by blast
  have "sound s (s\<lparr>srv_status := srv_status s'\<rparr>)"
    by (rule sound_same_core [OF assms]) (use assms s'(2) in \<open>simp_all add: same_core_def recv_inv_def\<close>)
  then show ?thesis using s' by metis
qed

lemma process_packet_sound:
  assumes s: "recv_inv s" "processable request runt s"
  shows "\<exists>l res s'. process_packet env request runt result ev s = Some (l, res, s') \<and> sound s s'"
proof -
  let ?c = "hdr_command (srv_header s)"
  have len: "srv_data_read s \<le> length (srv_incoming_buffer s)" using s(1) by (simp add: recv_inv_def)
  consider "?c = DSI_DSICloseSession" | "?c = DSI_DSIGetStatus" | "?c = DSI_DSIOpenSession" | "?c = DSI_DSITickle"
    | (cmd) "?c = DSI_DSIWrite \<or> ?c = DSI_DSICommand" | (att) "?c = DSI_DSIAttention"
    | (other) "?c \<notin> {1, 2, 3, 4, 5, 6, 8}" by auto
  then show ?thesis
  proof cases
    case cmd
    show ?thesis
    proof (cases "runt")
      case True
      then show ?thesis using cmd sound_refl [OF s(1)] by (auto simp: process_packet_def Let_def)
    next
      case False
      then obtain p r where r: "request = Some p" "srv_heap s p = Some r" "\<not> reads r"
        using s(2) cmd by (auto simp: processable_def split: option.splits)
      obtain rc s' where "(case req_reply_handler r of
          Some h \<Rightarrow> afp_reply_call env (Some h) (req_subcommand r) p s
        | None \<Rightarrow> command_reply env (req_subcommand r) p ev s) = Some (rc, s')" "sound s s'"
        using afp_reply_call_sound [OF s(1) r(2,3)] command_reply_sound [OF s(1) r(2,3) refl]
        by (cases "req_reply_handler r") fastforce+
      then show ?thesis using cmd False r by (auto simp: process_packet_def Let_def)
    qed
  next
    case att
    have "sound s (s\<lparr>srv_attentions := a\<rparr>)" for a
      by (rule sound_same_core [OF s(1)]) (use s(1) in \<open>simp_all add: same_core_def recv_inv_def\<close>)
    then show ?thesis
      using att len sound_refl [OF s(1)] by (auto simp: process_packet_def Let_def)
  next
    case other
    then show ?thesis using sound_refl [OF s(1)] by (auto simp: process_packet_def Let_def)
  qed (use sound_disconnect [OF s(1)] getstatus_reply_sound [OF s(1), of "env_malloc env" "env_iconv env"]
      opensession_reply_sound [OF s(1)] sound_tickle [OF s(1)] in \<open>auto simp: process_packet_def Let_def\<close>)
qed

lemma after_processing_sound:
  assumes "recv_inv s"
  shows "\<exists>l s'. after_processing s = Some (l, s') \<and> sound s s'"
proof -
  let ?len = "hdr_length (srv_header s)"
  let ?pk = "u32 (?len + DSI_HEADER_SIZE)"
  have le: "srv_data_read s \<le> length (srv_incoming_buffer s)" using assms by (simp add: recv_inv_def)
  have d: "sound s (s\<lparr>srv_incoming_buffer := b, srv_data_read := n\<rparr>)" "sound s (s\<lparr>srv_data_read := 0\<rparr>)"
    if "length b = length (srv_incoming_buffer s)" "n \<le> AFP_BUFSIZE" for b n
    by (rule sound_same_core [OF assms]; use assms that in \<open>simp add: same_core_def recv_inv_def\<close>)+
  have "length (write_at (srv_incoming_buffer s) 0
      (take (srv_data_read s - ?pk) (drop ?pk (srv_incoming_buffer s)))) = length (srv_incoming_buffer s)"
    using le by (intro length_write_at) simp
  moreover have "srv_data_read s - ?pk \<le> AFP_BUFSIZE" using assms unfolding recv_inv_def by linarith
  ultimately show ?thesis
    using d le sound_refl [OF assms] by (auto simp: after_processing_def Let_def)
qed

lemma answer_request_sound:
  assumes "recv_inv s"
  shows "sound s (upd_request p (answer_request result) s)"
proof (rule sound_upd_request [OF assms])
  fix r assume "srv_heap s p = Some r"
  then have "wf_request r" using assms unfolding recv_inv_def wf_requests_def by blast
  moreover have "wf_request (answer_request result r) = wf_request r"
    by (rule request_reads_cong) (simp_all add: answer_request_def)
  ultimately show "wf_request (answer_request result r) \<and> req_receiving (answer_request result r) = req_receiving r"
    by (simp add: answer_request_def)
qed (simp add: answer_request_def)

lemma recv_out_sound:
  assumes "recv_inv s" "set_option request \<subseteq> held s"
  shows "\<exists>s'. recv_out request result s = Some (0, s') \<and> sound s s'"
proof (cases request)
  case None
  then show ?thesis using sound_refl [OF assms(1)] by (simp add: recv_out_def)
next
  case (Some p)
  then obtain r where "srv_heap s p = Some r" using assms(2) held_heap [of p s] by auto
  then show ?thesis
    using Some answer_request_sound [OF assms(1)] set_request_upd [of s p r "answer_request result"]
    by (simp add: recv_out_def)
qed

lemma finish_after_sound:
  assumes "recv_inv s" "set_option request \<subseteq> held s"
  shows "\<exists>rc s'. finish_after request result s = Some (rc, s') \<and> sound s s'"
proof -
  obtain l t where t: "after_processing s = Some (l, t)" "sound s t"
    using after_processing_sound [OF assms(1)] by blast
  then obtain s' where "recv_out request result t = Some (0, s')" "sound t s'"
    using recv_out_sound [of t request result] assms(2) by (auto simp: sound_def)
  then show ?thesis using t sound_trans [of s t s'] by (cases l) (auto simp: finish_after_def)
qed

lemma finish_process_sound:
  assumes "recv_inv s" "processable request runt s" "set_option request \<subseteq> held s"
  shows "\<exists>rc s'. finish_process env request runt result ev s = Some (rc, s') \<and> sound s s'"
proof -
  obtain l res t where t: "process_packet env request runt result ev s = Some (l, res, t)" "sound s t"
    using process_packet_sound [OF assms(1,2)] by blast
  then obtain rc s' where "finish_after request res t = Some (rc, s')" "sound t s'"
    using finish_after_sound [of t request res] assms(3) by (auto simp: sound_def)
  then show ?thesis using t sound_trans [of s t s'] by (cases l) (auto simp: finish_process_def)
qed

lemma finish_label_sound:
  assumes "recv_inv s" "set_option request \<subseteq> held s"
    "l = L_process_packet \<Longrightarrow> processable request runt s"
  shows "\<exists>rc s'. finish_label env request runt ev (Some (l, result, s)) = Some (rc, s') \<and> sound s s'"
proof (cases l)
  case L_process_packet
  then show ?thesis using finish_process_sound [OF assms(1) _ assms(2)] assms(3) by (simp add: finish_label_def)
next
  case L_after_processing
  then show ?thesis using finish_after_sound [OF assms(1,2)] by (simp add: finish_label_def)
next
  case L_out
  then show ?thesis using recv_out_sound [OF assms(1,2), of result] by (auto simp: finish_label_def)
qed (use sound_refl [OF assms(1)] in \<open>auto simp: finish_label_def\<close>)

section \<open>The whole receiver\<close>

lemma recv_gotenough_sound:
  assumes s: "recv_inv s" "wf_event ev" "wf_event ev2" "DSI_HEADER_SIZE \<le> srv_data_read s" "no_clash s"
  shows "\<exists>rc found s'. recv_gotenough env s gen ev ev2 = Some (rc, found, s') \<and> recv_inv s' \<and>
    held s' = held s \<union> set_option found"
proof -
  obtain request found runt t where m: "match_request s = (request, found, runt, t)" by (metis prod_cases4)
  note f = match_request_sound [OF s(1) m, unfolded frame_matches_def]
  have t: "recv_inv t" "DSI_HEADER_SIZE \<le> srv_data_read t" "srv_incoming_buffer t = srv_incoming_buffer s"
    "held t = held s \<union> set_option found" "srv_data_read t = srv_data_read s"
    using f s(4) by (auto simp: same_recv_def)
  have payload: "\<exists>rc s'. finish_label env request runt ev2 (recv_payload t gen runt result ev) = Some (rc, s') \<and> sound t s'"
    if p: "processable request runt t" for result
  proof -
    obtain l res u where u: "recv_payload t gen runt result ev = Some (l, res, u)" "sound t u"
      "hdr_command (srv_header u) = hdr_command (srv_header t)" "keeps_held t u"
      using recv_payload_sound [OF t(1) s(2) t(2)] by blast
    have "processable request runt u"
    proof (cases request)
      case (Some p)
      then obtain r where "srv_heap t p = Some r" "req_receiving r" "\<not> reads r"
        using p by (auto simp: processable_def)
      then obtain r' where "srv_heap u p = Some r'" "same_request r r'" using u(4) unfolding keeps_held_def by blast
      then show ?thesis
        using Some \<open>req_receiving r\<close> \<open>\<not> reads r\<close> same_request_reads(1) [of r r']
        by (auto simp: processable_def same_request_def)
    qed (use p u(3) in \<open>simp add: processable_def\<close>)
    moreover have "set_option request \<subseteq> held u" using f u(2) t(4) by (cases request) (auto simp: sound_def)
    ultimately obtain rc s' where "finish_label env request runt ev2 (Some (l, res, u)) = Some (rc, s')" "sound u s'"
      using finish_label_sound [of u request l runt env ev2 res] u(2) by (auto simp: sound_def)
    then show ?thesis using u sound_trans by metis
  qed
  have "\<exists>rc s'. recv_gotenough env s gen ev ev2 = Some (rc, found, s') \<and> sound t s'
      \<or> recv_gotenough env s gen ev ev2 = Some (-1, None, s)"
  proof (cases request)
    case None
    then have "processable request runt t" using f t(3) by (auto simp: processable_def)
    then show ?thesis using payload [of 0] m None by (auto simp: recv_gotenough_def Let_def)
  next
    case (Some p)
    then obtain r where r: "srv_heap t p = Some r" "req_receiving r" "found = Some p"
      "srv_data_read s > DSI_HEADER_SIZE \<longrightarrow> \<not> reads r" using f s(5) by auto
    let ?res = "s32 (hdr_error_code (srv_header s))"
    show ?thesis
    proof (cases "reads r")
      case True
      then have d: "srv_data_read t = DSI_HEADER_SIZE" using r t s(4) by auto
      obtain l u where u: "recv_read_reply env t gen p r ev = Some (l, u)" "sound t u"
        "l = L_out \<or> (\<exists>rc. l = L_return rc)"
        using recv_read_reply_sound [OF t(1) s(2) d r(1,2) True] by blast
      then obtain rc s' where "finish_label env request runt ev2 (Some (l, ?res, u)) = Some (rc, s')" "sound u s'"
        using finish_label_sound [of u request l runt env ev2 ?res] t(4) Some r(3) by (auto simp: sound_def)
      then show ?thesis
        using u True Some r m sound_trans [of t u s']
        by (auto simp: recv_gotenough_def Let_def reads_def)
    next
      case False
      then have "processable request runt t" using Some r by (auto simp: processable_def)
      then show ?thesis
        using payload [of ?res] m Some r False by (auto simp: recv_gotenough_def Let_def reads_def)
    qed
  qed
  then show ?thesis using t(4) s(1) by (fastforce simp: sound_def)
qed

lemma no_clash_header: "srv_data_read s \<le> DSI_HEADER_SIZE \<Longrightarrow> no_clash s"
  by (simp add: no_clash_def)

lemma recv_frame_sound:
  assumes s: "recv_inv s" "wf_event ev" "wf_event ev2" "no_clash s"
  shows "\<exists>rc found s'. recv_frame env s gen ev ev2 = Some (rc, found, s') \<and> recv_inv s' \<and>
    held s' = held s \<union> set_option found"
proof (cases "srv_discard_remaining s > 0")
  case True
  then show ?thesis using recv_discard_sound [OF s(1,2), of gen] by (auto simp: recv_frame_def sound_def)
next
  case False
  show ?thesis
  proof (cases "srv_data_read s < DSI_HEADER_SIZE")
    case True
    obtain l t where t: "recv_header s gen ev = Some (l, t)" "sound s t"
      "l = L_gotenough \<and> srv_data_read t = 16 \<or> (\<exists>rc. l = L_return rc)"
      using recv_header_sound [OF s(1,2) True] by blast
    show ?thesis
    proof (cases "l = L_gotenough")
      case l: True
      then have d: "srv_data_read t = 16" "recv_inv t" using t by (auto simp: sound_def)
      then obtain rc found s' where "recv_gotenough env t gen ev ev2 = Some (rc, found, s')" "recv_inv s'"
        "held s' = held t \<union> set_option found"
        using recv_gotenough_sound [of t ev ev2 env gen] s(2,3) no_clash_header [of t] by auto
      then show ?thesis using t l True \<open>\<not> srv_discard_remaining s > 0\<close> by (auto simp: recv_frame_def sound_def)
    next
      case False
      then show ?thesis using t True \<open>\<not> srv_discard_remaining s > 0\<close> by (auto simp: recv_frame_def sound_def)
    qed
  next
    case False
    then show ?thesis
      using recv_gotenough_sound [OF s(1-3) _ s(4), of env gen] \<open>\<not> srv_discard_remaining s > 0\<close>
      by (simp add: recv_frame_def)
  qed
qed

text \<open>A connection replaced since the last call starts the receive state afresh, so that only a
  stream continued by the call can clash.\<close>

lemma dsi_recv_sound:
  assumes s: "recv_inv s" "wf_event ev" "wf_event ev2"
    "srv_rx_generation s = srv_generation s \<longrightarrow> no_clash s" "held s = {}"
  shows "\<exists>rc s'. dsi_recv env s ev ev2 = Some (rc, s') \<and> recv_inv s' \<and> held s' = {}"
proof (cases "srv_fd s < 0")
  case True
  then show ?thesis using s by (simp add: dsi_recv_def Let_def)
next
  case False
  define t where "t = (if srv_rx_generation s \<noteq> srv_generation s
     then s\<lparr>srv_data_read := 0, srv_discard_remaining := 0, srv_stream_read := 0,
            srv_rx_generation := srv_generation s\<rparr> else s)"
  have "sound s t"
    by (rule sound_same_core [OF s(1)]) (use s(1) in \<open>simp_all add: t_def same_core_def recv_inv_def\<close>)
  then have t: "recv_inv t" "held t = {}" using s(5) by (simp_all add: sound_def)
  have "no_clash t" using s(4) by (simp add: t_def no_clash_def)
  then obtain rc found u where u: "recv_frame env t (srv_generation s) ev ev2 = Some (rc, found, u)"
    "recv_inv u" "held u = set_option found"
    using recv_frame_sound [OF t(1) s(2,3), of env "srv_generation s"] t(2) by auto
  then have "dsi_recv env s ev ev2 = Some (rc, case found of None \<Rightarrow> u | Some p \<Rightarrow> release_request p u)"
    using False by (simp add: dsi_recv_def Let_def t_def)
  moreover have "recv_inv (release_request p u)" for p
    unfolding release_request_def by (rule recv_inv_hold [OF u(2)])
  moreover have "held (release_request p u) = {}" if "found = Some p" for p
    using held_hold [of u p False] u(3) that held_heap [of p u] by (auto simp: release_request_def)
  ultimately show ?thesis using u by (cases found) auto
qed

text \<open>A client whose reply handlers accept every frame, with memory and a quiet connection.\<close>

definition plain_env :: "'o recv_env" where
  "plain_env = \<lparr>env_reply = (\<lambda>_ _ _ oth. (0, oth)), env_malloc = (\<lambda>_. True), env_iconv = (\<lambda>_. None),
     env_thread = True, env_room = False, env_send = []\<rparr>"

end
