(* ===== verification/Dsi_Clash.thy ===== *)
theory Dsi_Clash
  imports Dsi_Safety
begin

text \<open>
  The receiver's memory safety as a property of one service of a ready descriptor, and a session of
  three receive calls that shows its condition is needed: a server that knows the next request's
  identifier, 1, announces a reply to it of 131056 bytes, sends all but one of them before the client
  queues a read under that identifier, and then 131256 bytes more.
\<close>

definition clash_header :: "nat \<Rightarrow> dsi_header" where
  "clash_header len = \<lparr>hdr_flags = DSI_REPLY, hdr_command = DSI_DSICommand, hdr_requestid = 1,
     hdr_error_code = 0, hdr_length = len, hdr_reserved = 0\<rparr>"

definition clash_session :: "nat afp_server" where
  "clash_session = (server_init AFP_BUFSIZE)\<lparr>srv_fd := 3, srv_connect_state := STATE_CONNECTED\<rparr>"

definition clash_buffer :: rx_buffer where
  "clash_buffer = \<lparr>rx_data = replicate 131256 0, rx_maxsize = 131256, rx_size = 0, rx_errorcode = 0\<rparr>"

definition clash_read :: "nat queue_op" where
  "clash_read = Op_enqueue 7 1 DSI_DEFAULT_TIMEOUT afpRead (Dest_rx clash_buffer) None None"

definition clash_payload :: bytes where
  "clash_payload = encode_header (clash_header 0) @ replicate 131039 0"

lemma length_clash_payload [simp]: "length clash_payload = 131055"
  by (simp add: clash_payload_def)

lemma wf_clash_header [simp]: "len < 2 ^ 32 \<Longrightarrow> wf_header (clash_header len)"
  by (simp add: wf_header_def clash_header_def)

lemma encode_header_nonempty [simp]: "encode_header h \<noteq> []"
  by (simp add: encode_header_def)

lemma write_at_here: "length a = n \<Longrightarrow> length b = m \<Longrightarrow> length c = m \<Longrightarrow> write_at (a @ b @ d) n c = a @ c @ d"
  by (simp add: write_at_def)

definition clash1 :: "nat afp_server" where
  "clash1 = (count_rx 16 (clash_session\<lparr>srv_incoming_buffer :=
     encode_header (clash_header 131056) @ replicate 131056 0\<rparr>))\<lparr>srv_data_read := 16\<rparr>"

definition clash2 :: "nat afp_server" where
  "clash2 = (count_rx 131055 ((apply_op clash_read (count_runt clash1))\<lparr>srv_incoming_buffer :=
     encode_header (clash_header 131056) @ clash_payload @ [0]\<rparr>))\<lparr>srv_data_read := 131071\<rparr>"

lemma replicate_split: "n \<le> m \<Longrightarrow> replicate m x = replicate n x @ replicate (m - n) x"
  by (metis le_add_diff_inverse replicate_add)

lemma clash_step1:
  "dsi_recv env clash_session ([], Read_data (encode_header (clash_header 131056))) e = Some (0, clash1)"
proof -
  have b: "write_at (replicate 131072 0) 0 (encode_header (clash_header 131056)) =
      encode_header (clash_header 131056) @ replicate 131056 0"
    by (simp add: write_at_def)
  have h: "header_of (encode_header (clash_header 131056) @ replicate 131056 0) = clash_header 131056"
    by (rule header_of_encode) simp
  show ?thesis
    unfolding dsi_recv_def recv_frame_def recv_header_def
    by (simp add: clash_session_def server_init_def dsi_read_def Let_def store_incoming_def b h
        count_rx_def upd_stats_def clash1_def) (simp add: clash_header_def)
qed


lemma clash_buffer1: "srv_header clash1 = clash_header 131056"
  unfolding clash1_def by (simp add: count_rx_def upd_stats_def header_of_encode)

lemma clash_step2:
  "dsi_recv env clash1 ([clash_read], Read_data clash_payload) e = Some (0, clash2)"
proof -
  let ?h = "encode_header (clash_header 131056)"
  have r: "replicate 131056 0 = replicate 131055 0 @ [0 :: byte]"
    using replicate_split [of 131055 131056 "0 :: byte"] by simp
  have b: "write_at (?h @ replicate 131056 0) 16 clash_payload = ?h @ clash_payload @ [0]"
    unfolding r by (rule write_at_here) simp_all
  have h: "header_of (?h @ clash_payload @ [0]) = clash_header 131056"
    by (rule header_of_encode) simp
  have f: "hdr_flags (clash_header n) = 1" "hdr_command (clash_header n) = 2" "hdr_requestid (clash_header n) = 1"
    "hdr_length (clash_header n) = n" for n by (simp_all add: clash_header_def)
  let ?t = "count_runt clash1"
  have t: "srv_data_read ?t = 16" "srv_incoming_buffer ?t = ?h @ replicate 131056 0" "srv_generation ?t = 0"
    "srv_bufsize ?t = 131072" "srv_stream_read ?t = 0" "srv_heap ?t = (\<lambda>_. None)" "srv_fd clash1 = 3"
    "srv_rx_generation clash1 = 0" "srv_generation clash1 = 0" "srv_discard_remaining clash1 = 0" "srv_data_read clash1 = 16"
    by (simp_all add: clash1_def clash_session_def server_init_def count_rx_def count_runt_def upd_stats_def)
  have m: "match_request clash1 = (None, None, True, ?t)"
    unfolding match_request_def clash_buffer1 find_request_def
    by (simp add: f clash1_def clash_session_def server_init_def count_rx_def upd_stats_def)
  have a: "srv_generation (apply_op clash_read ?t) = 0" "srv_incoming_buffer (apply_op clash_read ?t) = ?h @ replicate 131056 0"
    "srv_data_read (apply_op clash_read ?t) = 16"
    using t by (simp_all add: apply_op_def clash_read_def enqueue_request_def upd_stats_def set_request_def)
  have d: "dsi_read ?t 0 131056 ([clash_read], Read_data clash_payload) = (apply_op clash_read ?t, RR_data clash_payload)"
    using a by (simp add: dsi_read_def Let_def clash_payload_def)
  have p: "recv_payload ?t 0 True 0 ([clash_read], Read_data clash_payload) = Some (L_return 0, 0, clash2)"
    using t a d b h by (simp add: recv_payload_def Let_def header_of_encode f store_incoming_def
        count_rx_def upd_stats_def clash2_def)
  have g: "recv_gotenough env clash1 0 ([clash_read], Read_data clash_payload) e = Some (0, None, clash2)"
    unfolding recv_gotenough_def clash_buffer1 m
    by (simp add: f command_is_defined_def p finish_label_def Let_def)
  show ?thesis unfolding dsi_recv_def recv_frame_def using t g by (simp add: Let_def)
qed


definition clash_request :: "nat dsi_request" where
  "clash_request = (new_request clash1 1 DSI_DEFAULT_TIMEOUT afpRead (Dest_rx clash_buffer) None None)
     \<lparr>req_receiving := True\<rparr>"

lemma clash_request_simps [simp]:
  "req_subcommand clash_request = 27" "req_other clash_request = Dest_rx clash_buffer"
  "req_stream_buffer clash_request = None" "req_reply_handler clash_request = None"
  "req_generation clash_request = 0" "read_buffer clash_request = Buf_other clash_buffer"
  by (simp_all add: clash_request_def new_request_def read_buffer_def clash1_def clash_session_def
      server_init_def count_rx_def upd_stats_def)

lemma clash_header_simps [simp]:
  "hdr_flags (clash_header n) = Suc 0" "hdr_command (clash_header n) = 2" "hdr_requestid (clash_header n) = Suc 0"
  "hdr_length (clash_header n) = n" "hdr_error_code (clash_header n) = 0"
  by (simp_all add: clash_header_def)

lemma clash2_simps:
  "srv_data_read clash2 = 131071" "srv_generation clash2 = 0" "srv_fd clash2 = 3" "srv_rx_generation clash2 = 0"
  "srv_incoming_buffer clash2 = encode_header (clash_header 131056) @ clash_payload @ [0]"
  "srv_discard_remaining clash2 = 0" "srv_queue clash2 = [7]"
  "srv_heap clash2 = [7 \<mapsto> clash_request\<lparr>req_receiving := False\<rparr>]"
  by (simp_all add: clash2_def clash1_def clash_session_def server_init_def count_rx_def count_runt_def
      upd_stats_def apply_op_def clash_read_def enqueue_request_def set_request_def new_request_def clash_request_def)

lemma clash_buffer2: "header_of (encode_header (clash_header 131056) @ clash_payload @ [0]) = clash_header 131056"
  by (rule header_of_encode) simp

text \<open>The read under way: the request held, its buffer once the announced bytes are in, and the
  state \<open>afpc_dsi_recv_frame\<close> has then.\<close>

definition clash_held :: "nat afp_server" where
  "clash_held = upd_request 7 (\<lambda>r. r\<lparr>req_receiving := True\<rparr>) clash2"

definition clash_filled :: rx_buffer where
  "clash_filled = clash_buffer\<lparr>rx_data := write_at (rx_data clash_buffer) 0 (replicate 131056 0), rx_size := 131056\<rparr>"

lemma clash_held_heap: "srv_heap clash_held = [7 \<mapsto> clash_request]"
  using clash2_simps by (auto simp: clash_held_def upd_request_heap fun_eq_iff) (simp add: clash_request_def)

lemma clash_match: "match_request clash2 = (Some 7, Some 7, False, clash_held)"
proof -
  have "find_request clash2 (Suc 0) = (Some 7, clash_held)"
    using clash2_simps by (simp add: find_request_def awaits_def clash_request_def new_request_def clash_held_def)
  then show ?thesis
    using clash2_simps clash_buffer2 clash_held_heap
    by (simp add: match_request_def Let_def) (simp add: clash_held_def clash2_simps)
qed

lemma clash_shift:
  assumes "env_malloc env 131055"
  shows "\<exists>v. recv_read_reply env clash_held 0 7 clash_request ([], Read_data (replicate 131056 0))
      = Some (L_process_packet, v) \<and> srv_data_read v = 131055 \<and>
    srv_incoming_buffer v = write_at (encode_header (clash_header 131056) @ clash_payload @ [0]) 0 clash_payload \<and>
    srv_heap v = [7 \<mapsto> clash_request\<lparr>req_other := Dest_rx clash_filled\<rparr>]"
proof -
  let ?h = "encode_header (clash_header 131056)"
  have c: "srv_data_read clash_held = 131071" "srv_incoming_buffer clash_held = ?h @ clash_payload @ [0]"
    "srv_generation clash_held = 0"
    using clash2_simps by (simp_all add: clash_held_def)
  define t2 where "t2 = set_request 7 (clash_request\<lparr>req_other := Dest_rx clash_filled\<rparr>) clash_held"
  define u where "u = (count_rx 131056 t2)\<lparr>srv_stream_read := srv_stream_read (count_rx 131056 t2) + 131056\<rparr>"
  have cb: "rx_maxsize clash_buffer = 131256" "rx_size clash_buffer = 0" "length (rx_data clash_buffer) = 131256"
    by (simp_all add: clash_buffer_def)
  have d: "dsi_read clash_held 0 131056 ([], Read_data (replicate 131056 0)) = (clash_held, RR_data (replicate 131056 0))"
    using c by (simp add: dsi_read_def Let_def)
  have fb: "fill_buffer 7 (replicate 131056 0) 131056 clash_held = Some t2"
    using clash_held_heap cb by (simp add: fill_buffer_def put_bytes_def clash_filled_def t2_def)
  have bs: "buffer_size 7 u = 131056" "srv_incoming_buffer u = ?h @ clash_payload @ [0]" "srv_data_read u = 131071"
    using c by (simp_all add: u_def t2_def buffer_size_def count_rx_def upd_stats_def set_request_def
        read_buffer_def clash_filled_def)
  define v where "v = snd (finish_read env u)"
  have fr: "finish_read env u = (L_process_packet, v)"
    using bs assms by (simp add: v_def finish_read_def Let_def)
  have st: "srv_stream_read (count_rx 131056 t2) = srv_stream_read t2" by (simp add: count_rx_def upd_stats_def)
  have "recv_read_reply env clash_held 0 7 clash_request ([], Read_data (replicate 131056 0)) = Some (L_process_packet, v)"
    using c clash_buffer2 cb d fb bs fr
    by (simp add: recv_read_reply_def recv_read_data_def Let_def u_def [unfolded st, symmetric])
  then show ?thesis
    using bs assms clash_held_heap
    by (simp add: v_def finish_read_def Let_def u_def t2_def count_rx_def upd_stats_def set_request_def)
qed

lemma clash_step3:
  assumes "env_malloc env 131055"
  shows "dsi_recv env clash2 ([], Read_data (replicate 131056 0)) ([], Read_data (replicate 200 0)) = None"
proof -
  let ?ev = "([], Read_data (replicate 131056 0)) :: nat event" and ?ev2 = "([], Read_data (replicate 200 0)) :: nat event"
  obtain v where v: "recv_read_reply env clash_held 0 7 clash_request ?ev = Some (L_process_packet, v)"
    "srv_data_read v = 131055" "srv_heap v = [7 \<mapsto> clash_request\<lparr>req_other := Dest_rx clash_filled\<rparr>]"
    "srv_incoming_buffer v = write_at (encode_header (clash_header 131056) @ clash_payload @ [0]) 0 clash_payload"
    using clash_shift [OF assms] by blast
  have hv: "header_of (srv_incoming_buffer v) = clash_header 0"
    unfolding v write_at_def clash_payload_def by (simp add: header_of_encode)
  have lv: "length (srv_incoming_buffer v) = 131072" using v by (simp add: write_at_def)
  have pb: "\<exists>b. put_bytes clash_filled (replicate 200 0) 0 = Some b"
    by (simp add: put_bytes_def clash_filled_def clash_buffer_def write_at_def)
  have "rx_maxsize clash_filled = 131256" "rx_size clash_filled = 131056"
    by (simp_all add: clash_filled_def clash_buffer_def)
  then have "command_reply env 27 7 ?ev2 v = None"
    using v(2,3) lv pb
    by (auto simp: command_reply_def afp_reply_call_def Let_def count_rx_def upd_stats_def set_request_def)
  then have "process_packet env (Some 7) False 0 ?ev2 v = None"
    using v(2,3) hv by (simp add: process_packet_def Let_def)
  then have "recv_gotenough env clash2 0 ?ev ?ev2 = None"
    using clash2_simps clash_buffer2 clash_match v(1) clash_held_heap
    by (simp add: recv_gotenough_def Let_def command_is_defined_def finish_label_def finish_process_def s32_def)
  then show ?thesis using clash2_simps by (simp add: dsi_recv_def recv_frame_def Let_def)
qed

lemma recv_inv_clash_session: "recv_inv clash_session"
  by (simp add: recv_inv_def clash_session_def server_init_def queue_inv_def wf_requests_def wf_status_def u64_def)

lemma wf_clash_events: "wf_event ([clash_read], o1)" "wf_event ([], o2)"
  by (simp_all add: wf_event_def wf_op_def clash_read_def clash_buffer_def wf_request_def read_buffer_def
      new_request_def wf_rx_def)

text \<open>C1: the receiver is memory safe. From every state of the invariant, whatever bytes a read
  delivers, whatever steps other threads take while it blocks, and whatever the commands' reply
  parsers answer, serving a ready descriptor writes and reads only inside the receive buffer and the
  destinations of pending reads, uses no freed request, keeps the invariant and lets go of the
  request it held, unless the frame it continues came to match a read after its first payload byte
  arrived.\<close>
theorem receiver_memory_safe:
  assumes "recv_inv s" "held s = {}" "wf_event ev" "wf_event ev2"
    "srv_rx_generation s = srv_generation s \<longrightarrow> no_clash s"
  shows "\<exists>s'. serve_ready env s ev ev2 = Some s' \<and> recv_inv s' \<and> held s' = {}"
proof -
  obtain rc t where t: "dsi_recv env s ev ev2 = Some (rc, t)" "recv_inv t" "held t = {}"
    using dsi_recv_sound [OF assms(1,3,4,5,2)] by blast
  then have "recv_inv (loop_disconnect t)" "held (loop_disconnect t) = {}"
    using sound_disconnect [of t] by (auto simp: sound_def)
  then show ?thesis using t assms(1,2) by (auto simp: serve_ready_def)
qed

theorem receiver_memory_safe_witness:
  "\<exists>s'. serve_ready plain_env clash_session ([clash_read, Op_disconnect], Read_data (replicate 9 1)) ([], Read_fail)
     = Some s' \<and> recv_inv s'"
proof -
  have "wf_event ([clash_read, Op_disconnect], Read_data (replicate 9 1))"
    using wf_clash_events(1) by (simp add: wf_event_def wf_op_def)
  moreover have "held clash_session = {}" by (simp add: held_def clash_session_def server_init_def)
  moreover have "no_clash clash_session" by (simp add: no_clash_def clash_session_def server_init_def)
  ultimately show ?thesis
    using receiver_memory_safe [OF recv_inv_clash_session _ _ wf_clash_events(2)] by blast
qed

text \<open>C12: without that condition the receiver overruns its buffer. A server that announces a reply
  to the identifier the client will use next and sends its payload but for a byte before the client
  queues a read under that identifier has the payload taken for a frame: \<open>afpc_dsi_command_reply\<close>
  then adds the bytes of a further read to \<open>data_read\<close>, which passes the receive buffer's end, and
  the reply parser and the move behind it run past it. Three calls from a fresh session reach it.\<close>
theorem clashing_read_overruns_buffer:
  "\<exists>s1 s2. dsi_recv (env\<lparr>env_malloc := \<lambda>_. True\<rparr>) clash_session
       ([], Read_data (encode_header (clash_header 131056))) ([], Read_fail) = Some (0, s1) \<and>
     dsi_recv (env\<lparr>env_malloc := \<lambda>_. True\<rparr>) s1 ([clash_read], Read_data clash_payload) ([], Read_fail)
       = Some (0, s2) \<and>
     dsi_recv (env\<lparr>env_malloc := \<lambda>_. True\<rparr>) s2 ([], Read_data (replicate 131056 0))
       ([], Read_data (replicate 200 0)) = None \<and>
     recv_inv clash_session \<and> wf_op clash_read"
  using clash_step1 clash_step2 clash_step3 [of "env\<lparr>env_malloc := \<lambda>_. True\<rparr>"] recv_inv_clash_session
    wf_clash_events(1) by (fastforce simp: wf_event_def)

end
