(* ===== verification/Dsi_Delivery.thy ===== *)
theory Dsi_Delivery
  imports Dsi_Safety
begin

text \<open>
  What the receiver of \<open>Dsi_Recv\<close> delivers.  A frame arrives in pieces of any size, one receive call
  per piece; \<open>recv_run\<close> makes the calls.  The theorems say that the pieces do not matter: the request
  the frame answers gets the parser's or the server's result, once, when the last piece is in, and
  nothing else of the queue changes.
\<close>

fun recv_run :: "'o recv_env \<Rightarrow> bytes list \<Rightarrow> 'o afp_server \<Rightarrow> 'o afp_server option" where
  "recv_run env [] s = Some s"
| "recv_run env (c # cs) s =
     (case dsi_recv env s ([], Read_data c) ([], Read_fail) of
        None \<Rightarrow> None
      | Some (rc, s') \<Rightarrow> if rc = 0 then recv_run env cs s' else None)"

lemma recv_run_append:
  "recv_run env (as @ bs) s = (case recv_run env as s of None \<Rightarrow> None | Some s' \<Rightarrow> recv_run env bs s')"
  by (induction as arbitrary: s) (auto split: option.splits)

section \<open>Between frames and inside one\<close>

text \<open>A connection between two frames, its stream followed from its start.\<close>

definition between_frames :: "'o afp_server \<Rightarrow> bool" where
  "between_frames s \<longleftrightarrow> recv_inv s \<and> held s = {} \<and> srv_fd s \<ge> 0 \<and> srv_rx_generation s = srv_generation s
     \<and> srv_data_read s = 0 \<and> srv_discard_remaining s = 0 \<and> srv_stream_read s = 0"

text \<open>The state \<open>t\<close> reached from \<open>s\<close> by receiving the bytes \<open>bs\<close> of a frame into the buffer.\<close>

definition has_received :: "'o afp_server \<Rightarrow> bytes \<Rightarrow> 'o afp_server \<Rightarrow> bool" where
  "has_received s bs t \<longleftrightarrow>
     t = s\<lparr>srv_incoming_buffer := srv_incoming_buffer t, srv_data_read := length bs, srv_stats := srv_stats t\<rparr>
     \<and> st_requests_pending (srv_stats t) = st_requests_pending (srv_stats s)
     \<and> length (srv_incoming_buffer t) = AFP_BUFSIZE \<and> take (length bs) (srv_incoming_buffer t) = bs"

lemma has_received_start: "between_frames s \<Longrightarrow> has_received s [] s"
  by (simp add: has_received_def between_frames_def recv_inv_def)

lemma has_received_simps:
  assumes "has_received s bs t"
  shows "srv_heap t = srv_heap s" "srv_queue t = srv_queue s" "srv_data_read t = length bs"
    "srv_generation t = srv_generation s" "srv_rx_generation t = srv_rx_generation s" "srv_fd t = srv_fd s"
    "srv_discard_remaining t = srv_discard_remaining s" "srv_stream_read t = srv_stream_read s"
    "srv_bufsize t = srv_bufsize s" "length (srv_incoming_buffer t) = AFP_BUFSIZE"
proof -
  have t: "t = s\<lparr>srv_incoming_buffer := srv_incoming_buffer t, srv_data_read := length bs, srv_stats := srv_stats t\<rparr>"
    using assms by (simp add: has_received_def)
  show "srv_heap t = srv_heap s" by (subst t) simp
  show "srv_queue t = srv_queue s" by (subst t) simp
  show "srv_data_read t = length bs" by (subst t) simp
  show "srv_generation t = srv_generation s" by (subst t) simp
  show "srv_rx_generation t = srv_rx_generation s" by (subst t) simp
  show "srv_fd t = srv_fd s" by (subst t) simp
  show "srv_discard_remaining t = srv_discard_remaining s" by (subst t) simp
  show "srv_stream_read t = srv_stream_read s" by (subst t) simp
  show "srv_bufsize t = srv_bufsize s" by (subst t) simp
  show "length (srv_incoming_buffer t) = AFP_BUFSIZE" using assms by (simp add: has_received_def)
qed

lemma has_received_header:
  assumes "has_received s bs t" "16 \<le> length bs"
  shows "srv_header t = header_of bs"
  using assms header_of_take [of "length bs" "srv_incoming_buffer t"] by (simp add: has_received_def)

text \<open>The state after one more piece.\<close>

definition receive_more :: "bytes \<Rightarrow> 'o afp_server \<Rightarrow> 'o afp_server" where
  "receive_more c t = (count_rx (length c) (t\<lparr>srv_incoming_buffer := write_at (srv_incoming_buffer t) (srv_data_read t) c\<rparr>))
     \<lparr>srv_data_read := srv_data_read t + length c\<rparr>"

lemma has_received_more:
  assumes "has_received s bs t" "length bs + length c \<le> AFP_BUFSIZE"
  shows "has_received s (bs @ c) (receive_more c t)"
proof -
  have t: "t = s\<lparr>srv_incoming_buffer := srv_incoming_buffer t, srv_data_read := length bs, srv_stats := srv_stats t\<rparr>"
    and b: "length (srv_incoming_buffer t) = AFP_BUFSIZE" "take (length bs) (srv_incoming_buffer t) = bs"
    using assms(1) by (simp_all add: has_received_def)
  let ?b = "write_at (srv_incoming_buffer t) (length bs) c"
  have "take (length bs + length c) ?b = bs @ c"
    using take_write_at_end [of "length bs" "srv_incoming_buffer t" c] b assms(2) by simp
  moreover have "length ?b = AFP_BUFSIZE" using b assms(2) by simp
  moreover have "receive_more c t = s\<lparr>srv_incoming_buffer := srv_incoming_buffer (receive_more c t),
      srv_data_read := length (bs @ c), srv_stats := srv_stats (receive_more c t)\<rparr>"
    by (subst (1 2 3) t) (simp add: receive_more_def count_rx_def upd_stats_def)
  ultimately show ?thesis
    using assms(1) has_received_simps [OF assms(1)]
    by (simp add: has_received_def receive_more_def count_rx_def upd_stats_def)
qed

section \<open>Header pieces\<close>

lemma recv_header_piece:
  assumes "has_received s bs t" "c \<noteq> []" "length bs + length c \<le> 16"
  shows "recv_header t (srv_generation t) ([], Read_data c) =
    (if length bs + length c = 16 \<and> hdr_length (header_of (bs @ c)) = 0
     then Some (L_gotenough, receive_more c t) else Some (L_return 0, receive_more c t))"
proof -
  have d: "dsi_read t (srv_generation t) (16 - srv_data_read t) ([], Read_data c) = (t, RR_data c)"
    using assms has_received_simps(3) [OF assms(1)] by (simp add: dsi_read_def Let_def)
  have st: "store_incoming (srv_data_read t) c t =
      Some (t\<lparr>srv_incoming_buffer := write_at (srv_incoming_buffer t) (srv_data_read t) c\<rparr>)"
    using assms(3) has_received_simps [OF assms(1)] by (simp add: store_incoming_def)
  have m: "has_received s (bs @ c) (receive_more c t)"
    using has_received_more [OF assms(1)] assms(3) by simp
  have h: "srv_header (receive_more c t) = header_of (bs @ c)" if "length bs + length c = 16"
    using has_received_header [OF m] that by simp
  have e: "recv_header t (srv_generation t) ([], Read_data c) =
      (if srv_data_read (receive_more c t) = 16 \<and> hdr_length (srv_header (receive_more c t)) = 0
       then Some (L_gotenough, receive_more c t) else Some (L_return 0, receive_more c t))"
    unfolding recv_header_def d
    by (simp add: st receive_more_def count_rx_def upd_stats_def Let_def)
  have "srv_data_read (receive_more c t) = length bs + length c" using has_received_simps(3) [OF m] by simp
  then show ?thesis unfolding e using h by auto
qed

lemma header_piece:
  assumes s: "between_frames s" "has_received s bs t" and c: "c \<noteq> []" "length bs + length c \<le> 16"
    and more: "length bs + length c < 16 \<or> hdr_length (header_of (bs @ c)) \<noteq> 0"
  shows "dsi_recv env t ([], Read_data c) e = Some (0, receive_more c t)"
proof -
  note t = has_received_simps [OF s(2)]
  have l: "length bs < 16" using c by (cases c) auto
  have "recv_frame env t (srv_generation t) ([], Read_data c) e = Some (0, None, receive_more c t)"
    using recv_header_piece [OF s(2) c] l more t s(1)
    by (auto simp: recv_frame_def between_frames_def)
  then show ?thesis using t s(1) by (simp add: dsi_recv_def Let_def between_frames_def)
qed

lemma header_pieces:
  assumes s: "between_frames s" "has_received s bs t" and hs: "[] \<notin> set hs"
    and h: "bs @ concat hs = encode_header h" "wf_header h" "hdr_length h \<noteq> 0"
  shows "\<exists>t'. recv_run env hs t = Some t' \<and> has_received s (encode_header h) t'"
  using s(2) hs h(1)
proof (induction hs arbitrary: bs t)
  case Nil
  then show ?case by auto
next
  case (Cons c cs)
  have "length (bs @ concat (c # cs)) = 16" unfolding Cons.prems(3) by simp
  then have l: "length bs + length c + length (concat cs) = 16" by simp
  have more: "length bs + length c < 16 \<or> hdr_length (header_of (bs @ c)) \<noteq> 0"
  proof (cases "concat cs = []")
    case True
    then have "bs @ c = encode_header h @ []"
      using Cons.prems(3) by (simp only: concat.simps append_Nil2)
    then show ?thesis using header_of_encode [OF h(2), of "[]"] h(3) by simp
  next
    case False
    then have "0 < length (concat cs)" by (simp only: length_greater_0_conv not_False_eq_True)
    then show ?thesis using l by linarith
  qed
  have p: "dsi_recv env t ([], Read_data c) ([], Read_fail) = Some (0, receive_more c t)"
    by (rule header_piece [OF s(1) Cons.prems(1)]) (use Cons.prems(2) l more in auto)
  moreover have "has_received s (bs @ c) (receive_more c t)"
    by (rule has_received_more [OF Cons.prems(1)]) (use l in simp)
  ultimately show ?case using Cons.IH [of "bs @ c" "receive_more c t"] Cons.prems by simp
qed

section \<open>A reply that answers a request\<close>

definition answers :: "'o afp_server \<Rightarrow> dsi_header \<Rightarrow> nat \<Rightarrow> 'o dsi_request \<Rightarrow> bool" where
  "answers s h p r \<longleftrightarrow> hdr_flags h = DSI_REPLY \<and> hdr_command h = DSI_DSICommand
     \<and> first_awaiting (srv_heap s) (hdr_requestid h) (srv_queue s) = Some p \<and> srv_heap s p = Some r
     \<and> req_generation r = srv_generation s"

abbreviation (input) hold :: "nat \<Rightarrow> 'o afp_server \<Rightarrow> 'o afp_server" where
  "hold p \<equiv> upd_request p (\<lambda>r. r\<lparr>req_receiving := True\<rparr>)"

lemma upd_request_fields:
  "upd_request p f (s\<lparr>srv_incoming_buffer := b, srv_data_read := n, srv_stats := st\<rparr>) =
    (upd_request p f s)\<lparr>srv_incoming_buffer := b, srv_data_read := n, srv_stats := st\<rparr>"
  by (simp add: upd_request_def set_request_def split: option.splits)

lemma match_answers:
  assumes "has_received s bs t" "16 \<le> length bs" "answers s (header_of bs) p r"
  shows "match_request t = (Some p, Some p, False, hold p t)"
  using assms(3) has_received_header [OF assms(1,2)] has_received_simps [OF assms(1)]
  by (simp add: match_request_def Let_def find_request_def answers_def upd_request_heap)

lemma not_held: "held s = {} \<Longrightarrow> srv_heap s p = Some r \<Longrightarrow> \<not> req_receiving r"
  by (auto simp: held_def)

lemma release_hold:
  assumes "srv_heap t p = Some r" "\<not> req_receiving r"
  shows "release_request p (receive_more c (hold p t)) = receive_more c t"
proof -
  have "r\<lparr>req_receiving := False\<rparr> = r" using assms(2) by simp
  then have "(srv_heap t)(p \<mapsto> r\<lparr>req_receiving := False\<rparr>) = srv_heap t" using assms(1) by auto
  then show ?thesis
    using assms by (simp add: release_request_def upd_request_def set_request_def receive_more_def
        count_rx_def upd_stats_def)
qed

lemma recv_payload_piece:
  assumes "has_received s bs t" "16 \<le> length bs" "srv_stream_read s = 0" "srv_bufsize s = AFP_BUFSIZE"
    and h: "hdr_length (header_of bs) = n" "n \<le> AFP_BUFSIZE - 16"
    and c: "c \<noteq> []" "length bs + length c \<le> 16 + n"
  shows "recv_payload t (srv_generation t) runt result ([], Read_data c) =
    Some (if length bs + length c < 16 + n then L_return 0
          else if runt then L_after_processing else L_process_packet, result, receive_more c t)"
proof -
  note t = has_received_simps [OF assms(1)]
  note hd = has_received_header [OF assms(1,2)]
  have lc: "length c > 0" using c by simp
  have d: "dsi_read t (srv_generation t) k ([], Read_data c) = (t, RR_data c)" if "length c \<le> k" for k
    using c that by (simp add: dsi_read_def Let_def)
  have m: "has_received s (bs @ c) (receive_more c t)"
    by (rule has_received_more [OF assms(1)]) (use c h in simp)
  have hm: "srv_header (receive_more c t) = header_of bs" "srv_data_read (receive_more c t) = length bs + length c"
    using has_received_header [OF m] assms(2) header_of_cong [of "bs @ c" bs] has_received_simps(3) [OF m] by simp_all
  have st: "store_incoming (length bs) c t =
      Some (t\<lparr>srv_incoming_buffer := write_at (srv_incoming_buffer t) (length bs) c\<rparr>)"
    using c h t by (simp add: store_incoming_def)
  have u: "(count_rx (length c) (t\<lparr>srv_incoming_buffer := write_at (srv_incoming_buffer t) (length bs) c\<rparr>))
      \<lparr>srv_data_read := length bs + length c\<rparr> = receive_more c t"
    using t by (simp add: receive_more_def)
  have n: "\<not> n > AFP_BUFSIZE - 16" "\<not> length bs - 16 > n" "n - (length bs - 16) > 0"
    "\<not> (length bs = 16 \<and> n = 0)" "length c \<le> n - (length bs - 16)" "length c \<le> AFP_BUFSIZE - length bs"
    using h(2) c(2) lc assms(2) by linarith+
  show ?thesis
    unfolding recv_payload_def Let_def
    using n(1-4) d [of "min (n - (length bs - 16)) (AFP_BUFSIZE - length bs)"] n(5,6) st u hm t hd h assms(3,4)
    by (auto simp: count_rx_def upd_stats_def)
qed

lemma has_received_hold:
  assumes "has_received s bs t"
  shows "has_received (hold p s) bs (hold p t)"
proof -
  let ?t = "s\<lparr>srv_incoming_buffer := srv_incoming_buffer t, srv_data_read := length bs, srv_stats := srv_stats t\<rparr>"
  have "t = ?t" using assms by (simp add: has_received_def)
  then have "hold p t = hold p ?t" by (rule arg_cong)
  also have "\<dots> = (hold p s)\<lparr>srv_incoming_buffer := srv_incoming_buffer t, srv_data_read := length bs,
      srv_stats := srv_stats t\<rparr>" by (rule upd_request_fields)
  finally have "hold p t = (hold p s)\<lparr>srv_incoming_buffer := srv_incoming_buffer t, srv_data_read := length bs,
      srv_stats := srv_stats t\<rparr>" .
  then show ?thesis using assms by (simp add: has_received_def)
qed

lemma gotenough_answers:
  assumes s: "has_received s bs t" "16 \<le> length bs" "answers s (header_of bs) p r" "\<not> reads r"
  shows "recv_gotenough env t gen ev e =
    map_option (\<lambda>(rc, s'). (rc, Some p, s'))
      (finish_label env (Some p) False e (recv_payload (hold p t) gen False (s32 (hdr_error_code (header_of bs))) ev))"
  using match_answers [OF s(1-3)] has_received_header [OF s(1,2)] has_received_simps(1) [OF s(1)] s(3,4)
  by (simp add: recv_gotenough_def Let_def command_is_defined_def answers_def upd_request_heap reads_def)

lemma payload_piece:
  assumes s: "between_frames s" "has_received s bs t" "16 \<le> length bs"
    and r: "answers s (header_of bs) p r" "\<not> reads r"
    and h: "hdr_length (header_of bs) = n" "n \<le> AFP_BUFSIZE - 16"
    and c: "c \<noteq> []" "length bs + length c < 16 + n"
  shows "dsi_recv env t ([], Read_data c) e = Some (0, receive_more c t)"
proof -
  note t = has_received_simps [OF s(2)]
  have b: "srv_stream_read s = 0" "srv_bufsize s = AFP_BUFSIZE" "held s = {}"
    using s(1) by (simp_all add: between_frames_def recv_inv_def)
  have "recv_payload (hold p t) (srv_generation t) False res ([], Read_data c) =
      Some (L_return 0, res, receive_more c (hold p t))" for res
    using recv_payload_piece [OF has_received_hold [OF s(2)] s(3) _ _ h c(1), of p False res] b c(2) by simp
  then have "recv_gotenough env t (srv_generation t) ([], Read_data c) e = Some (0, Some p, receive_more c (hold p t))"
    using gotenough_answers [OF s(2,3) r] by (simp add: finish_label_def)
  then have "recv_frame env t (srv_generation t) ([], Read_data c) e = Some (0, Some p, receive_more c (hold p t))"
    using t s(1,3) by (simp add: recv_frame_def between_frames_def)
  moreover have "release_request p (receive_more c (hold p t)) = receive_more c t"
    using release_hold [of t p r c] not_held [OF b(3), of p r] r(1) t(1) by (simp add: answers_def)
  ultimately show ?thesis using t s(1) by (simp add: dsi_recv_def Let_def between_frames_def)
qed

lemma process_complete:
  assumes w: "srv_heap w p = Some r" "hdr_command (srv_header w) = DSI_DSICommand"
    "srv_data_read w = hdr_length (srv_header w) + 16" "srv_data_read w \<le> length (srv_incoming_buffer w)"
    and r: "\<not> reads r" "req_subcommand r \<noteq> 0 \<or> req_reply_handler r \<noteq> None"
    and e: "env_reply env (req_reply_handler r) (req_subcommand r) (take (srv_data_read w) (srv_incoming_buffer w))
      (req_other r) = (rc, oth)"
  shows "finish_process env (Some p) False result ev w =
    Some (0, set_request p (answer_request (if rc \<noteq> 0 \<and> result = 0 then rc else result) (r\<lparr>req_other := oth\<rparr>))
      (w\<lparr>srv_data_read := 0\<rparr>))"
proof -
  let ?x = "set_request p (r\<lparr>req_other := oth\<rparr>) w"
  have "(case req_reply_handler r of
      Some h \<Rightarrow> afp_reply_call env (Some h) (req_subcommand r) p w
    | None \<Rightarrow> command_reply env (req_subcommand r) p ev w) = Some (rc, ?x)"
    using w r e by (auto simp: command_reply_def afp_reply_call_def reads_def split: option.splits)
  then have "process_packet env (Some p) False result ev w =
      Some (L_after_processing, (if rc \<noteq> 0 \<and> result = 0 then rc else result), ?x)"
    using w by (simp add: process_packet_def Let_def)
  moreover have "after_processing ?x = Some (L_out, ?x\<lparr>srv_data_read := 0\<rparr>)"
    using w by (simp add: after_processing_def Let_def set_request_def)
  ultimately show ?thesis
    by (simp add: finish_process_def finish_after_def recv_out_def set_request_def)
qed

text \<open>The state once the reply is in: its request answered, the buffer empty.\<close>

definition delivered :: "nat \<Rightarrow> 'o dsi_request \<Rightarrow> 'o afp_server \<Rightarrow> 'o afp_server \<Rightarrow> bool" where
  "delivered p r s s' \<longleftrightarrow> srv_heap s' = (srv_heap s)(p \<mapsto> r) \<and> srv_queue s' = srv_queue s
     \<and> srv_data_read s' = 0 \<and> srv_discard_remaining s' = 0 \<and> srv_stream_read s' = 0
     \<and> srv_generation s' = srv_generation s \<and> srv_rx_generation s' = srv_rx_generation s \<and> srv_fd s' = srv_fd s"

lemma delivered_release:
  assumes "srv_heap w = (srv_heap s)(p \<mapsto> r0)" "\<not> req_receiving r"
    "srv_queue w = srv_queue s" "srv_discard_remaining w = 0" "srv_stream_read w = 0"
    "srv_generation w = srv_generation s" "srv_rx_generation w = srv_rx_generation s" "srv_fd w = srv_fd s"
  shows "delivered p (answer_request res r) s
    (release_request p (set_request p (answer_request res (r\<lparr>req_receiving := True\<rparr>)) (w\<lparr>srv_data_read := 0\<rparr>)))"
proof -
  have "(answer_request res (r\<lparr>req_receiving := True\<rparr>))\<lparr>req_receiving := False\<rparr> = answer_request res r"
    using assms(2) by (simp add: answer_request_def)
  then show ?thesis
    using assms by (simp add: delivered_def release_request_def upd_request_def set_request_def)
qed

text \<open>What a complete frame makes of its request.\<close>

definition reply_of :: "'o recv_env \<Rightarrow> dsi_header \<Rightarrow> bytes \<Rightarrow> 'o dsi_request \<Rightarrow> 'o dsi_request" where
  "reply_of env h frame r =
     (let (rc, oth) = env_reply env (req_reply_handler r) (req_subcommand r) frame (req_other r);
          err = s32 (hdr_error_code h)
      in answer_request (if rc \<noteq> 0 \<and> err = 0 then rc else err) (r\<lparr>req_other := oth\<rparr>))"

lemma complete_frame:
  assumes s: "between_frames s" "has_received s frame u" "16 \<le> length frame"
    and r: "answers s (header_of frame) p r" "\<not> reads r" "req_subcommand r \<noteq> 0 \<or> req_reply_handler r \<noteq> None"
    and h: "length frame = hdr_length (header_of frame) + 16"
    and w: "srv_heap w = (srv_heap u)(p \<mapsto> r\<lparr>req_receiving := True\<rparr>)"
      "srv_incoming_buffer w = srv_incoming_buffer u" "srv_data_read w = srv_data_read u" "srv_queue w = srv_queue u"
      "srv_discard_remaining w = srv_discard_remaining u" "srv_stream_read w = srv_stream_read u"
      "srv_generation w = srv_generation u" "srv_rx_generation w = srv_rx_generation u" "srv_fd w = srv_fd u"
  shows "\<exists>s'. finish_process env (Some p) False (s32 (hdr_error_code (header_of frame))) e w = Some (0, s') \<and>
    delivered p (reply_of env (header_of frame) frame r) s (release_request p s')"
proof -
  note u = has_received_simps [OF s(2)]
  note hd = has_received_header [OF s(2,3)]
  have tk: "take (length frame) (srv_incoming_buffer u) = frame" using s(2) by (simp add: has_received_def)
  then have le: "length frame \<le> length (srv_incoming_buffer u)" using u by (metis length_take min.cobounded1)
  obtain rc oth where e: "env_reply env (req_reply_handler r) (req_subcommand r) frame (req_other r) = (rc, oth)"
    by fastforce
  have nr: "\<not> req_receiving r" using not_held [of s p r] s(1) r(1) by (simp add: between_frames_def answers_def)
  have f: "finish_process env (Some p) False (s32 (hdr_error_code (header_of frame))) ev w =
      Some (0, set_request p (answer_request (if rc \<noteq> 0 \<and> s32 (hdr_error_code (header_of frame)) = 0 then rc
          else s32 (hdr_error_code (header_of frame)))
        ((r\<lparr>req_receiving := True\<rparr>)\<lparr>req_other := oth\<rparr>)) (w\<lparr>srv_data_read := 0\<rparr>))" for ev
    by (rule process_complete) (use w u hd le tk e h r in \<open>simp_all add: answers_def reads_def\<close>)
  have c: "(r\<lparr>req_receiving := True\<rparr>)\<lparr>req_other := oth\<rparr> = (r\<lparr>req_other := oth\<rparr>)\<lparr>req_receiving := True\<rparr>" by simp
  have d: "delivered p (answer_request res (r\<lparr>req_other := oth\<rparr>)) s
      (release_request p (set_request p (answer_request res ((r\<lparr>req_other := oth\<rparr>)\<lparr>req_receiving := True\<rparr>))
        (w\<lparr>srv_data_read := 0\<rparr>)))" for res
    by (rule delivered_release) (use w u nr s(1) in \<open>simp_all add: between_frames_def\<close>)
  show ?thesis unfolding f c reply_of_def e using d by simp
qed

lemma last_piece:
  assumes s: "between_frames s" "has_received s bs t" "16 \<le> length bs"
    and r: "answers s (header_of bs) p r" "\<not> reads r" "req_subcommand r \<noteq> 0 \<or> req_reply_handler r \<noteq> None"
    and h: "hdr_length (header_of bs) = n" "n \<le> AFP_BUFSIZE - 16"
    and c: "c \<noteq> []" "length bs + length c = 16 + n"
  shows "\<exists>s'. dsi_recv env t ([], Read_data c) e = Some (0, s') \<and>
    delivered p (reply_of env (header_of bs) (bs @ c) r) s s'"
proof -
  note t = has_received_simps [OF s(2)]
  have b: "srv_stream_read s = 0" "srv_bufsize s = AFP_BUFSIZE"
    using s(1) by (simp_all add: between_frames_def recv_inv_def)
  have m: "has_received s (bs @ c) (receive_more c t)"
    by (rule has_received_more [OF s(2)]) (use c h in simp)
  have hb: "header_of (bs @ c) = header_of bs" using s(3) by (intro header_of_cong) simp
  let ?w = "receive_more c (hold p t)" and ?res = "s32 (hdr_error_code (header_of bs))"
  have pl: "recv_payload (hold p t) (srv_generation t) False ?res ([], Read_data c) = Some (L_process_packet, ?res, ?w)"
    using recv_payload_piece [OF has_received_hold [OF s(2)] s(3) _ _ h c(1), of p False ?res] b c(2) by simp
  have hp: "srv_heap t p = Some r" using r(1) t(1) by (simp add: answers_def)
  then have hh: "srv_heap (hold p t) = (srv_heap t)(p \<mapsto> r\<lparr>req_receiving := True\<rparr>)"
    by (auto simp: upd_request_heap)
  obtain s' where s': "finish_process env (Some p) False ?res e ?w = Some (0, s')"
    "delivered p (reply_of env (header_of bs) (bs @ c) r) s (release_request p s')"
    using complete_frame [OF s(1) m, of p r ?w env e] s(3) r h c(2) hb hh
    by (auto simp: receive_more_def count_rx_def upd_stats_def)
  then have "recv_gotenough env t (srv_generation t) ([], Read_data c) e = Some (0, Some p, s')"
    using gotenough_answers [OF s(2,3) r(1,2)] pl by (simp add: finish_label_def)
  then have "recv_frame env t (srv_generation t) ([], Read_data c) e = Some (0, Some p, s')"
    using t s(1,3) by (simp add: recv_frame_def between_frames_def)
  then show ?thesis using t s(1) s'(2) by (simp add: dsi_recv_def Let_def between_frames_def)
qed

lemma payload_pieces:
  assumes s: "between_frames s" "has_received s bs t" "16 \<le> length bs"
    and r: "answers s (header_of bs) p r" "\<not> reads r" "req_subcommand r \<noteq> 0 \<or> req_reply_handler r \<noteq> None"
    and h: "length bs + length (concat ps) = 16 + hdr_length (header_of bs)" "hdr_length (header_of bs) \<le> AFP_BUFSIZE - 16"
    and ps: "[] \<notin> set ps" "ps \<noteq> []"
  shows "\<exists>s'. recv_run env ps t = Some s' \<and> delivered p (reply_of env (header_of bs) (bs @ concat ps) r) s s'"
  using s(2,3) r(1) h ps
proof (induction ps arbitrary: bs t)
  case (Cons c cs)
  have c: "c \<noteq> []" using Cons.prems by auto
  have hb: "header_of (bs @ c) = header_of bs" using Cons.prems(2) by (intro header_of_cong) simp
  show ?case
  proof (cases "cs = []")
    case True
    then show ?thesis
      using last_piece [OF s(1) Cons.prems(1-3) r(2,3) refl Cons.prems(5) c, of env "([], Read_fail)"] Cons.prems(4)
      by auto
  next
    case False
    then have "concat cs \<noteq> []" using Cons.prems(6) by (cases cs) auto
    then have "0 < length (concat cs)" by (simp only: length_greater_0_conv not_False_eq_True)
    moreover have "length bs + length c + length (concat cs) = 16 + hdr_length (header_of bs)"
      using Cons.prems(4) by simp
    ultimately have l: "length bs + length c < 16 + hdr_length (header_of bs)" by linarith
    then have p: "dsi_recv env t ([], Read_data c) ([], Read_fail) = Some (0, receive_more c t)"
      using payload_piece [OF s(1) Cons.prems(1-3) r(2) refl Cons.prems(5) c] by simp
    have "has_received s (bs @ c) (receive_more c t)"
      by (rule has_received_more [OF Cons.prems(1)]) (use l Cons.prems(5) in simp)
    then show ?thesis
      using Cons.IH [of "bs @ c" "receive_more c t"] Cons.prems p hb False by simp
  qed
qed simp

lemma last_header_piece:
  assumes s: "between_frames s" "has_received s bs t"
    and c: "c \<noteq> []" "bs @ c = encode_header h" and h: "wf_header h" "hdr_length h = 0"
    and r: "answers s h p r" "\<not> reads r" "req_subcommand r \<noteq> 0 \<or> req_reply_handler r \<noteq> None"
  shows "\<exists>s'. dsi_recv env t ([], Read_data c) e = Some (0, s') \<and> delivered p (reply_of env h (encode_header h) r) s s'"
proof -
  note t = has_received_simps [OF s(2)]
  have hd: "header_of (encode_header h) = h" using header_of_encode [OF h(1), of "[]"] by simp
  have l: "length bs + length c = 16" using c(2) length_encode_header [of h] by (metis length_append)
  then have lb: "length bs < 16" using c(1) by (cases c) auto
  let ?u = "receive_more c t" and ?res = "s32 (hdr_error_code h)"
  have m: "has_received s (encode_header h) ?u"
    using has_received_more [OF s(2), of c] l c(2) by simp
  note u = has_received_simps [OF m]
  have hu: "srv_header ?u = h" using has_received_header [OF m] hd by simp
  have rh: "recv_header t (srv_generation t) ([], Read_data c) = Some (L_gotenough, ?u)"
    using recv_header_piece [OF s(2) c(1)] l c(2) hd h(2) by simp
  have pl: "recv_payload (hold p ?u) (srv_generation t) False ?res ([], Read_data c) = Some (L_process_packet, ?res, hold p ?u)"
    using u hu h(2) by (simp add: recv_payload_def Let_def)
  have hp: "srv_heap ?u p = Some r" using r(1) u(1) by (simp add: answers_def)
  then have hh: "srv_heap (hold p ?u) = (srv_heap ?u)(p \<mapsto> r\<lparr>req_receiving := True\<rparr>)"
    by (auto simp: upd_request_heap)
  obtain s' where s': "finish_process env (Some p) False ?res e (hold p ?u) = Some (0, s')"
    "delivered p (reply_of env h (encode_header h) r) s (release_request p s')"
    using complete_frame [OF s(1) m, of p r "hold p ?u" env e] r hd h(2) hh by auto
  then have "recv_gotenough env ?u (srv_generation t) ([], Read_data c) e = Some (0, Some p, s')"
    using gotenough_answers [OF m _ _ r(2), of p env "srv_generation t" "([], Read_data c)" e] r(1) pl hd
    by (simp add: finish_label_def)
  then have "recv_frame env t (srv_generation t) ([], Read_data c) e = Some (0, Some p, s')"
    using t s(1) lb rh by (simp add: recv_frame_def between_frames_def)
  then show ?thesis using t s(1) s'(2) by (simp add: dsi_recv_def Let_def between_frames_def)
qed

lemma header_only_pieces:
  assumes s: "between_frames s" "has_received s bs t" and hs: "[] \<notin> set hs" "hs \<noteq> []"
    and h: "bs @ concat hs = encode_header h" "wf_header h" "hdr_length h = 0"
    and r: "answers s h p r" "\<not> reads r" "req_subcommand r \<noteq> 0 \<or> req_reply_handler r \<noteq> None"
  shows "\<exists>s'. recv_run env hs t = Some s' \<and> delivered p (reply_of env h (encode_header h) r) s s'"
  using s(2) hs h(1)
proof (induction hs arbitrary: bs t)
  case (Cons c cs)
  have c: "c \<noteq> []" using Cons.prems by auto
  show ?case
  proof (cases "cs = []")
    case True
    then show ?thesis
      using last_header_piece [OF s(1) Cons.prems(1) c _ h(2,3) r, of env "([], Read_fail)"] Cons.prems(4) by auto
  next
    case False
    then have "concat cs \<noteq> []" using Cons.prems(2) by (cases cs) auto
    then have "0 < length (concat cs)" by (simp only: length_greater_0_conv not_False_eq_True)
    moreover have "length bs + length c + length (concat cs) = 16"
      using arg_cong [OF Cons.prems(4), of length] by simp
    ultimately have l: "length bs + length c < 16" by linarith
    then have "dsi_recv env t ([], Read_data c) ([], Read_fail) = Some (0, receive_more c t)"
      using header_piece [OF s(1) Cons.prems(1) c] by simp
    moreover have "has_received s (bs @ c) (receive_more c t)"
      by (rule has_received_more [OF Cons.prems(1)]) (use l in simp)
    ultimately show ?thesis using Cons.IH [of "bs @ c" "receive_more c t"] Cons.prems False by simp
  qed
qed simp

lemma pieces_delivered:
  assumes s: "between_frames s" and hs: "concat hs = encode_header h" "[] \<notin> set hs"
    and ps: "concat ps = payload" "[] \<notin> set ps"
    and h: "wf_header h" "hdr_length h = length payload" "length payload \<le> AFP_BUFSIZE - DSI_HEADER_SIZE"
    and r: "answers s h p r" "\<not> reads r" "req_subcommand r \<noteq> 0 \<or> req_reply_handler r \<noteq> None"
  shows "\<exists>s'. recv_run env (hs @ ps) s = Some s' \<and> delivered p (reply_of env h (encode_header h @ payload) r) s s'"
proof (cases "payload = []")
  case True
  then have "ps = []" using ps by (cases ps) auto
  moreover have "hs \<noteq> []" using hs by (auto simp: encode_header_def)
  ultimately show ?thesis
    using header_only_pieces [OF s has_received_start [OF s] hs(2) _ _ h(1) _ r] hs(1) h(2) True by simp
next
  case False
  then obtain t where t: "recv_run env hs s = Some t" "has_received s (encode_header h) t"
    using header_pieces [OF s has_received_start [OF s] hs(2) _ h(1)] hs(1) h(2) by auto
  have hd: "header_of (encode_header h) = h" using header_of_encode [OF h(1), of "[]"] by simp
  have "ps \<noteq> []" using False ps by auto
  then obtain s' where "recv_run env ps t = Some s'" "delivered p (reply_of env h (encode_header h @ payload) r) s s'"
    using payload_pieces [OF s t(2), of p r ps env] hd r h ps by auto
  then show ?thesis using t(1) by (simp add: recv_run_append)
qed

section \<open>A read reply streams into its buffer\<close>

definition rx_fill :: "rx_buffer \<Rightarrow> bytes \<Rightarrow> rx_buffer" where
  "rx_fill b ds = b\<lparr>rx_data := write_at (rx_data b) (rx_size b) ds, rx_size := rx_size b + length ds\<rparr>"

definition with_buffer :: "'o dsi_request \<Rightarrow> rx_buffer \<Rightarrow> 'o dsi_request" where
  "with_buffer r b =
     (case req_stream_buffer r of None \<Rightarrow> r\<lparr>req_other := Dest_rx b\<rparr> | Some _ \<Rightarrow> r\<lparr>req_stream_buffer := Some b\<rparr>)"

lemma with_buffer_simps [simp]:
  "req_requestid (with_buffer r b) = req_requestid r" "req_subcommand (with_buffer r b) = req_subcommand r"
  "req_done_waiting (with_buffer r b) = req_done_waiting r" "req_ignore_replies (with_buffer r b) = req_ignore_replies r"
  "req_receiving (with_buffer r b) = req_receiving r" "req_generation (with_buffer r b) = req_generation r"
  "reads (with_buffer r b) = reads r" "with_buffer (with_buffer r b) b' = with_buffer r b'"
  "streams_into (with_buffer r b) b"
  by (simp_all add: with_buffer_def reads_def streams_into_def read_buffer_def split: option.splits)

lemma with_buffer_receiving:
  "with_buffer (r\<lparr>req_receiving := v\<rparr>) b = (with_buffer r b)\<lparr>req_receiving := v\<rparr>"
  by (simp add: with_buffer_def split: option.splits)

lemma streams_into_receiving [simp]: "streams_into (r\<lparr>req_receiving := v\<rparr>) b = streams_into r b"
  unfolding streams_into_def using request_reads_cong(2) [of "r\<lparr>req_receiving := v\<rparr>" r] by simp

lemma with_buffer_same: "streams_into r b \<Longrightarrow> with_buffer r b = r"
  by (auto simp: with_buffer_def streams_into_def read_buffer_def split: option.splits dest.splits)

lemma write_at_twice:
  "n + length c + length d \<le> length x \<Longrightarrow> write_at (write_at x n c) (n + length c) d = write_at x n (c @ d)"
  by (simp add: write_at_def ac_simps)

lemma rx_fill_append:
  "rx_size b + length c + length d \<le> length (rx_data b) \<Longrightarrow> rx_fill (rx_fill b c) d = rx_fill b (c @ d)"
  by (simp add: rx_fill_def write_at_twice ac_simps)

lemma rx_fill_simps [simp]:
  "rx_size (rx_fill b c) = rx_size b + length c" "rx_maxsize (rx_fill b c) = rx_maxsize b"
  "rx_size b \<le> length (rx_data b) \<Longrightarrow> rx_fill b [] = b"
  "rx_size b + length c \<le> length (rx_data b) \<Longrightarrow> length (rx_data (rx_fill b c)) = length (rx_data b)"
  by (simp_all add: rx_fill_def)

lemma fill_buffer_fills:
  assumes "srv_heap t p = Some r" "streams_into r b" "rx_size b + length c \<le> length (rx_data b)"
  shows "fill_buffer p c (length c) t = Some (set_request p (with_buffer r (rx_fill b c)) t)"
  using assms
  by (auto simp: fill_buffer_def streams_into_def put_bytes_def rx_fill_def with_buffer_def read_buffer_def
      split: option.splits dest.splits)

text \<open>The state while a read reply streams: the header in the buffer, \<open>ds\<close> in the destination.\<close>

definition streaming ::
  "'o afp_server \<Rightarrow> dsi_header \<Rightarrow> nat \<Rightarrow> 'o dsi_request \<Rightarrow> rx_buffer \<Rightarrow> bytes \<Rightarrow> 'o afp_server \<Rightarrow> bool" where
  "streaming s h p r b ds t \<longleftrightarrow>
     srv_heap t = (srv_heap s)(p \<mapsto> with_buffer r (rx_fill b ds)) \<and> srv_queue t = srv_queue s
     \<and> srv_data_read t = DSI_HEADER_SIZE \<and> srv_header t = h \<and> srv_fd t = srv_fd s
     \<and> srv_discard_remaining t = srv_discard_remaining s
     \<and> srv_generation t = srv_generation s \<and> srv_rx_generation t = srv_rx_generation s"

lemma first_awaiting_same:
  assumes "h p = Some r" "awaits i r' = awaits i r"
  shows "first_awaiting (h(p \<mapsto> r')) i ps = first_awaiting h i ps"
  using assms by (induction ps) (auto split: option.splits)

lemma streaming_match:
  assumes "streaming s h p r b ds t" "answers s h p r"
  shows "match_request t = (Some p, Some p, False, hold p t)"
proof -
  have "first_awaiting (srv_heap t) (hdr_requestid h) (srv_queue t) = Some p"
    using assms first_awaiting_same [of "srv_heap s" p r "hdr_requestid h" "with_buffer r (rx_fill b ds)" "srv_queue s"]
    by (simp add: streaming_def answers_def awaits_def)
  then show ?thesis
    using assms by (simp add: match_request_def Let_def find_request_def streaming_def answers_def upd_request_heap)
qed

lemma read_data_piece:
  assumes t: "srv_heap t p = Some r" "streams_into r b" "wf_rx b" "srv_data_read t = DSI_HEADER_SIZE"
    and n: "hdr_length (srv_header t) = n" "n \<le> rx_maxsize b"
    and c: "c \<noteq> []" "rx_size b + length c \<le> n"
  shows "\<exists>u. recv_read_reply env t (srv_generation t) p r ([], Read_data c) =
      (if rx_size b + length c = n then Some (L_out, u\<lparr>srv_stream_read := 0, srv_data_read := 0\<rparr>) else Some (L_return 0, u))
    \<and> u = (set_request p (with_buffer r (rx_fill b c)) t)\<lparr>srv_stats := srv_stats u, srv_stream_read := srv_stream_read u\<rparr>"
proof -
  have lc: "0 < length c" using c(1) by simp
  define x where "x = count_rx (length c) (set_request p (with_buffer r (rx_fill b c)) t)"
  define u where "u = x\<lparr>srv_stream_read := srv_stream_read x + length c\<rparr>"
  have d: "dsi_read t (srv_generation t) k ([], Read_data c) = (t, RR_data c)" if "length c \<le> k" for k
    using c that by (simp add: dsi_read_def Let_def)
  have f: "fill_buffer p c (length c) t = Some (set_request p (with_buffer r (rx_fill b c)) t)"
    by (rule fill_buffer_fills [OF t(1,2)]) (use t(3) n c in \<open>simp add: wf_rx_def\<close>)
  have xs: "srv_stream_read (set_request p (with_buffer r (rx_fill b c)) t) = srv_stream_read x"
    by (simp add: x_def count_rx_def upd_stats_def)
  have bs: "buffer_size p u = rx_size b + length c" "srv_header u = srv_header t" "srv_data_read u = 16"
    using t(4) with_buffer_simps(9) [of r "rx_fill b c"]
    by (auto simp: u_def x_def buffer_size_def count_rx_def upd_stats_def set_request_def streams_into_def)
  have fr: "finish_read env u = (L_out, u\<lparr>srv_stream_read := 0, srv_data_read := 0\<rparr>)"
    using bs by (simp add: finish_read_def Let_def)
  have g: "\<not> (rx_maxsize b = 0)" "\<not> (n < rx_size b \<or> n > rx_maxsize b)" "n \<noteq> 0"
    "length c \<le> rx_maxsize b - rx_size b" "length c \<le> n - rx_size b" using n(2) c(2) lc by linarith+
  have m: "length c \<le> min (rx_maxsize b - rx_size b) (n - rx_size b)" using g(4,5) by simp
  have "recv_read_data env t (srv_generation t) p b ([], Read_data c) =
      (if rx_size b + length c = n then Some (L_out, u\<lparr>srv_stream_read := 0, srv_data_read := 0\<rparr>) else Some (L_return 0, u))"
    unfolding recv_read_data_def Let_def n(1)
    using g(1-3) d [OF m] f fr bs n(1)
    by (simp add: x_def [symmetric] xs u_def [symmetric])
  moreover have "recv_read_reply env t (srv_generation t) p r ([], Read_data c) =
      recv_read_data env t (srv_generation t) p b ([], Read_data c)"
    using t(2,4) n(1) g(3) by (auto simp: recv_read_reply_def streams_into_def)
  moreover have "u = (set_request p (with_buffer r (rx_fill b c)) t)\<lparr>srv_stats := srv_stats u, srv_stream_read := srv_stream_read u\<rparr>"
    by (simp add: u_def x_def count_rx_def upd_stats_def)
  ultimately show ?thesis by metis
qed

lemma read_piece:
  assumes s: "between_frames s" "streaming s h p r b ds t" "answers s h p r" "reads r"
    and b: "streams_into r b" "wf_rx b" "rx_size b = 0" "hdr_length h \<le> rx_maxsize b"
    and c: "c \<noteq> []" "length ds + length c \<le> hdr_length h"
  shows "\<exists>t'. dsi_recv env t ([], Read_data c) e = Some (0, t') \<and>
    (if length ds + length c = hdr_length h
     then delivered p (answer_request (s32 (hdr_error_code h)) (with_buffer r (rx_fill b (ds @ c)))) s t'
     else streaming s h p r b (ds @ c) t')"
proof -
  let ?b = "rx_fill b ds" and ?h = "hold p t" and ?r = "with_buffer r (rx_fill b ds)"
  let ?rh = "?r\<lparr>req_receiving := True\<rparr>" and ?res = "s32 (hdr_error_code h)"
  have st: "srv_heap t = (srv_heap s)(p \<mapsto> ?r)" "srv_header t = h" "srv_data_read t = 16" "srv_fd t = srv_fd s"
    "srv_queue t = srv_queue s" "srv_discard_remaining t = 0" "srv_generation t = srv_generation s"
    "srv_rx_generation t = srv_generation s"
    using s(1,2) by (simp_all add: streaming_def between_frames_def)
  have nr: "\<not> req_receiving r" using not_held [of s p r] s(1,3) by (simp add: between_frames_def answers_def)
  have k: "(with_buffer r x)\<lparr>req_receiving := False\<rparr> = with_buffer r x" for x
    using nr with_buffer_simps(5) [of r x] by (cases "with_buffer r x") simp
  have hh: "srv_heap ?h = (srv_heap s)(p \<mapsto> ?rh)" using st(1) by (auto simp: upd_request_heap)
  have le: "rx_size b + length ds + length c \<le> length (rx_data b)" using b c(2) by (simp add: wf_rx_def)
  have wf: "wf_rx ?b" using b c(2) le by (simp add: wf_rx_def)
  have f2: "rx_fill ?b c = rx_fill b (ds @ c)" by (rule rx_fill_append [OF le])
  have wb: "with_buffer ?rh x = (with_buffer r x)\<lparr>req_receiving := True\<rparr>" for x
    by (simp add: with_buffer_receiving)
  have ph: "srv_heap ?h p = Some ?rh" using hh by simp
  obtain u where u: "recv_read_reply env ?h (srv_generation t) p ?rh ([], Read_data c) =
      (if length ds + length c = hdr_length h then Some (L_out, u\<lparr>srv_stream_read := 0, srv_data_read := 0\<rparr>)
       else Some (L_return 0, u))"
    "u = (set_request p ((with_buffer r (rx_fill b (ds @ c)))\<lparr>req_receiving := True\<rparr>) ?h)
      \<lparr>srv_stats := srv_stats u, srv_stream_read := srv_stream_read u\<rparr>"
    using read_data_piece [OF ph _ wf _ _ _ c(1), of "hdr_length h" env] st b c(2) unfolding f2 wb by auto
  have g: "recv_gotenough env t (srv_generation t) ([], Read_data c) e =
      map_option (\<lambda>(rc, s'). (rc, Some p, s')) (finish_label env (Some p) False e
        (map_option (\<lambda>(l, s'). (l, ?res, s')) (recv_read_reply env ?h (srv_generation t) p ?rh ([], Read_data c))))"
    using streaming_match [OF s(2,3)] st s(3,4) ph
    by (simp add: recv_gotenough_def Let_def command_is_defined_def answers_def reads_def)
  have uf: "srv_heap u = (srv_heap s)(p \<mapsto> (with_buffer r (rx_fill b (ds @ c)))\<lparr>req_receiving := True\<rparr>)"
    "srv_queue u = srv_queue s" "srv_discard_remaining u = 0" "srv_generation u = srv_generation s"
    "srv_rx_generation u = srv_generation s" "srv_fd u = srv_fd s" "srv_data_read u = 16" "srv_header u = h"
    by (subst u(2); use hh st in \<open>simp add: set_request_def\<close>)+
  show ?thesis
  proof (cases "length ds + length c = hdr_length h")
    case True
    let ?x = "u\<lparr>srv_stream_read := 0, srv_data_read := 0\<rparr>" and ?q = "with_buffer r (rx_fill b (ds @ c))"
    have "recv_gotenough env t (srv_generation t) ([], Read_data c) e =
        Some (0, Some p, set_request p (answer_request ?res (?q\<lparr>req_receiving := True\<rparr>)) ?x)"
      using g u(1) True uf by (simp add: finish_label_def recv_out_def)
    moreover have "delivered p (answer_request ?res ?q) s
        (release_request p (set_request p (answer_request ?res (?q\<lparr>req_receiving := True\<rparr>)) (?x\<lparr>srv_data_read := 0\<rparr>)))"
      by (rule delivered_release) (use uf nr s(1) in \<open>simp_all add: between_frames_def\<close>)
    ultimately show ?thesis
      using True st s(1) by (simp add: dsi_recv_def recv_frame_def Let_def between_frames_def)
  next
    case False
    then have "recv_gotenough env t (srv_generation t) ([], Read_data c) e = Some (0, Some p, u)"
      using g u(1) by (simp add: finish_label_def)
    moreover have "streaming s h p r b (ds @ c) (release_request p u)"
      using uf k [of "rx_fill b (ds @ c)"] s(1)
      by (auto simp: streaming_def release_request_def upd_request_heap fun_eq_iff between_frames_def)
    ultimately show ?thesis
      using False st s(1) by (simp add: dsi_recv_def recv_frame_def Let_def between_frames_def)
  qed
qed

lemma read_pieces:
  assumes s: "between_frames s" "streaming s h p r b ds t" "answers s h p r" "reads r"
    and b: "streams_into r b" "wf_rx b" "rx_size b = 0" "hdr_length h \<le> rx_maxsize b"
    and ps: "length ds + length (concat ps) = hdr_length h" "[] \<notin> set ps" "ps \<noteq> []"
  shows "\<exists>s'. recv_run env ps t = Some s' \<and>
    delivered p (answer_request (s32 (hdr_error_code h)) (with_buffer r (rx_fill b (ds @ concat ps)))) s s'"
  using s(2) ps
proof (induction ps arbitrary: ds t)
  case (Cons c cs)
  have c: "c \<noteq> []" "length ds + length c \<le> hdr_length h" using Cons.prems by auto
  show ?case
  proof (cases "cs = []")
    case True
    then show ?thesis
      using read_piece [OF s(1) Cons.prems(1) s(3,4) b c, of env "([], Read_fail)"] Cons.prems(2) by auto
  next
    case False
    then have "concat cs \<noteq> []" using Cons.prems(3) by (cases cs) auto
    then have "0 < length (concat cs)" by (simp only: length_greater_0_conv not_False_eq_True)
    moreover have "length ds + length c + length (concat cs) = hdr_length h" using Cons.prems(2) by simp
    ultimately have l: "length ds + length c \<noteq> hdr_length h" by linarith
    obtain t' where "dsi_recv env t ([], Read_data c) ([], Read_fail) = Some (0, t')" "streaming s h p r b (ds @ c) t'"
      using read_piece [OF s(1) Cons.prems(1) s(3,4) b c, of env "([], Read_fail)"] l by auto
    then show ?thesis using Cons.IH [of "ds @ c" t'] Cons.prems False by simp
  qed
qed simp

lemma read_reply_pieces:
  assumes s: "between_frames s" and hs: "concat hs = encode_header h" "[] \<notin> set hs"
    and ps: "concat ps = payload" "[] \<notin> set ps" "payload \<noteq> []"
    and h: "wf_header h" "hdr_length h = length payload"
    and r: "answers s h p r" "reads r" "streams_into r b" "wf_rx b" "rx_size b = 0" "length payload \<le> rx_maxsize b"
  shows "\<exists>s'. recv_run env (hs @ ps) s = Some s' \<and>
    delivered p (answer_request (s32 (hdr_error_code h)) (with_buffer r (rx_fill b payload))) s s'"
proof -
  obtain t where t: "recv_run env hs s = Some t" "has_received s (encode_header h) t"
    using header_pieces [OF s has_received_start [OF s] hs(2) _ h(1)] hs(1) h(2) ps(3) by auto
  note ts = has_received_simps [OF t(2)]
  have "srv_header t = h" using has_received_header [OF t(2)] header_of_encode [OF h(1), of "[]"] by simp
  moreover have "rx_fill b [] = b" using r(4,5) by (simp add: wf_rx_def)
  moreover have "(srv_heap s)(p \<mapsto> r) = srv_heap s" using r(1) by (auto simp: answers_def)
  ultimately have st: "streaming s h p r b [] t"
    using ts with_buffer_same [OF r(3)] by (simp add: streaming_def)
  have "ps \<noteq> []" using ps by auto
  then have "\<exists>s'. recv_run env ps t = Some s' \<and>
      delivered p (answer_request (s32 (hdr_error_code h)) (with_buffer r (rx_fill b payload))) s s'"
    using read_pieces [OF s st r(1-5), of ps env] h(2) ps r(6) by simp
  then show ?thesis using t(1) by (simp add: recv_run_append)
qed

section \<open>Replies that answer no request\<close>

text \<open>A reply to an identifier no request awaits, or to a request of a replaced connection.\<close>

definition unanswered :: "'o afp_server \<Rightarrow> dsi_header \<Rightarrow> bool" where
  "unanswered s h \<longleftrightarrow> hdr_flags h = DSI_REPLY \<and> command_is_defined (hdr_command h)
     \<and> (case first_awaiting (srv_heap s) (hdr_requestid h) (srv_queue s) of
          None \<Rightarrow> True
        | Some p \<Rightarrow> (case srv_heap s p of None \<Rightarrow> False | Some r \<Rightarrow> req_generation r \<noteq> srv_generation s))"

definition hold_found :: "nat option \<Rightarrow> 'o afp_server \<Rightarrow> 'o afp_server" where
  "hold_found fo t = (case fo of None \<Rightarrow> t | Some p \<Rightarrow> hold p t)"

definition release_found :: "nat option \<Rightarrow> 'o afp_server \<Rightarrow> 'o afp_server" where
  "release_found fo t = (case fo of None \<Rightarrow> t | Some p \<Rightarrow> release_request p t)"

lemma count_runt_hold: "count_runt (upd_request p f t) = upd_request p f (count_runt t)"
  by (simp add: count_runt_def upd_stats_def upd_request_def set_request_def split: option.splits)

lemma has_received_runt:
  assumes "has_received s bs t"
  shows "has_received s bs (count_runt t)"
proof -
  let ?t = "s\<lparr>srv_incoming_buffer := srv_incoming_buffer t, srv_data_read := length bs, srv_stats := srv_stats t\<rparr>"
  have "t = ?t" using assms by (simp add: has_received_def)
  then have "t\<lparr>srv_stats := x\<rparr> = ?t\<lparr>srv_stats := x\<rparr>" for x by (rule arg_cong)
  then show ?thesis using assms by (simp add: has_received_def count_runt_def upd_stats_def)
qed

lemma has_received_hold_found: "has_received s bs t \<Longrightarrow> has_received (hold_found fo s) bs (hold_found fo t)"
  by (auto simp: hold_found_def has_received_hold split: option.splits)

lemma hold_found_simps [simp]:
  "srv_stream_read (hold_found fo t) = srv_stream_read t" "srv_bufsize (hold_found fo t) = srv_bufsize t"
  "srv_generation (hold_found fo t) = srv_generation t" "srv_data_read (hold_found fo t) = srv_data_read t"
  "srv_incoming_buffer (hold_found fo t) = srv_incoming_buffer t"
  by (simp_all add: hold_found_def split: option.splits)

lemma match_unanswered:
  assumes "has_received s bs t" "16 \<le> length bs" "unanswered s (header_of bs)"
  obtains fo where "match_request t = (None, fo, True, hold_found fo (count_runt t))"
    "\<And>p. fo = Some p \<Longrightarrow> srv_heap s p \<noteq> None"
proof -
  let ?fo = "first_awaiting (srv_heap s) (hdr_requestid (header_of bs)) (srv_queue s)"
  have "match_request t = (None, ?fo, True, hold_found ?fo (count_runt t))"
    using assms(3) has_received_header [OF assms(1,2)] has_received_simps [OF assms(1)]
    by (auto simp: match_request_def Let_def find_request_def unanswered_def upd_request_heap hold_found_def
        count_runt_hold split: option.splits)
  moreover have "srv_heap s p \<noteq> None" if "?fo = Some p" for p using first_awaiting_Some [OF that] by blast
  ultimately show thesis using that by blast
qed

lemma release_found_more:
  assumes "held s = {}" "has_received s bs t" "\<And>p. fo = Some p \<Longrightarrow> srv_heap s p \<noteq> None"
  shows "release_found fo (receive_more c (hold_found fo t)) = receive_more c t"
    "release_found fo ((receive_more c (hold_found fo t))\<lparr>srv_data_read := n\<rparr>) = (receive_more c t)\<lparr>srv_data_read := n\<rparr>"
    "release_found fo ((hold_found fo t)\<lparr>srv_data_read := n\<rparr>) = t\<lparr>srv_data_read := n\<rparr>"
proof -
  have cm: "release_request p (x\<lparr>srv_data_read := n\<rparr>) = (release_request p x)\<lparr>srv_data_read := n\<rparr>"
    for p and x :: "'a afp_server"
    by (simp add: release_request_def upd_request_def set_request_def split: option.splits)
  have one: "release_request p (receive_more c (hold p t)) = receive_more c t \<and> release_request p (hold p t) = t"
    if fo: "fo = Some p" for p
  proof -
    obtain r where r: "srv_heap s p = Some r" using assms(3) [OF fo] by blast
    have nr: "\<not> req_receiving r" by (rule not_held [OF assms(1) r])
    have ht: "srv_heap t p = Some r" using r has_received_simps(1) [OF assms(2)] by simp
    have "r\<lparr>req_receiving := False\<rparr> = r" using nr by simp
    then have "(srv_heap t)(p \<mapsto> r\<lparr>req_receiving := False\<rparr>) = srv_heap t" using ht by auto
    then have "release_request p (hold p t) = t"
      using ht by (simp add: release_request_def upd_request_def set_request_def)
    then show ?thesis using release_hold [OF ht nr] by simp
  qed
  show "release_found fo (receive_more c (hold_found fo t)) = receive_more c t"
    using one by (simp add: release_found_def hold_found_def split: option.splits)
  show "release_found fo ((receive_more c (hold_found fo t))\<lparr>srv_data_read := n\<rparr>) = (receive_more c t)\<lparr>srv_data_read := n\<rparr>"
    using one cm by (simp add: release_found_def hold_found_def split: option.splits)
  show "release_found fo ((hold_found fo t)\<lparr>srv_data_read := n\<rparr>) = t\<lparr>srv_data_read := n\<rparr>"
    using one cm by (simp add: release_found_def hold_found_def split: option.splits)
qed

lemma gotenough_unanswered:
  assumes "has_received s bs t" "16 \<le> length bs" "unanswered s (header_of bs)"
    "match_request t = (None, fo, True, x)"
  shows "recv_gotenough env t gen ev e =
    map_option (\<lambda>(rc, s'). (rc, fo, s')) (finish_label env None True e (recv_payload x gen True 0 ev))"
  using has_received_header [OF assms(1,2)] assms(3,4) by (simp add: recv_gotenough_def Let_def unanswered_def)

lemma unanswered_piece:
  assumes s: "between_frames s" "has_received s bs t" "16 \<le> length bs" "unanswered s (header_of bs)"
    and h: "hdr_length (header_of bs) = n" "n \<le> AFP_BUFSIZE - 16"
    and c: "c \<noteq> []" "length bs + length c \<le> 16 + n"
  shows "dsi_recv env t ([], Read_data c) e =
    Some (0, if length bs + length c < 16 + n then receive_more c (count_runt t)
             else (receive_more c (count_runt t))\<lparr>srv_data_read := 0\<rparr>)"
proof -
  note t = has_received_simps [OF s(2)]
  obtain fo where fo: "match_request t = (None, fo, True, hold_found fo (count_runt t))"
    "\<And>p. fo = Some p \<Longrightarrow> srv_heap s p \<noteq> None" using match_unanswered [OF s(2-4)] by blast
  let ?x = "hold_found fo (count_runt t)"
  have hx: "has_received (hold_found fo s) bs ?x" by (intro has_received_hold_found has_received_runt s)
  have hr: "held s = {}" "srv_stream_read s = 0" "srv_bufsize s = AFP_BUFSIZE"
    using s(1) by (simp_all add: between_frames_def recv_inv_def)
  have gx: "srv_generation ?x = srv_generation t" by (simp add: count_runt_def upd_stats_def)
  have pl: "recv_payload ?x (srv_generation t) True 0 ([], Read_data c) =
      Some (if length bs + length c < 16 + n then L_return 0 else L_after_processing, 0, receive_more c ?x)"
    using recv_payload_piece [OF hx s(3) _ _ h c, of True 0] hr gx by simp
  have m: "has_received (hold_found fo s) (bs @ c) (receive_more c ?x)"
    by (rule has_received_more [OF hx]) (use c h in simp)
  have ap: "after_processing (receive_more c ?x) = Some (L_out, (receive_more c ?x)\<lparr>srv_data_read := 0\<rparr>)"
    if "length bs + length c = 16 + n"
    using has_received_header [OF m] has_received_simps(3) [OF m] that s(3) h(1) header_of_cong [of "bs @ c" bs]
    by (simp add: after_processing_def Let_def)
  have "recv_gotenough env t (srv_generation t) ([], Read_data c) e =
      Some (0, fo, if length bs + length c < 16 + n then receive_more c ?x else (receive_more c ?x)\<lparr>srv_data_read := 0\<rparr>)"
    unfolding gotenough_unanswered [OF s(2-4) fo(1)] pl
    using ap c(2) by (auto simp: finish_label_def finish_after_def recv_out_def)
  then have "dsi_recv env t ([], Read_data c) e = Some (0, release_found fo
      (if length bs + length c < 16 + n then receive_more c ?x else (receive_more c ?x)\<lparr>srv_data_read := 0\<rparr>))"
    using t s(1,3) by (simp add: dsi_recv_def recv_frame_def Let_def between_frames_def release_found_def)
  then show ?thesis
    using release_found_more [OF hr(1) has_received_runt [OF s(2)] fo(2)] by simp
qed

lemma unanswered_last_header_piece:
  assumes s: "between_frames s" "has_received s bs t"
    and c: "c \<noteq> []" "bs @ c = encode_header h" and h: "wf_header h" "hdr_length h = 0" "unanswered s h"
  shows "dsi_recv env t ([], Read_data c) e = Some (0, (count_runt (receive_more c t))\<lparr>srv_data_read := 0\<rparr>)"
proof -
  note t = has_received_simps [OF s(2)]
  have hd: "header_of (encode_header h) = h" using header_of_encode [OF h(1), of "[]"] by simp
  have l: "length bs + length c = 16" using c(2) length_encode_header [of h] by (metis length_append)
  then have lb: "length bs < 16" using c(1) by (cases c) auto
  let ?u = "receive_more c t"
  have m: "has_received s (encode_header h) ?u" using has_received_more [OF s(2), of c] l c(2) by simp
  obtain fo where fo: "match_request ?u = (None, fo, True, hold_found fo (count_runt ?u))"
    "\<And>p. fo = Some p \<Longrightarrow> srv_heap s p \<noteq> None" using match_unanswered [OF m] h(3) hd by auto
  let ?x = "hold_found fo (count_runt ?u)"
  have hx: "has_received (hold_found fo s) (encode_header h) ?x"
    by (intro has_received_hold_found has_received_runt m)
  note x = has_received_simps [OF hx] has_received_header [OF hx]
  have rh: "recv_header t (srv_generation t) ([], Read_data c) = Some (L_gotenough, ?u)"
    using recv_header_piece [OF s(2) c(1)] l c(2) hd h(2) by simp
  have "recv_payload ?x (srv_generation t) True 0 ([], Read_data c) = Some (L_after_processing, 0, ?x)"
    using x(3,11) hd h(2) by (simp add: recv_payload_def Let_def)
  moreover have "after_processing ?x = Some (L_out, ?x\<lparr>srv_data_read := 0\<rparr>)"
    using x(3,11) hd h(2) by (simp add: after_processing_def Let_def)
  ultimately have "recv_gotenough env ?u (srv_generation t) ([], Read_data c) e = Some (0, fo, ?x\<lparr>srv_data_read := 0\<rparr>)"
    using gotenough_unanswered [OF m _ _ fo(1), of env "srv_generation t" "([], Read_data c)" e] hd h(3)
    by (simp add: finish_label_def finish_after_def recv_out_def)
  then have "dsi_recv env t ([], Read_data c) e = Some (0, release_found fo (?x\<lparr>srv_data_read := 0\<rparr>))"
    using t s(1) lb rh by (simp add: dsi_recv_def recv_frame_def Let_def between_frames_def release_found_def)
  then show ?thesis
    using release_found_more(3) [OF _ has_received_runt [OF m] fo(2)] s(1) by (simp add: between_frames_def)
qed

text \<open>The state after a dropped frame: nothing but the buffer and the counters differs.\<close>

definition dropped :: "'o afp_server \<Rightarrow> 'o afp_server \<Rightarrow> bool" where
  "dropped s s' \<longleftrightarrow> s' = s\<lparr>srv_incoming_buffer := srv_incoming_buffer s', srv_stats := srv_stats s'\<rparr>
     \<and> st_requests_pending (srv_stats s') = st_requests_pending (srv_stats s)"

lemma has_received_dropped:
  assumes "between_frames s" "has_received s bs t"
  shows "dropped s (t\<lparr>srv_data_read := 0\<rparr>)"
proof -
  let ?t = "s\<lparr>srv_incoming_buffer := srv_incoming_buffer t, srv_data_read := length bs, srv_stats := srv_stats t\<rparr>"
  have "t = ?t" using assms by (simp add: has_received_def)
  then have "t\<lparr>srv_data_read := 0\<rparr> = ?t\<lparr>srv_data_read := 0\<rparr>" by (rule arg_cong)
  moreover have "srv_data_read s = 0" using assms(1) by (simp add: between_frames_def)
  then have "s\<lparr>srv_incoming_buffer := a, srv_stats := b, srv_data_read := 0\<rparr> = s\<lparr>srv_incoming_buffer := a, srv_stats := b\<rparr>"
    for a b by (cases s) simp
  ultimately show ?thesis using assms(2) by (simp add: dropped_def has_received_def)
qed

lemma unanswered_pieces:
  assumes s: "between_frames s" "has_received s bs t" "16 \<le> length bs" "unanswered s (header_of bs)"
    and h: "length bs + length (concat ps) = 16 + hdr_length (header_of bs)" "hdr_length (header_of bs) \<le> AFP_BUFSIZE - 16"
    and ps: "[] \<notin> set ps" "ps \<noteq> []"
  shows "\<exists>s'. recv_run env ps t = Some s' \<and> dropped s s'"
  using s(2-4) h ps
proof (induction ps arbitrary: bs t)
  case (Cons c cs)
  let ?n = "hdr_length (header_of bs)"
  have c: "c \<noteq> []" using Cons.prems by auto
  have hb: "header_of (bs @ c) = header_of bs" using Cons.prems(2) by (intro header_of_cong) simp
  have l: "length bs + length c + length (concat cs) = 16 + ?n" using Cons.prems(4) by simp
  have m: "has_received s (bs @ c) (receive_more c (count_runt t))"
    by (rule has_received_more [OF has_received_runt [OF Cons.prems(1)]]) (use l Cons.prems(5) in linarith)
  have p: "dsi_recv env t ([], Read_data c) ([], Read_fail) =
      Some (0, if length bs + length c < 16 + ?n then receive_more c (count_runt t)
               else (receive_more c (count_runt t))\<lparr>srv_data_read := 0\<rparr>)"
    by (rule unanswered_piece [OF s(1) Cons.prems(1-3) refl Cons.prems(5) c]) (use l in linarith)
  show ?case
  proof (cases "cs = []")
    case True
    then show ?thesis using p l has_received_dropped [OF s(1) m] by simp
  next
    case False
    then have "concat cs \<noteq> []" using Cons.prems(6) by (cases cs) auto
    then have "0 < length (concat cs)" by (simp only: length_greater_0_conv not_False_eq_True)
    then have "length bs + length c < 16 + ?n" using l by linarith
    then show ?thesis using Cons.IH [OF m] Cons.prems p hb False l by simp
  qed
qed simp

lemma unanswered_header_pieces:
  assumes s: "between_frames s" "has_received s bs t" and hs: "[] \<notin> set hs" "hs \<noteq> []"
    and h: "bs @ concat hs = encode_header h" "wf_header h" "hdr_length h = 0" "unanswered s h"
  shows "\<exists>s'. recv_run env hs t = Some s' \<and> dropped s s'"
  using s(2) hs h(1)
proof (induction hs arbitrary: bs t)
  case (Cons c cs)
  have c: "c \<noteq> []" using Cons.prems by auto
  have l: "length bs + length c + length (concat cs) = 16" using arg_cong [OF Cons.prems(4), of length] by simp
  have m: "has_received s (bs @ c) (receive_more c t)"
    by (rule has_received_more [OF Cons.prems(1)]) (use l in linarith)
  show ?case
  proof (cases "cs = []")
    case True
    then show ?thesis
      using unanswered_last_header_piece [OF s(1) Cons.prems(1) c _ h(2-4), of env "([], Read_fail)"] Cons.prems(4)
        has_received_dropped [OF s(1) has_received_runt [OF m]] by simp
  next
    case False
    then have "concat cs \<noteq> []" using Cons.prems(2) by (cases cs) auto
    then have "0 < length (concat cs)" by (simp only: length_greater_0_conv not_False_eq_True)
    then have "length bs + length c < 16" using l by linarith
    then have "dsi_recv env t ([], Read_data c) ([], Read_fail) = Some (0, receive_more c t)"
      using header_piece [OF s(1) Cons.prems(1) c] by simp
    then show ?thesis using Cons.IH [OF m] Cons.prems False by simp
  qed
qed simp

section \<open>Properties\<close>

text \<open>A connected session with one request of identifier 1 under way, and the header of a reply.\<close>

definition waiting_session :: "nat \<Rightarrow> nat dest \<Rightarrow> nat afp_server" where
  "waiting_session subcommand oth =
     (let base = (server_init AFP_BUFSIZE)\<lparr>srv_fd := 3, srv_connect_state := STATE_CONNECTED\<rparr>
      in enqueue_request 7 (new_request base 1 DSI_DEFAULT_TIMEOUT subcommand oth None None) base)"

definition reply_header :: "nat \<Rightarrow> nat \<Rightarrow> nat \<Rightarrow> dsi_header" where
  "reply_header requestid err len =
     \<lparr>hdr_flags = DSI_REPLY, hdr_command = DSI_DSICommand, hdr_requestid = requestid, hdr_error_code = err,
      hdr_length = len, hdr_reserved = 0\<rparr>"

definition waiting_request :: "nat \<Rightarrow> nat dest \<Rightarrow> nat dsi_request" where
  "waiting_request subcommand oth = new_request (server_init 0) 1 DSI_DEFAULT_TIMEOUT subcommand oth None None"

lemma waiting_session_heap: "srv_heap (waiting_session sc oth) = [7 \<mapsto> waiting_request sc oth]"
  "srv_queue (waiting_session sc oth) = [7]" "srv_generation (waiting_session sc oth) = 0"
  by (simp_all add: waiting_session_def waiting_request_def Let_def enqueue_request_def upd_stats_def
      set_request_def new_request_def server_init_def)

lemma between_frames_waiting:
  assumes "wf_request (waiting_request sc oth)"
  shows "between_frames (waiting_session sc oth)"
proof -
  have "queue_inv (waiting_session sc oth)"
    unfolding waiting_session_def Let_def
    by (rule queue_inv_enqueue) (simp_all add: queue_inv_def server_init_def new_request_def u64_def)
  moreover have "held (waiting_session sc oth) = {}"
    by (simp add: held_def waiting_session_heap waiting_request_def new_request_def)
  moreover have "wf_requests (waiting_session sc oth)"
    using assms by (simp add: wf_requests_def waiting_session_heap)
  ultimately show ?thesis
    by (simp add: between_frames_def recv_inv_def wf_status_def)
      (simp add: waiting_session_def Let_def enqueue_request_def upd_stats_def set_request_def server_init_def)
qed

lemma answers_waiting: "answers (waiting_session sc oth) (reply_header 1 err len) 7 (waiting_request sc oth)"
  by (simp add: answers_def reply_header_def waiting_session_heap awaits_def)
    (simp add: waiting_request_def new_request_def server_init_def)

text \<open>C7: a reply is delivered to its request whatever the pieces it arrives in. For every cut of
  the header and of the payload into non-empty pieces, one per receive call, every call returns 0,
  the command's parser runs once, on the whole frame, and the request gets the server's error code,
  or the parser's result when that is 0, and what the parser made of its destination; no other
  request changes and the stream is back between frames.\<close>
theorem reply_delivered:
  assumes "between_frames s" "concat hs = encode_header h" "[] \<notin> set hs" "concat ps = payload" "[] \<notin> set ps"
    "wf_header h" "hdr_length h = length payload" "length payload \<le> AFP_BUFSIZE - DSI_HEADER_SIZE"
    "answers s h p r" "\<not> reads r" "req_subcommand r \<noteq> 0 \<or> req_reply_handler r \<noteq> None"
    "env_reply env (req_reply_handler r) (req_subcommand r) (encode_header h @ payload) (req_other r) = (rc, oth)"
  shows "\<exists>s'. recv_run env (hs @ ps) s = Some s' \<and> srv_data_read s' = 0 \<and> srv_queue s' = srv_queue s \<and>
    srv_heap s' = (srv_heap s)(p \<mapsto> answer_request
      (if rc \<noteq> 0 \<and> s32 (hdr_error_code h) = 0 then rc else s32 (hdr_error_code h)) (r\<lparr>req_other := oth\<rparr>))"
proof -
  obtain s' where "recv_run env (hs @ ps) s = Some s'" "delivered p (reply_of env h (encode_header h @ payload) r) s s'"
    using pieces_delivered [OF assms(1-11), of env] by blast
  then show ?thesis using assms(12) by (simp add: delivered_def reply_of_def Let_def)
qed

lemma encode_header_cut: "take 5 (encode_header h) \<noteq> []" "drop 5 (encode_header h) \<noteq> []"
proof -
  have "length (take 5 (encode_header h)) = 5" "length (drop 5 (encode_header h)) = 11" by simp_all
  then show "take 5 (encode_header h) \<noteq> []" "drop 5 (encode_header h) \<noteq> []" by (metis list.size(3) zero_neq_numeral)+
qed

lemma wf_reply_header: "i < 65536 \<Longrightarrow> err < 2 ^ 32 \<Longrightarrow> len < 2 ^ 32 \<Longrightarrow> wf_header (reply_header i err len)"
  by (simp add: wf_header_def reply_header_def)

theorem reply_delivered_witness:
  "\<exists>s'. recv_run (plain_env\<lparr>env_reply := \<lambda>_ _ frame oth. (int (length frame), oth)\<rparr>)
      ([take 5 (encode_header (reply_header 1 0 3)), drop 5 (encode_header (reply_header 1 0 3))] @ [[1, 2], [3]])
      (waiting_session 2 Dest_null) = Some s' \<and> srv_data_read s' = 0"
proof -
  let ?h = "reply_header 1 0 3" and ?r = "waiting_request 2 Dest_null"
  have r: "\<not> reads ?r" "req_subcommand ?r \<noteq> 0 \<or> req_reply_handler ?r \<noteq> None" "wf_request ?r"
    by (simp_all add: reads_def waiting_request_def new_request_def wf_request_def)
  have h: "wf_header ?h" by (rule wf_reply_header) simp_all
  have l: "hdr_length ?h = length [1, 2, 3 :: byte]" by (simp add: reply_header_def)
  have c: "concat [take 5 (encode_header ?h), drop 5 (encode_header ?h)] = encode_header ?h"
    "[] \<notin> set [take 5 (encode_header ?h), drop 5 (encode_header ?h)]"
    using encode_header_cut [of ?h] by (simp, auto)
  show ?thesis
    using reply_delivered [OF between_frames_waiting [OF r(3)] c _ _ h l _ answers_waiting r(1,2),
        of "[[1, 2], [3]]" "plain_env\<lparr>env_reply := \<lambda>_ _ frame oth. (int (length frame), oth)\<rparr>" _ Dest_null]
    by (simp add: waiting_request_def new_request_def del: recv_run.simps) blast
qed

text \<open>C8: a read reply streams into the destination of its request. Whatever pieces header and data
  arrive in, the data ends up in the request's buffer, in order and from its start, its size set,
  and the request gets the server's error code; no other request changes and the stream is back
  between frames.\<close>
theorem read_reply_delivered:
  assumes "between_frames s" "concat hs = encode_header h" "[] \<notin> set hs" "concat ps = payload" "[] \<notin> set ps"
    "payload \<noteq> []" "wf_header h" "hdr_length h = length payload" "answers s h p r" "reads r"
    "streams_into r b" "wf_rx b" "rx_size b = 0" "length payload \<le> rx_maxsize b"
  shows "\<exists>s' b'. recv_run env (hs @ ps) s = Some s' \<and> srv_data_read s' = 0 \<and> srv_queue s' = srv_queue s \<and>
    srv_heap s' = (srv_heap s)(p \<mapsto> answer_request (s32 (hdr_error_code h)) (with_buffer r b')) \<and>
    take (rx_size b') (rx_data b') = payload"
proof -
  obtain s' where "recv_run env (hs @ ps) s = Some s'"
    "delivered p (answer_request (s32 (hdr_error_code h)) (with_buffer r (rx_fill b payload))) s s'"
    using read_reply_pieces [OF assms(1-14), of env] by blast
  moreover have "take (length payload) (write_at (rx_data b) 0 payload) = payload"
    using take_write_at_end [of 0 "rx_data b" payload] by simp
  ultimately show ?thesis
    using assms(13) by (auto simp: delivered_def rx_fill_def)
qed

theorem read_reply_delivered_witness:
  "\<exists>s'. recv_run plain_env ([encode_header (reply_header 1 0 3)] @ [[1], [2, 3]])
      (waiting_session afpRead (Dest_rx \<lparr>rx_data = [0, 0, 0, 0], rx_maxsize = 4, rx_size = 0, rx_errorcode = 0\<rparr>)) = Some s' \<and>
    srv_data_read s' = 0"
proof -
  let ?h = "reply_header 1 0 3" and ?b = "\<lparr>rx_data = [0, 0, 0, 0], rx_maxsize = 4, rx_size = 0, rx_errorcode = 0\<rparr>"
  let ?r = "waiting_request afpRead (Dest_rx ?b)"
  have r: "reads ?r" "streams_into ?r ?b" "wf_rx ?b" "wf_request ?r"
    by (simp_all add: reads_def waiting_request_def new_request_def wf_request_def streams_into_def read_buffer_def wf_rx_def)
  have h: "wf_header ?h" by (rule wf_reply_header) simp_all
  have l: "hdr_length ?h = length [1, 2, 3 :: byte]" by (simp add: reply_header_def)
  have c: "concat [encode_header ?h] = encode_header ?h" "[] \<notin> set [encode_header ?h]"
    by (simp_all add: encode_header_def)
  show ?thesis
    using read_reply_delivered [OF between_frames_waiting [OF r(4)] c _ _ _ h l answers_waiting r(1-3),
        of "[[1], [2, 3]]" plain_env] by auto
qed

text \<open>C9: a reply no request awaits is dropped. A reply to an identifier that is not under way, or
  that was sent on a replaced connection, changes neither queue nor requests, whatever the pieces
  it arrives in: the stream is back between frames, and only the receive buffer and the counters
  differ.\<close>
theorem unmatched_reply_dropped:
  assumes "between_frames s" "concat hs = encode_header h" "[] \<notin> set hs" "concat ps = payload" "[] \<notin> set ps"
    "wf_header h" "hdr_length h = length payload" "length payload \<le> AFP_BUFSIZE - DSI_HEADER_SIZE" "unanswered s h"
  shows "\<exists>s'. recv_run env (hs @ ps) s = Some s' \<and>
    s' = s\<lparr>srv_incoming_buffer := srv_incoming_buffer s', srv_stats := srv_stats s'\<rparr>"
proof (cases "payload = []")
  case True
  then have "ps = []" using assms(4,5) by (cases ps) auto
  moreover have "hs \<noteq> []" using assms(2) by (auto simp: encode_header_def)
  ultimately show ?thesis
    using unanswered_header_pieces [OF assms(1) has_received_start [OF assms(1)] assms(3) _ _ assms(6) _ assms(9), of env]
      assms(2,7) True by (auto simp: dropped_def)
next
  case False
  then obtain t where t: "recv_run env hs s = Some t" "has_received s (encode_header h) t"
    using header_pieces [OF assms(1) has_received_start [OF assms(1)] assms(3) _ assms(6)] assms(2,7) by auto
  have hd: "header_of (encode_header h) = h" using header_of_encode [OF assms(6), of "[]"] by simp
  have "ps \<noteq> []" using False assms(4) by auto
  then have "\<exists>s'. recv_run env ps t = Some s' \<and> dropped s s'"
    using unanswered_pieces [OF assms(1) t(2), of ps env] hd assms(4-9) by simp
  then show ?thesis using t(1) by (auto simp: recv_run_append dropped_def)
qed

theorem unmatched_reply_dropped_witness:
  "\<exists>s'. recv_run plain_env ([encode_header (reply_header 9 0 2)] @ [[5, 6]]) (waiting_session 2 Dest_null) = Some s' \<and>
    srv_heap s' = srv_heap (waiting_session 2 Dest_null)"
proof -
  let ?h = "reply_header 9 0 2" and ?s = "waiting_session 2 Dest_null"
  have w: "wf_request (waiting_request 2 Dest_null)"
    by (simp add: reads_def waiting_request_def new_request_def wf_request_def)
  have h: "wf_header ?h" by (rule wf_reply_header) simp_all
  have c: "concat [encode_header ?h] = encode_header ?h" "[] \<notin> set [encode_header ?h]"
    by (simp_all add: encode_header_def)
  have u: "unanswered ?s ?h"
    by (simp add: unanswered_def waiting_session_heap awaits_def waiting_request_def new_request_def
        reply_header_def command_is_defined_def)
  obtain s' where "recv_run plain_env ([encode_header ?h] @ [[5, 6]]) ?s = Some s'"
    and s': "s' = ?s\<lparr>srv_incoming_buffer := srv_incoming_buffer s', srv_stats := srv_stats s'\<rparr>"
    using unmatched_reply_dropped [OF between_frames_waiting [OF w] c _ _ h _ _ u, of "[[5, 6]]" "[5, 6]" plain_env]
    by (auto simp: reply_header_def)
  moreover have "srv_heap s' = srv_heap ?s" by (subst s') simp
  ultimately show ?thesis by blast
qed

end
