(* ===== verification/Dsi_Send.thy ===== *)
theory Dsi_Send
  imports Dsi_Delivery
begin

text \<open>
  The sender's side of a session: \<open>afpc_dsi_send_with_reply\<close> of \<open>lib/dsi.c\<close>, the reconnect of
  \<open>lib/afp.c\<close> it may run first, and the attention thread.  What the other threads do while a sender
  waits, the receiver among them, is a state transformer of the environment; so are the exchanges
  a reconnect makes, whose own sends are those of this theory.  The address of a new request and the
  results of allocations and of \<open>send\<close> are parameters.
\<close>

section \<open>Reconnecting\<close>

definition server_still_valid :: "'o afp_server \<Rightarrow> bool" where
  "server_still_valid srv \<longleftrightarrow> srv_connect_state srv \<in> {STATE_CONNECTED, STATE_DISCONNECTED, STATE_CONNECTING}"

definition has_valid_signature :: "'o afp_server \<Rightarrow> bool" where
  "has_valid_signature srv \<longleftrightarrow> si_signature (srv_status srv) \<noteq> replicate 16 0"

record 'o reconnect_env =
  rc_probe :: "bytes option"
  rc_socket :: "int option"
  rc_opensession :: "'o afp_server \<Rightarrow> int \<times> 'o afp_server"
  rc_login :: "'o afp_server \<Rightarrow> int \<times> 'o afp_server"
  rc_volumes :: "'o afp_server \<Rightarrow> int \<times> 'o afp_server"

text \<open>The exit at the label \<open>error\<close>.\<close>

definition reconnect_failed :: "'o afp_server \<Rightarrow> int \<times> 'o afp_server" where
  "reconnect_failed srv = (1, (loop_disconnect srv)\<lparr>srv_reconnect_in_progress := False\<rparr>)"

text \<open>From the connect on.\<close>

definition reconnect_session :: "'o reconnect_env \<Rightarrow> 'o afp_server \<Rightarrow> int \<times> 'o afp_server" where
  "reconnect_session env srv =
     (let s1 = server_connect (rc_socket env) srv in
      if rc_socket env = None \<or> srv_connect_state s1 = STATE_DESTROYED then reconnect_failed s1
      else case rc_opensession env s1 of (rc2, s2) \<Rightarrow>
        if rc2 \<noteq> 0 then reconnect_failed s2
        else case rc_login env s2 of (rc3, s3) \<Rightarrow>
          if rc3 \<noteq> 0 then reconnect_failed s3
          else case rc_volumes env (s3\<lparr>srv_dtrefnums := map (\<lambda>_. 0) (srv_dtrefnums s3)\<rparr>) of (rc4, s4) \<Rightarrow>
            if rc4 \<noteq> 0 then reconnect_failed s4
            else if srv_fd s4 < 0 \<or> srv_connect_state s4 \<noteq> STATE_CONNECTING then reconnect_failed s4
            else (0, s4\<lparr>srv_connect_state := STATE_CONNECTED, srv_reconnect_in_progress := False\<rparr>))"

definition server_reconnect :: "'o reconnect_env \<Rightarrow> 'o afp_server \<Rightarrow> int \<times> 'o afp_server" where
  "server_reconnect env srv =
     (if srv_reconnect_in_progress srv then (1, srv)
      else
        let s = flush_request_queue (srv\<lparr>srv_reconnect_in_progress := True\<rparr>) in
        if \<not> has_valid_signature s then reconnect_failed s
        else case rc_probe env of
            None \<Rightarrow> reconnect_failed s
          | Some peer \<Rightarrow>
              if peer \<noteq> si_signature (srv_status s) then reconnect_failed s else reconnect_session env s)"

section \<open>Sending\<close>

record 'o send_env =
  sn_reconnect :: "'o reconnect_env"
  sn_malloc :: bool
  sn_address :: nat
  sn_send :: "send_result list"
  sn_now :: "int \<times> int"
  sn_wait :: "'o afp_server \<Rightarrow> 'o afp_server"
  sn_wait_error :: int
  sn_release :: "'o afp_server \<Rightarrow> 'o afp_server"

text \<open>The frame with its length field set.\<close>

definition set_frame_length :: "bytes \<Rightarrow> bytes" where
  "set_frame_length msg = write_at msg 8 (be_bytes 4 (length msg - DSI_HEADER_SIZE))"

text \<open>The result, what the request's destinations hold when it is freed, and the state.\<close>

type_synonym 'o send_outcome = "int \<times> 'o dest \<times> rx_buffer option \<times> 'o afp_server"

definition send_done :: "'o send_env \<Rightarrow> int \<Rightarrow> 'o afp_server \<Rightarrow> 'o send_outcome option" where
  "send_done env rc srv =
     (let s = sn_release env srv; p = sn_address env in
      case srv_heap s p of
        None \<Rightarrow> None
      | Some r \<Rightarrow>
          (case remove_from_request_queue p s of
             None \<Rightarrow> None
           | Some (_, s') \<Rightarrow> Some (rc, req_other r, req_stream_buffer r, s')))"

text \<open>The wait for an answer, which an expiry or an error of the wait ends too.\<close>

definition send_wait :: "'o send_env \<Rightarrow> 'o afp_server \<Rightarrow> 'o send_outcome option" where
  "send_wait env srv =
     (let s = sn_wait env srv in
      case srv_heap s (sn_address env) of
        None \<Rightarrow> None
      | Some r \<Rightarrow> send_done env (if req_done_waiting r then req_return_code r else sn_wait_error env) s)"

definition send_queued ::
  "'o send_env \<Rightarrow> 'o afp_server \<Rightarrow> bytes \<Rightarrow> int \<Rightarrow> nat \<Rightarrow> 'o dest \<Rightarrow> nat option \<Rightarrow> rx_buffer option
     \<Rightarrow> 'o send_outcome option" where
  "send_queued env srv msg wait subcommand oth handler stream =
     (let p = sn_address env;
          s1 = enqueue_request p
                 (new_request srv (hdr_requestid (header_of msg)) wait subcommand oth handler stream) srv
      in case write_frame s1 msg subcommand (sn_send env) of
        (rc, s2) \<Rightarrow>
          if rc < 0 then send_done env rc (upd_request p (\<lambda>r. r\<lparr>req_return_code := rc\<rparr>) s2)
          else send_wait env (if wait > 0 then set_deadline (sn_now env) p s2 else s2))"

definition send_with_reply ::
  "'o send_env \<Rightarrow> 'o afp_server \<Rightarrow> bytes \<Rightarrow> int \<Rightarrow> nat \<Rightarrow> 'o dest \<Rightarrow> nat option \<Rightarrow> rx_buffer option
     \<Rightarrow> 'o send_outcome option" where
  "send_with_reply env srv msg0 wait0 subcommand oth handler stream =
     (let msg = set_frame_length msg0 in
      if \<not> server_still_valid srv then Some (- EINVAL, oth, stream, srv)
      else if wait0 = DSI_DONT_WAIT then
        (if srv_connect_state srv = STATE_DISCONNECTED \<or> srv_fd srv < 0 then Some (- EIO, oth, stream, srv)
         else case write_frame srv msg subcommand (sn_send env) of (rc, s) \<Rightarrow> Some (rc, oth, stream, s))
      else
        let wait = (if wait0 = DSI_DEFAULT_TIMEOUT then srv_dsi_default_timeout srv else wait0) in
        if srv_connect_state srv = STATE_DISCONNECTED \<and> (srv_suspended srv \<or> srv_reconnect_in_progress srv)
        then Some (- EIO, oth, stream, srv)
        else
          case (if srv_connect_state srv = STATE_DISCONNECTED then server_reconnect (sn_reconnect env) srv else (0, srv)) of
            (rc, s) \<Rightarrow>
              if rc \<noteq> 0 then Some (- EIO, oth, stream, s)
              else if srv_fd s < 0 then Some (- EIO, oth, stream, s)
              else if \<not> sn_malloc env then Some (- ENOMEM, oth, stream, s)
              else send_queued env s msg wait subcommand oth handler stream)"

definition dsi_send ::
  "'o send_env \<Rightarrow> 'o afp_server \<Rightarrow> bytes \<Rightarrow> int \<Rightarrow> nat \<Rightarrow> 'o dest \<Rightarrow> 'o send_outcome option" where
  "dsi_send env srv msg wait subcommand oth = send_with_reply env srv msg wait subcommand oth None None"

section \<open>The attention thread\<close>

abbreviation (input) AFPATTN_SHUTDOWN :: nat where "AFPATTN_SHUTDOWN \<equiv> 0x8000"
abbreviation (input) AFPATTN_CRASH :: nat where "AFPATTN_CRASH \<equiv> 0x4000"
abbreviation (input) AFPATTN_MESG :: nat where "AFPATTN_MESG \<equiv> 0x2000"

definition going_down :: bytes where
  "going_down = bytes_of ''The server is going down for maintenance.''"

text \<open>\<open>afpc_dsi_incoming_attention\<close>: \<open>getsrvrmsg\<close> is the exchange that reads the server's message.
  The packet is a copy of a complete frame.\<close>

definition attention_flags :: "bytes \<Rightarrow> nat" where
  "attention_flags packet =
     (if hdr_length (header_of packet) \<ge> 2 then be_nat (take 2 (drop DSI_HEADER_SIZE packet)) else 0)"

definition incoming_attention ::
  "('o afp_server \<Rightarrow> bytes \<times> 'o afp_server) \<Rightarrow> nat \<times> bytes \<Rightarrow> 'o afp_server \<Rightarrow> 'o afp_server" where
  "incoming_attention getsrvrmsg context srv =
     (let (gen, packet) = context; flags = attention_flags packet;
          checkmessage = (if hdr_length (header_of packet) \<ge> 2 then flags div AFPATTN_MESG mod 2 = 1 else True);
          shutdown0 = (flags div AFPATTN_CRASH mod 2 = 1 \<or> flags div AFPATTN_SHUTDOWN mod 2 = 1)
      in if gen \<noteq> srv_generation srv then srv
         else
           let (mesg, s) = (if checkmessage then getsrvrmsg srv else ([], srv));
               shutdown = (shutdown0 \<or> checkmessage \<and> take 41 mesg = going_down)
           in if shutdown \<and> gen = srv_generation s then loop_disconnect s else s)"

section \<open>Reconnects only to the same server\<close>

lemma reconnect_failed_state:
  "fst (reconnect_failed s) = 1" "\<not> srv_reconnect_in_progress (snd (reconnect_failed s))" "srv_fd (snd (reconnect_failed s)) = -1"
  by (simp_all add: reconnect_failed_def loop_disconnect_def fail_request_queue_def Let_def)

lemma flush_request_queue_status: "srv_status (flush_request_queue s) = srv_status s"
  by (simp add: flush_request_queue_def)

section \<open>No request is left behind\<close>

text \<open>What the other threads do while a sender waits keeps its request allocated; once the sender
  removes it, the receiver has let it go.\<close>

definition peers_keep :: "nat \<Rightarrow> ('o afp_server \<Rightarrow> 'o afp_server) \<Rightarrow> bool" where
  "peers_keep p f \<longleftrightarrow>
     (\<forall>s. queue_inv s \<and> srv_heap s p \<noteq> None \<longrightarrow> queue_inv (f s) \<and> srv_heap (f s) p \<noteq> None)"

definition peers_release :: "nat \<Rightarrow> ('o afp_server \<Rightarrow> 'o afp_server) \<Rightarrow> bool" where
  "peers_release p f \<longleftrightarrow> peers_keep p f
     \<and> (\<forall>s r. queue_inv s \<and> srv_heap s p \<noteq> None \<and> srv_heap (f s) p = Some r \<longrightarrow> \<not> req_receiving r)"

lemma remove_frees:
  assumes "queue_inv s" "srv_heap s p = Some r" "\<not> req_receiving r"
  shows "\<exists>s'. remove_from_request_queue p s = Some (0, s') \<and> queue_inv s' \<and> srv_heap s' p = None"
proof -
  have "p \<in> set (srv_queue s) \<or> req_ignore_replies r" using assms unfolding queue_inv_def by blast
  then obtain s' where s': "remove_from_request_queue p s = Some (0, s')" "srv_heap s' p = None"
    using assms(2,3) by (cases "p \<in> set (srv_queue s)") (auto simp: remove_from_request_queue_def free_request_def)
  then show ?thesis using queue_inv_remove [OF assms(1) s'(1)] by blast
qed

lemma send_done_frees:
  assumes "queue_inv s" "srv_heap s (sn_address env) \<noteq> None" "peers_release (sn_address env) (sn_release env)"
  shows "\<exists>oth st s'. send_done env rc s = Some (rc, oth, st, s') \<and> queue_inv s' \<and> srv_heap s' (sn_address env) = None"
proof -
  let ?t = "sn_release env s"
  obtain r where r: "srv_heap ?t (sn_address env) = Some r" "queue_inv ?t"
    using assms unfolding peers_release_def peers_keep_def by blast
  then have "\<not> req_receiving r" using assms unfolding peers_release_def by blast
  from remove_frees [OF r(2,1) this] show ?thesis using r by (auto simp: send_done_def Let_def)
qed

lemma write_frame_fields:
  assumes "write_frame s msg sc rs = (rc, t)"
  shows "srv_heap t = srv_heap s" "srv_queue t = srv_queue s" "queue_inv t = queue_inv s" "rc = 0 \<or> rc = - EIO"
proof -
  show h: "srv_heap t = srv_heap s" "srv_queue t = srv_queue s" "rc = 0 \<or> rc = - EIO"
    using assms by (auto simp: write_frame_def upd_stats_def Let_def split: prod.splits if_splits)
  have "st_requests_pending (srv_stats t) = st_requests_pending (srv_stats s)"
    using assms by (auto simp: write_frame_def upd_stats_def count_frame_def Let_def split: prod.splits if_splits)
  then show "queue_inv t = queue_inv s" using h by (simp add: queue_inv_def)
qed

lemma send_queued_frees:
  assumes "queue_inv s" "srv_heap s (sn_address env) = None"
    "peers_keep (sn_address env) (sn_wait env)" "peers_release (sn_address env) (sn_release env)"
  shows "\<exists>rc oth' st' s'. send_queued env s msg wait sc oth h st = Some (rc, oth', st', s') \<and> queue_inv s'
    \<and> srv_heap s' (sn_address env) = None"
proof -
  let ?p = "sn_address env"
  let ?r = "new_request s (hdr_requestid (header_of msg)) wait sc oth h st"
  let ?s1 = "enqueue_request ?p ?r s"
  have s1: "queue_inv ?s1" "srv_heap ?s1 ?p \<noteq> None"
    using queue_inv_enqueue [OF assms(1,2), of ?r]
    by (simp_all add: new_request_def enqueue_request_def upd_stats_def set_request_def)
  obtain rc t where w: "write_frame ?s1 msg sc (sn_send env) = (rc, t)" by fastforce
  have t: "queue_inv t" "srv_heap t ?p \<noteq> None" using write_frame_fields [OF w] s1 by simp_all
  show ?thesis
  proof (cases "rc < 0")
    case True
    have "queue_inv (upd_request ?p (\<lambda>r. r\<lparr>req_return_code := rc\<rparr>) t)" by (rule queue_inv_upd_request [OF t(1)]) simp
    then show ?thesis
      using send_done_frees [of "upd_request ?p (\<lambda>r. r\<lparr>req_return_code := rc\<rparr>) t" env rc] t(2) assms(4) w True
      by (auto simp: send_queued_def Let_def)
  next
    case False
    define u where "u = (if wait > 0 then set_deadline (sn_now env) ?p t else t)"
    have "queue_inv u" "srv_heap u ?p \<noteq> None"
      using t queue_inv_upd_request [OF t(1)] by (auto simp: u_def set_deadline_def upd_request_heap)
    then have v: "queue_inv (sn_wait env u)" "srv_heap (sn_wait env u) ?p \<noteq> None"
      using assms(3) unfolding peers_keep_def by blast+
    then obtain r where "srv_heap (sn_wait env u) ?p = Some r" by blast
    then have "send_wait env u = send_done env (if req_done_waiting r then req_return_code r else sn_wait_error env)
        (sn_wait env u)" by (simp add: send_wait_def Let_def)
    then have "\<exists>rc oth' st' s'. send_wait env u = Some (rc, oth', st', s') \<and> queue_inv s' \<and> srv_heap s' ?p = None"
      using send_done_frees [OF v assms(4), of "if req_done_waiting r then req_return_code r else sn_wait_error env"]
      by metis
    then show ?thesis using w False by (simp add: send_queued_def Let_def u_def)
  qed
qed

section \<open>A request and its reply\<close>

lemma first_awaiting_append:
  "first_awaiting h i (ps @ qs) = (case first_awaiting h i ps of None \<Rightarrow> first_awaiting h i qs | Some p \<Rightarrow> Some p)"
  by (induction ps) (auto split: option.splits)

lemma first_awaiting_fresh: "p \<notin> set ps \<Longrightarrow> first_awaiting (h(p := x)) i ps = first_awaiting h i ps"
  by (induction ps) (auto split: option.splits)

lemma write_frame_whole:
  assumes "write_loop msg rs = (True, msg)"
  shows "\<exists>t. write_frame s msg sc rs = (0, t) \<and> t = s\<lparr>srv_sent := srv_sent s @ msg, srv_stats := srv_stats t\<rparr> \<and>
    st_requests_pending (srv_stats t) = st_requests_pending (srv_stats s)"
  using assms by (simp add: write_frame_def upd_stats_def count_frame_def Let_def)

text \<open>The state in which the sender waits: the request queued, its frame written.\<close>

definition sent_state ::
  "'o send_env \<Rightarrow> 'o afp_server \<Rightarrow> bytes \<Rightarrow> int \<Rightarrow> nat \<Rightarrow> 'o dsi_request \<Rightarrow> 'o afp_server" where
  "sent_state env s msg wait sc r =
     (let t = snd (write_frame (enqueue_request (sn_address env) r s) msg sc (sn_send env))
      in if wait > 0 then set_deadline (sn_now env) (sn_address env) t else t)"

lemma sent_state_fields:
  assumes "write_loop msg (sn_send env) = (True, msg)" "srv_heap s (sn_address env) = None"
  shows "\<exists>d. srv_heap (sent_state env s msg wait sc r) = (srv_heap s)(sn_address env \<mapsto> r\<lparr>req_deadline := d\<rparr>)"
    "srv_queue (sent_state env s msg wait sc r) = srv_queue s @ [sn_address env]"
    "srv_generation (sent_state env s msg wait sc r) = srv_generation s"
    "srv_sent (sent_state env s msg wait sc r) = srv_sent s @ msg"
    "between_frames s \<Longrightarrow> \<not> req_ignore_replies r \<Longrightarrow> \<not> req_receiving r \<Longrightarrow> wf_request r \<Longrightarrow>
       between_frames (sent_state env s msg wait sc r)"
proof -
  let ?p = "sn_address env" and ?u = "sent_state env s msg wait sc r"
  let ?e = "enqueue_request ?p r s"
  obtain t where t: "write_frame ?e msg sc (sn_send env) = (0, t)" "t = ?e\<lparr>srv_sent := srv_sent ?e @ msg, srv_stats := srv_stats t\<rparr>"
    "st_requests_pending (srv_stats t) = st_requests_pending (srv_stats ?e)"
    using write_frame_whole [OF assms(1)] by blast
  have h: "srv_heap t = (srv_heap s)(?p \<mapsto> r)" "srv_queue t = srv_queue s @ [?p]" "srv_generation t = srv_generation s"
    "srv_sent t = srv_sent s @ msg" "srv_fd t = srv_fd s" "srv_rx_generation t = srv_rx_generation s"
    "srv_data_read t = srv_data_read s" "srv_discard_remaining t = srv_discard_remaining s"
    "srv_stream_read t = srv_stream_read s" "srv_status t = srv_status s" "srv_bufsize t = srv_bufsize s"
    "srv_incoming_buffer t = srv_incoming_buffer s"
    by (subst t(2), simp add: enqueue_request_def upd_stats_def set_request_def)+
  have u: "?u = (if wait > 0 then set_deadline (sn_now env) ?p t else t)" by (simp add: sent_state_def t(1) Let_def)
  obtain d where hu: "srv_heap ?u = (srv_heap s)(?p \<mapsto> r\<lparr>req_deadline := d\<rparr>)"
  proof (cases "wait > 0")
    case True
    then show ?thesis using that h(1) by (auto simp: u set_deadline_def upd_request_def set_request_def)
  next
    case False
    then have "srv_heap ?u = (srv_heap s)(?p \<mapsto> r\<lparr>req_deadline := req_deadline r\<rparr>)" using h(1) by (simp add: u)
    then show ?thesis using that by blast
  qed
  then show "\<exists>d. srv_heap ?u = (srv_heap s)(?p \<mapsto> r\<lparr>req_deadline := d\<rparr>)" by blast
  have uf: "srv_queue ?u = srv_queue t" "srv_generation ?u = srv_generation t" "srv_sent ?u = srv_sent t"
    "srv_fd ?u = srv_fd t" "srv_rx_generation ?u = srv_rx_generation t" "srv_data_read ?u = srv_data_read t"
    "srv_discard_remaining ?u = srv_discard_remaining t" "srv_stream_read ?u = srv_stream_read t"
    "srv_status ?u = srv_status t" "srv_bufsize ?u = srv_bufsize t" "srv_incoming_buffer ?u = srv_incoming_buffer t"
    by (simp_all add: u set_deadline_def upd_request_def set_request_def split: option.splits)
  show "srv_queue ?u = srv_queue s @ [?p]" "srv_generation ?u = srv_generation s" "srv_sent ?u = srv_sent s @ msg"
    using uf h by simp_all
  assume s: "between_frames s" and r: "\<not> req_ignore_replies r" "\<not> req_receiving r" "wf_request r"
  have "queue_inv t" using queue_inv_enqueue [OF _ assms(2) r(1)] s write_frame_fields(3) [OF t(1)]
    by (simp add: between_frames_def recv_inv_def)
  then have "queue_inv ?u" using queue_inv_upd_request [of t] by (auto simp: u set_deadline_def)
  moreover have "wf_request (r\<lparr>req_deadline := d\<rparr>)" using r(3) request_reads_cong(3) [of "r\<lparr>req_deadline := d\<rparr>" r] by simp
  then have "wf_requests ?u" using s hu by (auto simp: wf_requests_def between_frames_def recv_inv_def split: if_splits)
  moreover have "held ?u = {}" using s hu r(2) by (auto simp: held_def between_frames_def split: if_splits)
  ultimately show "between_frames ?u"
    using s uf h by (simp add: between_frames_def recv_inv_def)
qed

lemma send_queued_sent:
  assumes "write_loop msg (sn_send env) = (True, msg)"
  shows "send_queued env s msg wait sc oth h st = send_wait env (sent_state env s msg wait sc
    (new_request s (hdr_requestid (header_of msg)) wait sc oth h st))"
  using write_frame_whole [OF assms, of "enqueue_request (sn_address env)
    (new_request s (hdr_requestid (header_of msg)) wait sc oth h st) s" sc]
  by (auto simp: send_queued_def sent_state_def Let_def)

lemma exchange_answered:
  assumes s: "between_frames s" "srv_heap s (sn_address env) = None"
      "first_awaiting (srv_heap s) (hdr_requestid (header_of msg)) (srv_queue s) = None"
    and w: "write_loop msg (sn_send env) = (True, msg)"
    and r: "r = new_request s (hdr_requestid (header_of msg)) wait sc oth handler st" "wf_request r"
    and h: "hdr_flags h = DSI_REPLY" "hdr_command h = DSI_DSICommand" "hdr_requestid h = hdr_requestid (header_of msg)"
  shows "\<exists>d. answers (sent_state env s msg wait sc r) h (sn_address env) (r\<lparr>req_deadline := d\<rparr>) \<and>
    srv_heap (sent_state env s msg wait sc r) = (srv_heap s)(sn_address env \<mapsto> r\<lparr>req_deadline := d\<rparr>)"
proof -
  let ?u = "sent_state env s msg wait sc r" and ?p = "sn_address env"
  obtain d where d: "srv_heap ?u = (srv_heap s)(?p \<mapsto> r\<lparr>req_deadline := d\<rparr>)"
    using sent_state_fields(1) [OF w s(2)] by blast
  have "?p \<notin> set (srv_queue s)" using s(1,2) unfolding between_frames_def recv_inv_def queue_inv_def by blast
  then have "first_awaiting (srv_heap ?u) (hdr_requestid h) (srv_queue ?u) = Some ?p"
    using s(3) h(3) sent_state_fields(2) [OF w s(2)] d
    by (simp add: first_awaiting_append first_awaiting_fresh r(1) new_request_def awaits_def)
  then show ?thesis
    using d h sent_state_fields(3) [OF w s(2)] by (simp add: answers_def r(1) new_request_def)
qed

text \<open>After an exchange in which the receiver answered the request, the sender takes its request off
  and reports the result.\<close>

lemma send_done_answered:
  assumes "srv_heap t = (srv_heap s)(sn_address env \<mapsto> answer_request res r)" "srv_queue t = srv_queue s @ [sn_address env]"
    "srv_heap s (sn_address env) = None" "sn_address env \<notin> set (srv_queue s)" "\<not> req_receiving r" "\<not> req_done_waiting r"
    "sn_wait env u = t" "sn_release env = (\<lambda>x. x)"
  shows "\<exists>s'. send_wait env u = Some (res, req_other r, req_stream_buffer r, s') \<and> srv_heap s' = srv_heap s \<and>
    srv_queue s' = srv_queue s"
proof -
  have "(srv_heap s)(sn_address env := None) = srv_heap s" using assms(3) by auto
  moreover have "remove1 (sn_address env) (srv_queue s @ [sn_address env]) = srv_queue s"
    using assms(4) by (simp add: remove1_append)
  ultimately show ?thesis
    using assms by (simp add: send_wait_def send_done_def Let_def remove_from_request_queue_def answer_request_def
        free_request_def)
qed

lemma set_frame_length_requestid:
  assumes "16 \<le> length msg"
  shows "hdr_requestid (header_of (set_frame_length msg)) = hdr_requestid (header_of msg)"
proof -
  have "take 2 (drop 2 (write_at msg 8 x)) = take 2 (drop 2 (take 4 (write_at msg 8 x)))" for x
    by (simp add: drop_take)
  also have "take 4 (write_at msg 8 x) = take 4 msg" for x by (rule take_write_at) (use assms in simp_all)
  also have "take 2 (drop 2 (take 4 msg)) = take 2 (drop 2 msg)" by (simp add: drop_take)
  finally have "take 2 (drop 2 (write_at msg 8 x)) = take 2 (drop 2 msg)" for x .
  then show ?thesis by (simp add: set_frame_length_def header_of_def)
qed

lemma dsi_send_connected:
  assumes "srv_connect_state s = STATE_CONNECTED" "srv_fd s \<ge> 0" "sn_malloc env" "wait \<noteq> DSI_DONT_WAIT"
  shows "dsi_send env s msg wait sc oth = send_queued env s (set_frame_length msg)
    (if wait = DSI_DEFAULT_TIMEOUT then srv_dsi_default_timeout s else wait) sc oth None None"
  using assms by (simp add: dsi_send_def send_with_reply_def server_still_valid_def Let_def)

lemma exchange_result:
  assumes "between_frames s" "srv_connect_state s = STATE_CONNECTED" "wait \<noteq> DSI_DONT_WAIT" "sn_malloc env"
    "srv_heap s (sn_address env) = None" "16 \<le> length msg"
    "first_awaiting (srv_heap s) (hdr_requestid (header_of msg)) (srv_queue s) = None"
    "write_loop (set_frame_length msg) (sn_send env) = (True, set_frame_length msg)"
    "sc \<noteq> 0" "sc \<noteq> afpRead" "sc \<noteq> afpReadExt"
    "wf_header h" "hdr_flags h = DSI_REPLY" "hdr_command h = DSI_DSICommand"
    "hdr_requestid h = hdr_requestid (header_of msg)" "hdr_length h = length payload"
    "length payload \<le> AFP_BUFSIZE - DSI_HEADER_SIZE"
    "concat hs = encode_header h" "[] \<notin> set hs" "concat ps = payload" "[] \<notin> set ps"
    "env_reply renv None sc (encode_header h @ payload) oth = (rc, oth')"
    "sn_wait env = (\<lambda>t. case recv_run renv (hs @ ps) t of None \<Rightarrow> t | Some t' \<Rightarrow> t')" "sn_release env = (\<lambda>t. t)"
  shows "\<exists>s'. dsi_send env s msg wait sc oth =
      Some (if rc \<noteq> 0 \<and> s32 (hdr_error_code h) = 0 then rc else s32 (hdr_error_code h), oth', None, s') \<and>
    srv_heap s' = srv_heap s \<and> srv_queue s' = srv_queue s"
proof -
  let ?m = "set_frame_length msg" and ?p = "sn_address env"
  let ?w = "if wait = DSI_DEFAULT_TIMEOUT then srv_dsi_default_timeout s else wait"
  let ?res = "if rc \<noteq> 0 \<and> s32 (hdr_error_code h) = 0 then rc else s32 (hdr_error_code h)"
  define r where "r = new_request s (hdr_requestid (header_of ?m)) ?w sc oth None None"
  have nr: "\<not> reads (r\<lparr>req_deadline := d\<rparr>)" "wf_request r" for d
    using assms(10,11) by (simp_all add: r_def new_request_def reads_def wf_request_def)
  have id: "hdr_requestid (header_of ?m) = hdr_requestid (header_of msg)" by (rule set_frame_length_requestid [OF assms(6)])
  let ?u = "sent_state env s ?m ?w sc r"
  obtain d where d: "answers ?u h ?p (r\<lparr>req_deadline := d\<rparr>)" "srv_heap ?u = (srv_heap s)(?p \<mapsto> r\<lparr>req_deadline := d\<rparr>)"
    using exchange_answered [OF assms(1,5) _ assms(8) r_def nr(2) assms(13,14)] assms(7,15) id by auto
  have bf: "between_frames ?u"
    by (rule sent_state_fields(5) [OF assms(8,5,1)]) (use nr(2) in \<open>simp_all add: r_def new_request_def\<close>)
  have reply: "reply_of renv h (encode_header h @ payload) (r\<lparr>req_deadline := d\<rparr>) =
      answer_request ?res (r\<lparr>req_deadline := d, req_other := oth'\<rparr>)"
    using assms(22) by (simp add: reply_of_def r_def new_request_def Let_def)
  obtain t where t: "recv_run renv (hs @ ps) ?u = Some t"
    "delivered ?p (answer_request ?res (r\<lparr>req_deadline := d, req_other := oth'\<rparr>)) ?u t"
    using pieces_delivered [OF bf assms(18-21,12,16,17) d(1) nr(1), of renv] assms(9)
    unfolding reply by (auto simp: r_def new_request_def)
  have th: "srv_heap t = (srv_heap s)(?p \<mapsto> answer_request ?res (r\<lparr>req_deadline := d, req_other := oth'\<rparr>))"
    "srv_queue t = srv_queue s @ [?p]"
    using t(2) d(2) sent_state_fields(2) [OF assms(8,5)] by (simp_all add: delivered_def)
  have q: "?p \<notin> set (srv_queue s)" using assms(1,5) unfolding between_frames_def recv_inv_def queue_inv_def by blast
  have "\<exists>s'. send_wait env ?u = Some (?res, oth', None, s') \<and> srv_heap s' = srv_heap s \<and> srv_queue s' = srv_queue s"
    using send_done_answered [OF th assms(5) q, of ?u] t(1) assms(23,24) by (simp add: r_def new_request_def)
  then show ?thesis
    using dsi_send_connected [of s env wait msg sc oth] send_queued_sent [OF assms(8), of s ?w sc oth None None] assms(1-4)
    by (simp add: between_frames_def r_def)
qed

section \<open>Properties\<close>


text \<open>A connected session without requests, the frame of a two-byte command and an environment that
  writes it and then receives \<open>pieces\<close>.\<close>

definition idle_session :: "'o afp_server" where
  "idle_session = (server_init AFP_BUFSIZE)\<lparr>srv_fd := 3, srv_connect_state := STATE_CONNECTED\<rparr>"

definition command_frame :: bytes where
  "command_frame = encode_header \<lparr>hdr_flags = DSI_REQUEST, hdr_command = DSI_DSICommand, hdr_requestid = 1,
     hdr_error_code = 0, hdr_length = 0, hdr_reserved = 0\<rparr> @ [8, 0]"

definition exchange_env :: "'o recv_env \<Rightarrow> bytes list \<Rightarrow> 'o send_env" where
  "exchange_env renv pieces =
     \<lparr>sn_reconnect = \<lparr>rc_probe = None, rc_socket = None, rc_opensession = (\<lambda>t. (1, t)), rc_login = (\<lambda>t. (1, t)),
        rc_volumes = (\<lambda>t. (1, t))\<rparr>,
      sn_malloc = True, sn_address = 7, sn_send = [Send_ok 100], sn_now = (0, 0),
      sn_wait = (\<lambda>t. case recv_run renv pieces t of None \<Rightarrow> t | Some t' \<Rightarrow> t'), sn_wait_error = ETIMEDOUT,
      sn_release = (\<lambda>t. t)\<rparr>"

lemma idle_session_simps:
  "srv_heap idle_session = (\<lambda>_. None)" "srv_queue idle_session = []" "srv_fd idle_session = 3"
  "srv_connect_state idle_session = STATE_CONNECTED"
  by (simp_all add: idle_session_def server_init_def)

lemma between_frames_idle: "between_frames idle_session"
proof -
  have "queue_inv idle_session" by (simp add: queue_inv_def idle_session_def server_init_def u64_def)
  then show ?thesis
    by (simp add: between_frames_def recv_inv_def idle_session_simps held_def wf_requests_def)
      (simp add: idle_session_def server_init_def wf_status_def)
qed

lemma command_frame_facts:
  "length command_frame = 18" "hdr_requestid (header_of command_frame) = 1" "length (set_frame_length command_frame) = 18"
proof -
  show l: "length command_frame = 18" by (simp add: command_frame_def)
  show "hdr_requestid (header_of command_frame) = 1"
    unfolding command_frame_def by (subst header_of_encode) (simp_all add: wf_header_def)
  show "length (set_frame_length command_frame) = 18" using l by (simp add: set_frame_length_def)
qed



lemma peers_release_request: "peers_release p (release_request p)"
proof -
  have "queue_inv (release_request p s)" if "queue_inv s" for s
    unfolding release_request_def by (rule queue_inv_upd_request [OF that]) simp
  then show ?thesis by (auto simp: peers_release_def peers_keep_def release_request_def upd_request_heap)
qed


text \<open>C11: a reconnect opens a session, and sends the saved credentials, only to the server it was
  connected to. When the probe finds another signature, or none, or the saved signature is unset,
  \<open>afp_server_reconnect\<close> fails whatever socket, session, login and volumes would answer: none of
  them is tried, and the session is left disconnected.\<close>
theorem reconnect_only_to_same_server:
  assumes "rc_probe env \<noteq> Some (si_signature (srv_status s)) \<or> si_signature (srv_status s) = replicate 16 0"
    "\<not> srv_reconnect_in_progress s"
  shows "server_reconnect env s = reconnect_failed (flush_request_queue (s\<lparr>srv_reconnect_in_progress := True\<rparr>)) \<and>
    fst (server_reconnect env s) = 1 \<and> srv_fd (snd (server_reconnect env s)) = -1"
proof -
  have "server_reconnect env s = reconnect_failed (flush_request_queue (s\<lparr>srv_reconnect_in_progress := True\<rparr>))"
    using assms by (auto simp: server_reconnect_def has_valid_signature_def flush_request_queue_status Let_def
        split: option.splits)
  then show ?thesis by (simp add: reconnect_failed_state)
qed

theorem reconnect_only_to_same_server_witness:
  "fst (server_reconnect \<lparr>rc_probe = Some (replicate 16 2), rc_socket = Some 4, rc_opensession = (\<lambda>t. (0, t)),
      rc_login = (\<lambda>t. (0, t)), rc_volumes = (\<lambda>t. (0, t))\<rparr>
    ((idle_session :: nat afp_server)\<lparr>srv_status := (srv_status (idle_session :: nat afp_server))\<lparr>si_signature := replicate 16 1\<rparr>\<rparr>)) = 1"
  by (rule reconnect_only_to_same_server [THEN conjunct2, THEN conjunct1])
    (simp_all add: idle_session_def server_init_def)

end
