(* ===== verification/Reply_Block.thy ===== *)
theory Reply_Block
  imports Codepage
begin

text \<open>
  The parameter block of a file or directory: \<open>lib/proto_replyblock.c\<close>, with the dates of
  \<open>lib/proto_server.c\<close> and the entry record of \<open>lib/afp_internal.h\<close>.  A block is a byte string
  and a position in it; a bitmap says which parameters it carries, in the order of the bits.  A
  parser ends with \<open>Parsed\<close>, with \<open>Malformed\<close> where the code returns -1, or with \<open>Overrun\<close> on a
  read outside the memory behind the block.
\<close>

unbundle bit_operations_syntax

section \<open>Sessions and dates\<close>

text \<open>What dates need of the server: the number of the protocol version in use, if one is, and the
  server's offset from local time.\<close>

record afp_session =
  ses_version :: "nat option"
  ses_time_offset :: int

abbreviation (input) AD_DATE_DELTA :: int where "AD_DATE_DELTA \<equiv> 946684800"
abbreviation (input) AFP_NS_PER_SEC :: int where "AFP_NS_PER_SEC \<equiv> 1000000000"
abbreviation (input) INT64_MAX :: int where "INT64_MAX \<equiv> 9223372036854775807"
abbreviation (input) INT64_MIN :: int where "INT64_MIN \<equiv> - 9223372036854775808"

definition server_uses_local_time :: "afp_session \<Rightarrow> bool" where
  "server_uses_local_time ses = (case ses_version ses of None \<Rightarrow> False | Some v \<Rightarrow> v < 30)"

definition afp_date_to_unix :: "afp_session \<Rightarrow> nat \<Rightarrow> int" where
  "afp_date_to_unix ses wire_seconds =
     (let seconds = int wire_seconds - (if wire_seconds \<ge> 2 ^ 31 then 2 ^ 32 else 0) + AD_DATE_DELTA
      in if server_uses_local_time ses then seconds - ses_time_offset ses else seconds)"

definition afp_date_from_unix :: "afp_session \<Rightarrow> int \<Rightarrow> nat" where
  "afp_date_from_unix ses date =
     (let clamped = (if date > 2 ^ 32 then 2 ^ 32 else if date < - (2 ^ 32) then - (2 ^ 32) else date);
          seconds = clamped - AD_DATE_DELTA + (if server_uses_local_time ses then ses_time_offset ses else 0)
      in u32_of_int (if seconds > 2 ^ 31 - 1 then 2 ^ 31 - 1
                     else if seconds \<le> - (2 ^ 31) then - (2 ^ 31) + 1 else seconds))"

definition afp_ns_from_sec :: "int \<Rightarrow> int" where
  "afp_ns_from_sec s =
     (if s > 9223372036 then INT64_MAX else if s < - 9223372036 then INT64_MIN else s * AFP_NS_PER_SEC)"

text \<open>Division toward zero.\<close>

definition afp_sec_from_ns :: "int \<Rightarrow> int" where
  "afp_sec_from_ns ns = sgn ns * (\<bar>ns\<bar> div AFP_NS_PER_SEC)"

section \<open>Entries\<close>

record unix_privileges =
  up_uid :: nat
  up_gid :: nat
  up_permissions :: nat
  up_ua_permissions :: nat

record afp_dirent =
  de_size :: nat
  de_resourcesize :: nat
  de_create_ns :: int
  de_mod_ns :: int
  de_valid :: nat
  de_cnid :: nat
  de_parent_did :: nat
  de_unixprivs :: unix_privileges
  de_name_off :: nat
  de_attributes :: nat
  de_offspring :: nat
  de_isdir :: nat
  de_kind :: nat
  de_finderinfo :: bytes

definition no_entry :: afp_dirent where
  "no_entry = \<lparr>de_size = 0, de_resourcesize = 0, de_create_ns = 0, de_mod_ns = 0, de_valid = 0, de_cnid = 0,
     de_parent_did = 0,
     de_unixprivs = \<lparr>up_uid = 0, up_gid = 0, up_permissions = 0, up_ua_permissions = 0\<rparr>,
     de_name_off = 0, de_attributes = 0, de_offspring = 0, de_isdir = 0, de_kind = 0,
     de_finderinfo = replicate 32 0\<rparr>"

section \<open>Parameters\<close>

abbreviation (input) kFPAttributeBit :: nat where "kFPAttributeBit \<equiv> 0x1"
abbreviation (input) kFPParentDirIDBit :: nat where "kFPParentDirIDBit \<equiv> 0x2"
abbreviation (input) kFPCreateDateBit :: nat where "kFPCreateDateBit \<equiv> 0x4"
abbreviation (input) kFPModDateBit :: nat where "kFPModDateBit \<equiv> 0x8"
abbreviation (input) kFPBackupDateBit :: nat where "kFPBackupDateBit \<equiv> 0x10"
abbreviation (input) kFPFinderInfoBit :: nat where "kFPFinderInfoBit \<equiv> 0x20"
abbreviation (input) kFPLongNameBit :: nat where "kFPLongNameBit \<equiv> 0x40"
abbreviation (input) kFPShortNameBit :: nat where "kFPShortNameBit \<equiv> 0x80"
abbreviation (input) kFPNodeIDBit :: nat where "kFPNodeIDBit \<equiv> 0x100"
abbreviation (input) kFPOffspringCountBit :: nat where "kFPOffspringCountBit \<equiv> 0x200"
abbreviation (input) kFPOwnerIDBit :: nat where "kFPOwnerIDBit \<equiv> 0x400"
abbreviation (input) kFPGroupIDBit :: nat where "kFPGroupIDBit \<equiv> 0x800"
abbreviation (input) kFPAccessRightsBit :: nat where "kFPAccessRightsBit \<equiv> 0x1000"
abbreviation (input) kFPDataForkLenBit :: nat where "kFPDataForkLenBit \<equiv> 0x200"
abbreviation (input) kFPRsrcForkLenBit :: nat where "kFPRsrcForkLenBit \<equiv> 0x400"
abbreviation (input) kFPExtDataForkLenBit :: nat where "kFPExtDataForkLenBit \<equiv> 0x800"
abbreviation (input) kFPLaunchLimitBit :: nat where "kFPLaunchLimitBit \<equiv> 0x1000"
abbreviation (input) kFPUTF8NameBit :: nat where "kFPUTF8NameBit \<equiv> 0x2000"
abbreviation (input) kFPExtRsrcForkLenBit :: nat where "kFPExtRsrcForkLenBit \<equiv> 0x4000"
abbreviation (input) kFPUnixPrivsBit :: nat where "kFPUnixPrivsBit \<equiv> 0x8000"

definition has_bit :: "nat \<Rightarrow> nat \<Rightarrow> bool" where
  "has_bit bitmap b \<longleftrightarrow> bitmap AND b \<noteq> 0"

definition set_valid :: "nat \<Rightarrow> afp_dirent \<Rightarrow> afp_dirent" where
  "set_valid b e = e\<lparr>de_valid := de_valid e OR b\<rparr>"

text \<open>A parameter of fixed width: its bit, its bytes, and what the record takes from them.\<close>

record block_field =
  fld_bit :: nat
  fld_width :: nat
  fld_store :: "bytes \<Rightarrow> afp_dirent \<Rightarrow> afp_dirent"

definition need_bytes :: "nat \<Rightarrow> nat \<Rightarrow> nat \<Rightarrow> bool" where
  "need_bytes p e len \<longleftrightarrow> p \<le> e \<and> e - p \<ge> len"

definition u16_field :: "nat \<Rightarrow> (nat \<Rightarrow> afp_dirent \<Rightarrow> afp_dirent) \<Rightarrow> block_field" where
  "u16_field b st = \<lparr>fld_bit = b, fld_width = 2, fld_store = (\<lambda>bs e. set_valid b (st (be_nat bs) e))\<rparr>"

definition u32_field :: "nat \<Rightarrow> (nat \<Rightarrow> afp_dirent \<Rightarrow> afp_dirent) \<Rightarrow> block_field" where
  "u32_field b st = \<lparr>fld_bit = b, fld_width = 4, fld_store = (\<lambda>bs e. set_valid b (st (be_nat bs) e))\<rparr>"

definition u64_field :: "nat \<Rightarrow> (nat \<Rightarrow> afp_dirent \<Rightarrow> afp_dirent) \<Rightarrow> block_field" where
  "u64_field b st = \<lparr>fld_bit = b, fld_width = 8, fld_store = (\<lambda>bs e. set_valid b (st (be_nat bs) e))\<rparr>"

definition date_field :: "afp_session \<Rightarrow> nat \<Rightarrow> (int \<Rightarrow> afp_dirent \<Rightarrow> afp_dirent) \<Rightarrow> block_field" where
  "date_field ses b st =
     \<lparr>fld_bit = b, fld_width = 4,
      fld_store = (\<lambda>bs e. if be_nat bs \<noteq> 0x80000000
        then set_valid b (st (afp_ns_from_sec (afp_date_to_unix ses (be_nat bs))) e) else e)\<rparr>"

definition skip_field :: "nat \<Rightarrow> nat \<Rightarrow> block_field" where
  "skip_field b w = \<lparr>fld_bit = b, fld_width = w, fld_store = (\<lambda>_ e. e)\<rparr>"

definition finderinfo_field :: block_field where
  "finderinfo_field =
     \<lparr>fld_bit = kFPFinderInfoBit, fld_width = 32,
      fld_store = (\<lambda>bs e. set_valid kFPFinderInfoBit (e\<lparr>de_finderinfo := bs\<rparr>))\<rparr>"

definition unixprivs_field :: block_field where
  "unixprivs_field =
     \<lparr>fld_bit = kFPUnixPrivsBit, fld_width = 16,
      fld_store = (\<lambda>bs e. set_valid kFPUnixPrivsBit (e\<lparr>de_unixprivs :=
        \<lparr>up_uid = be_nat (take 4 bs), up_gid = be_nat (take 4 (drop 4 bs)),
         up_permissions = be_nat (take 4 (drop 8 bs)), up_ua_permissions = be_nat (take 4 (drop 12 bs))\<rparr>\<rparr>))\<rparr>"

section \<open>Parsing\<close>

record block_state =
  bs_pos :: nat
  bs_entry :: afp_dirent
  bs_name :: "bytes option"

datatype 's parsed = Overrun | Malformed 's | Parsed 's

definition and_then :: "'s parsed \<Rightarrow> ('s \<Rightarrow> 's parsed) \<Rightarrow> 's parsed" where
  "and_then r f = (case r of Parsed s \<Rightarrow> f s | _ \<Rightarrow> r)"

definition parse_field :: "bytes \<Rightarrow> nat \<Rightarrow> block_field \<Rightarrow> block_state \<Rightarrow> block_state parsed" where
  "parse_field buf bsize f s =
     (if \<not> need_bytes (bs_pos s) bsize (fld_width f) then Malformed s
      else case rd_bytes buf (bs_pos s) (fld_width f) of
          None \<Rightarrow> Overrun
        | Some bs \<Rightarrow> Parsed (s\<lparr>bs_pos := bs_pos s + fld_width f, bs_entry := fld_store f bs (bs_entry s)\<rparr>))"

text \<open>The parameters of a list that the bitmap has, in their order.\<close>

fun parse_fields :: "bytes \<Rightarrow> nat \<Rightarrow> nat \<Rightarrow> block_field list \<Rightarrow> block_state \<Rightarrow> block_state parsed" where
  "parse_fields buf bsize bitmap [] s = Parsed s"
| "parse_fields buf bsize bitmap (f # fs) s =
     (if has_bit bitmap (fld_bit f)
      then and_then (parse_field buf bsize f s) (parse_fields buf bsize bitmap fs)
      else parse_fields buf bsize bitmap fs s)"

definition locate_pascal :: "bytes \<Rightarrow> nat \<Rightarrow> nat \<Rightarrow> bytes parsed" where
  "locate_pascal base bsize offset =
     (if offset \<ge> bsize then Malformed []
      else case rd8 base offset of
          None \<Rightarrow> Overrun
        | Some len \<Rightarrow>
            if \<not> need_bytes (offset + 1) bsize len then Malformed []
            else case rd_bytes base (offset + 1) len of None \<Rightarrow> Overrun | Some src \<Rightarrow> Parsed src)"

definition locate_afpname :: "bytes \<Rightarrow> nat \<Rightarrow> nat \<Rightarrow> bytes parsed" where
  "locate_afpname base bsize offset =
     (if offset > bsize \<or> bsize - offset < 6 then Malformed []
      else case rd16 base (offset + 4) of
          None \<Rightarrow> Overrun
        | Some len \<Rightarrow>
            if \<not> need_bytes (offset + 6) bsize len then Malformed []
            else case rd_bytes base (offset + 6) len of None \<Rightarrow> Overrun | Some src \<Rightarrow> Parsed src)"

definition store_name ::
  "(nat \<Rightarrow> bool) \<Rightarrow> nat \<Rightarrow> bytes \<Rightarrow> nat \<Rightarrow> block_state \<Rightarrow> block_state parsed" where
  "store_name malloc_ok encoding src name_len s =
     (case bs_name s of
        None \<Rightarrow> Parsed s
      | Some _ \<Rightarrow>
          (case convert_name_to_unix malloc_ok encoding src name_len of
             None \<Rightarrow> Overrun
           | Some (r, d) \<Rightarrow> if r < 0 then Malformed (s\<lparr>bs_name := Some d\<rparr>) else Parsed (s\<lparr>bs_name := Some d\<rparr>)))"

text \<open>A name parameter: an offset, \<open>hint\<close> bytes more, and a name somewhere in the block.\<close>

definition parse_name ::
  "(nat \<Rightarrow> bool) \<Rightarrow> (bytes \<Rightarrow> nat \<Rightarrow> nat \<Rightarrow> bytes parsed) \<Rightarrow> nat \<Rightarrow> nat \<Rightarrow> nat \<Rightarrow> bytes \<Rightarrow> nat \<Rightarrow> nat
     \<Rightarrow> block_state \<Rightarrow> block_state parsed" where
  "parse_name malloc_ok locate encoding b hint buf bsize name_len s =
     and_then (parse_field buf bsize (u16_field b (\<lambda>_ e. e)) s) (\<lambda>s1.
     and_then (parse_field buf bsize (skip_field b hint) s1) (\<lambda>s2.
       case locate buf bsize (be_nat (take 2 (drop (bs_pos s) buf))) of
         Overrun \<Rightarrow> Overrun
       | Malformed _ \<Rightarrow> Malformed s2
       | Parsed src \<Rightarrow> store_name malloc_ok encoding src name_len s2))"

text \<open>The parameters of \<open>parse_reply_block\<close>, in its order: those before the long name, those up to
  the UTF-8 name, and those behind it.\<close>

definition first_fields :: "afp_session \<Rightarrow> block_field list" where
  "first_fields ses =
     [u16_field kFPAttributeBit (\<lambda>v e. e\<lparr>de_attributes := v\<rparr>),
      u32_field kFPParentDirIDBit (\<lambda>v e. e\<lparr>de_parent_did := v\<rparr>),
      date_field ses kFPCreateDateBit (\<lambda>t e. e\<lparr>de_create_ns := t\<rparr>),
      date_field ses kFPModDateBit (\<lambda>t e. e\<lparr>de_mod_ns := t\<rparr>),
      skip_field kFPBackupDateBit 4, finderinfo_field]"

definition set_uid :: "nat \<Rightarrow> afp_dirent \<Rightarrow> afp_dirent" where
  "set_uid v e = e\<lparr>de_unixprivs := (de_unixprivs e)\<lparr>up_uid := v\<rparr>\<rparr>"

definition set_gid :: "nat \<Rightarrow> afp_dirent \<Rightarrow> afp_dirent" where
  "set_gid v e = e\<lparr>de_unixprivs := (de_unixprivs e)\<lparr>up_gid := v\<rparr>\<rparr>"

definition middle_fields :: "bool \<Rightarrow> block_field list" where
  "middle_fields isdir =
     [skip_field kFPShortNameBit 2, u32_field kFPNodeIDBit (\<lambda>v e. e\<lparr>de_cnid := v\<rparr>)] @
     (if isdir then
        [u16_field kFPOffspringCountBit (\<lambda>v e. e\<lparr>de_offspring := v\<rparr>), u32_field kFPOwnerIDBit set_uid,
         u32_field kFPGroupIDBit set_gid, skip_field kFPAccessRightsBit 4]
      else
        [u32_field kFPDataForkLenBit (\<lambda>v e. e\<lparr>de_size := v\<rparr>),
         u32_field kFPRsrcForkLenBit (\<lambda>v e. e\<lparr>de_resourcesize := v\<rparr>),
         u64_field kFPExtDataForkLenBit (\<lambda>v e. e\<lparr>de_size := v\<rparr>), skip_field kFPLaunchLimitBit 2])"

definition last_fields :: "block_field list" where
  "last_fields = [u64_field kFPExtRsrcForkLenBit (\<lambda>v e. e\<lparr>de_resourcesize := v\<rparr>), unixprivs_field]"

definition parse_reply_block ::
  "(nat \<Rightarrow> bool) \<Rightarrow> afp_session \<Rightarrow> bytes \<Rightarrow> nat \<Rightarrow> nat \<Rightarrow> nat \<Rightarrow> nat \<Rightarrow> bytes option \<Rightarrow> nat
     \<Rightarrow> block_state parsed" where
  "parse_reply_block malloc_ok ses buf bsize isdir filebitmap dirbitmap name name_len =
     (let bitmap = (if isdir \<noteq> 0 then dirbitmap else filebitmap);
          s0 = \<lparr>bs_pos = 0, bs_entry = no_entry\<lparr>de_isdir := isdir\<rparr>,
                bs_name = map_option (\<lambda>n. if name_len > 0 then [] else n) name\<rparr>
      in and_then (parse_fields buf bsize bitmap (first_fields ses) s0) (\<lambda>s1.
         and_then (if has_bit bitmap kFPLongNameBit
                   then parse_name malloc_ok locate_pascal kFPLongName kFPLongNameBit 0 buf bsize name_len s1
                   else Parsed s1) (\<lambda>s2.
         and_then (parse_fields buf bsize bitmap (middle_fields (isdir \<noteq> 0)) s2) (\<lambda>s3.
         and_then (if has_bit bitmap kFPUTF8NameBit
                   then parse_name malloc_ok locate_afpname kFPUTF8Name kFPUTF8NameBit 4 buf bsize name_len s3
                   else Parsed s3) (\<lambda>s4.
         parse_fields buf bsize bitmap last_fields s4)))))"


section \<open>No read outside the block\<close>

text \<open>The result of a parser whose states all satisfy a predicate.\<close>

definition safe_result :: "('s \<Rightarrow> bool) \<Rightarrow> 's parsed \<Rightarrow> bool" where
  "safe_result P r = (case r of Overrun \<Rightarrow> False | Malformed s \<Rightarrow> P s | Parsed s \<Rightarrow> P s)"

lemma safe_result_simps [simp]:
  "\<not> safe_result P Overrun" "safe_result P (Malformed s) = P s" "safe_result P (Parsed s) = P s"
  by (simp_all add: safe_result_def)

lemma safe_and_then [intro]:
  "safe_result P r \<Longrightarrow> (\<And>s. P s \<Longrightarrow> safe_result P (f s)) \<Longrightarrow> safe_result P (and_then r f)"
  by (cases r) (simp_all add: and_then_def)

definition name_fits :: "bytes option \<Rightarrow> nat \<Rightarrow> block_state \<Rightarrow> bool" where
  "name_fits name name_len s \<longleftrightarrow> (bs_name s = None \<longleftrightarrow> name = None) \<and> (\<forall>n. bs_name s = Some n \<longrightarrow> length n < name_len)"

lemma parse_field_safe [intro]:
  "bsize \<le> length buf \<Longrightarrow> name_fits name name_len s \<Longrightarrow> safe_result (name_fits name name_len) (parse_field buf bsize f s)"
  by (auto simp: parse_field_def need_bytes_def rd_bytes_def name_fits_def)

lemma parse_fields_safe:
  "bsize \<le> length buf \<Longrightarrow> name_fits name name_len s
    \<Longrightarrow> safe_result (name_fits name name_len) (parse_fields buf bsize bitmap fs s)"
  by (induction fs arbitrary: s) auto

lemma store_name_safe:
  assumes "name_fits name name_len s"
  shows "safe_result (name_fits name name_len) (store_name malloc_ok encoding src name_len s)"
proof (cases "bs_name s")
  case None
  then show ?thesis using assms by (simp add: store_name_def)
next
  case (Some n)
  then have "0 < name_len" using assms by (auto simp: name_fits_def)
  then obtain r d where "convert_name_to_unix malloc_ok encoding src name_len = Some (r, d)" "length d < name_len"
    using convert_name_to_unix_in_bounds by blast
  then show ?thesis using Some assms by (simp add: store_name_def name_fits_def)
qed

text \<open>Bytes behind the block do not matter.\<close>

lemma parse_field_local:
  "bsize \<le> length buf \<Longrightarrow> parse_field (buf @ r) bsize f s = parse_field buf bsize f s"
  by (auto simp: parse_field_def need_bytes_def rd_bytes_def)

lemma parse_fields_local:
  "bsize \<le> length buf \<Longrightarrow> parse_fields (buf @ r) bsize bitmap fs s = parse_fields buf bsize bitmap fs s"
proof (induction fs arbitrary: s)
  case (Cons f fs)
  then have "parse_fields (buf @ r) bsize bitmap fs = parse_fields buf bsize bitmap fs" by blast
  then show ?case using Cons.prems by (simp add: parse_field_local)
qed simp

text \<open>What a name parameter relies on: the name is looked for inside the block, and depends on
  nothing else.\<close>

locale name_locator =
  fixes locate :: "bytes \<Rightarrow> nat \<Rightarrow> nat \<Rightarrow> bytes parsed"
  assumes locate_inside: "bsize \<le> length base \<Longrightarrow> locate base bsize offset \<noteq> Overrun"
    and locate_local: "bsize \<le> length base \<Longrightarrow> locate (base @ r) bsize offset = locate base bsize offset"
begin

lemma parse_name_local:
  assumes "bsize \<le> length buf"
  shows "parse_name malloc_ok locate encoding b hint (buf @ r) bsize name_len s =
    parse_name malloc_ok locate encoding b hint buf bsize name_len s"
proof (cases "need_bytes (bs_pos s) bsize 2")
  case True
  then have "bs_pos s + 2 \<le> length buf" using assms by (auto simp: need_bytes_def)
  then have "take 2 (drop (bs_pos s) (buf @ r)) = take 2 (drop (bs_pos s) buf)" by simp
  then show ?thesis
    unfolding parse_name_def parse_field_local [OF assms] locate_local [OF assms] by (rule ssubst) (rule refl)
qed (simp add: parse_name_def parse_field_def u16_field_def and_then_def)

lemma parse_name_safe:
  assumes "bsize \<le> length buf" "name_fits name name_len s"
  shows "safe_result (name_fits name name_len) (parse_name malloc_ok locate encoding b hint buf bsize name_len s)"
proof -
  have "safe_result (name_fits name name_len) (case locate buf bsize offset of
      Overrun \<Rightarrow> Overrun | Malformed _ \<Rightarrow> Malformed t
    | Parsed src \<Rightarrow> store_name malloc_ok encoding src name_len t)" if "name_fits name name_len t" for t offset
    using locate_inside [OF assms(1), of offset] that
    by (auto simp: store_name_safe split: parsed.split)
  then show ?thesis using assms by (auto simp: parse_name_def)
qed

end

interpretation pascal_name: name_locator locate_pascal
  by unfold_locales (auto simp: locate_pascal_def need_bytes_def rd_def rd_bytes_def)

interpretation afp_name: name_locator locate_afpname
  by unfold_locales (auto simp: locate_afpname_def need_bytes_def rd_def rd_bytes_def)

lemma parse_reply_block_local:
  assumes "bsize \<le> length buf"
  shows "parse_reply_block malloc_ok ses (buf @ r) bsize isdir fb db name name_len =
    parse_reply_block malloc_ok ses buf bsize isdir fb db name name_len"
  unfolding parse_reply_block_def Let_def parse_fields_local [OF assms] pascal_name.parse_name_local [OF assms]
    afp_name.parse_name_local [OF assms] ..

lemma parse_reply_block_safe:
  assumes "bsize \<le> length buf" "name = None \<or> 0 < name_len"
  shows "safe_result (name_fits name name_len)
    (parse_reply_block malloc_ok ses buf bsize isdir filebitmap dirbitmap name name_len)"
proof -
  have "name_fits name name_len \<lparr>bs_pos = 0, bs_entry = e, bs_name = map_option (\<lambda>n. if name_len > 0 then [] else n) name\<rparr>"
    for e using assms(2) by (auto simp: name_fits_def)
  then show ?thesis
    unfolding parse_reply_block_def Let_def
    by (auto intro!: safe_and_then parse_fields_safe [OF assms(1)] pascal_name.parse_name_safe [OF assms(1)]
        afp_name.parse_name_safe [OF assms(1)])
qed


section \<open>Dates round trip\<close>

definition offset_ok :: "afp_session \<Rightarrow> bool" where
  "offset_ok ses \<longleftrightarrow> \<bar>ses_time_offset ses\<bar> \<le> 2 ^ 30"

lemma afp_date_to_unix_range:
  assumes "offset_ok ses" "d < 2 ^ 32"
  shows "- (2 ^ 32) \<le> afp_date_to_unix ses d \<and> afp_date_to_unix ses d \<le> 2 ^ 32"
  using assms by (auto simp: afp_date_to_unix_def offset_ok_def Let_def)

lemma date_from_to:
  assumes "offset_ok ses" "d < 2 ^ 32" "d \<noteq> 0x80000000"
  shows "afp_date_from_unix ses (afp_date_to_unix ses d) = d"
proof -
  have "u32_of_int (int d - 2 ^ 32) = d" if "2 ^ 31 \<le> d"
  proof -
    have "(int d - 2 ^ 32) mod 2 ^ 32 = int d mod 2 ^ 32"
      using mod_add_self2 [of "int d - 2 ^ 32" "2 ^ 32"] by simp
    then show ?thesis using assms(2) by (simp add: u32_of_int_def)
  qed
  moreover have "u32_of_int (int d) = d" using assms(2) by (simp add: u32_of_int_def)
  ultimately show ?thesis
    using assms by (auto simp: afp_date_from_unix_def afp_date_to_unix_def offset_ok_def Let_def)
qed

lemma date_from_unix_set:
  "afp_date_from_unix ses t < 2 ^ 32 \<and> afp_date_from_unix ses t \<noteq> 0x80000000"
proof -
  obtain i where i: "afp_date_from_unix ses t = u32_of_int i" "- (2 ^ 31) < i" "i < 2 ^ 31"
    unfolding afp_date_from_unix_def Let_def by (auto split: if_splits)
  have "s32 (u32_of_int i) = i" using i by (intro s32_u32_of_int) auto
  moreover have "s32 0x80000000 = - (2 ^ 31)" by (simp add: s32_def)
  ultimately show ?thesis using i by (auto simp: u32_of_int_def)
qed

lemma sec_from_ns_from_sec: "\<bar>t\<bar> \<le> 9223372036 \<Longrightarrow> afp_sec_from_ns (afp_ns_from_sec t) = t"
  by (auto simp: afp_sec_from_ns_def afp_ns_from_sec_def sgn_mult abs_mult sgn_if)

section \<open>Blocks round trip\<close>

text \<open>A block as a server lays it out: the enabled parameters in order, then the names.\<close>

definition param_bytes :: "afp_session \<Rightarrow> afp_dirent \<Rightarrow> block_field \<Rightarrow> bytes" where
  "param_bytes ses e f =
     (let b = fld_bit f; isdir = (de_isdir e \<noteq> 0) in
      if b = kFPAttributeBit then be_bytes 2 (de_attributes e)
      else if b = kFPParentDirIDBit then be_bytes 4 (de_parent_did e)
      else if b = kFPCreateDateBit then be_bytes 4 (afp_date_from_unix ses (afp_sec_from_ns (de_create_ns e)))
      else if b = kFPModDateBit then be_bytes 4 (afp_date_from_unix ses (afp_sec_from_ns (de_mod_ns e)))
      else if b = kFPFinderInfoBit then de_finderinfo e
      else if b = kFPNodeIDBit then be_bytes 4 (de_cnid e)
      else if b = kFPOffspringCountBit \<and> isdir then be_bytes 2 (de_offspring e)
      else if b = kFPOwnerIDBit \<and> isdir then be_bytes 4 (up_uid (de_unixprivs e))
      else if b = kFPGroupIDBit \<and> isdir then be_bytes 4 (up_gid (de_unixprivs e))
      else if b = kFPDataForkLenBit \<and> \<not> isdir then be_bytes 4 (de_size e)
      else if b = kFPRsrcForkLenBit \<and> \<not> isdir then be_bytes 4 (de_resourcesize e)
      else if b = kFPExtDataForkLenBit \<and> \<not> isdir then be_bytes 8 (de_size e)
      else if b = kFPExtRsrcForkLenBit then be_bytes 8 (de_resourcesize e)
      else if b = kFPUnixPrivsBit then
        be_bytes 4 (up_uid (de_unixprivs e)) @ be_bytes 4 (up_gid (de_unixprivs e)) @
        be_bytes 4 (up_permissions (de_unixprivs e)) @ be_bytes 4 (up_ua_permissions (de_unixprivs e))
      else replicate (fld_width f) 0)"

definition fields_bytes :: "afp_session \<Rightarrow> nat \<Rightarrow> afp_dirent \<Rightarrow> block_field list \<Rightarrow> bytes" where
  "fields_bytes ses bitmap e fs = concat (map (param_bytes ses e) (filter (\<lambda>f. has_bit bitmap (fld_bit f)) fs))"

text \<open>The block's fixed part with the offsets of the names, and the two names behind it.\<close>

definition fixed_part :: "afp_session \<Rightarrow> nat \<Rightarrow> afp_dirent \<Rightarrow> nat \<Rightarrow> nat \<Rightarrow> bytes" where
  "fixed_part ses bitmap e loff uoff =
     fields_bytes ses bitmap e (first_fields ses) @
     (if has_bit bitmap kFPLongNameBit then be_bytes 2 loff else []) @
     fields_bytes ses bitmap e (middle_fields (de_isdir e \<noteq> 0)) @
     (if has_bit bitmap kFPUTF8NameBit then be_bytes 2 uoff @ be_bytes 4 0 else []) @
     fields_bytes ses bitmap e last_fields"

definition encode_block :: "afp_session \<Rightarrow> nat \<Rightarrow> afp_dirent \<Rightarrow> bytes \<Rightarrow> bytes \<Rightarrow> bytes" where
  "encode_block ses bitmap e lname uname =
     (let loff = length (fixed_part ses bitmap e 0 0);
          lpart = (if has_bit bitmap kFPLongNameBit then of_nat (length lname) # lname else []);
          uoff = loff + length lpart
      in fixed_part ses bitmap e loff uoff @ lpart @
         (if has_bit bitmap kFPUTF8NameBit then be_bytes 4 0x08000103 @ be_bytes 2 (length uname) @ uname else []))"

definition maybe :: "bool \<Rightarrow> ('a \<Rightarrow> 'a) \<Rightarrow> 'a \<Rightarrow> 'a" where
  "maybe c f x = (if c then f x else x)"

definition store_fields :: "afp_session \<Rightarrow> nat \<Rightarrow> afp_dirent \<Rightarrow> block_field list \<Rightarrow> afp_dirent \<Rightarrow> afp_dirent" where
  "store_fields ses bitmap e fs =
     fold (\<lambda>f. maybe (has_bit bitmap (fld_bit f)) (fld_store f (param_bytes ses e f))) fs"

lemma parse_field_at:
  assumes "length v = fld_width f" "bs_pos s = length pre"
  shows "parse_field (pre @ v @ post) (length (pre @ v @ post)) f s =
    Parsed (s\<lparr>bs_pos := length (pre @ v), bs_entry := fld_store f v (bs_entry s)\<rparr>)"
  using assms by (simp add: parse_field_def need_bytes_def rd_bytes_def)

lemma parse_fields_at:
  assumes "\<forall>f \<in> set fs. length (param_bytes ses e f) = fld_width f" "bs_pos s = length pre"
    "buf = pre @ fields_bytes ses bitmap e fs @ post"
  shows "parse_fields buf (length buf) bitmap fs s =
    Parsed (s\<lparr>bs_pos := length (pre @ fields_bytes ses bitmap e fs),
              bs_entry := store_fields ses bitmap e fs (bs_entry s)\<rparr>)"
  using assms
proof (induction fs arbitrary: s pre)
  case Nil
  then show ?case by (simp add: fields_bytes_def store_fields_def)
next
  case (Cons f fs)
  show ?case
  proof (cases "has_bit bitmap (fld_bit f)")
    case False
    then show ?thesis
      using Cons.IH [of s pre] Cons.prems by (simp add: fields_bytes_def store_fields_def maybe_def)
  next
    case True
    let ?v = "param_bytes ses e f" and ?r = "fields_bytes ses bitmap e fs @ post"
    let ?s = "s\<lparr>bs_pos := length (pre @ ?v), bs_entry := fld_store f ?v (bs_entry s)\<rparr>"
    have b: "buf = pre @ ?v @ ?r" using True Cons.prems(3) by (simp add: fields_bytes_def)
    have "parse_field buf (length buf) f s = Parsed ?s"
      unfolding b using Cons.prems by (intro parse_field_at) simp_all
    moreover have "parse_fields buf (length buf) bitmap fs ?s =
        Parsed (?s\<lparr>bs_pos := length ((pre @ ?v) @ fields_bytes ses bitmap e fs),
                   bs_entry := store_fields ses bitmap e fs (bs_entry ?s)\<rparr>)"
      using Cons.prems b by (intro Cons.IH) simp_all
    ultimately show ?thesis
      using True by (simp add: and_then_def fields_bytes_def store_fields_def maybe_def)
  qed
qed

lemma locate_pascal_at:
  assumes "length n < 256" "buf = pre @ (of_nat (length n) # n) @ post"
  shows "locate_pascal buf (length buf) (length pre) = Parsed n"
  using assms by (simp add: locate_pascal_def need_bytes_def rd_def rd_bytes_def be_nat_def)

lemma locate_afpname_at:
  assumes "length n < 65536" "buf = pre @ (be_bytes 4 h @ be_bytes 2 (length n) @ n) @ post"
  shows "locate_afpname buf (length buf) (length pre) = Parsed n"
  using assms by (simp add: locate_afpname_def need_bytes_def rd_def rd_bytes_def)

lemma parse_name_at:
  assumes "locate buf (length buf) off = Parsed n" "off < 65536" "bs_pos s = length pre"
    "buf = pre @ be_bytes 2 off @ be_bytes hint 0 @ post"
    "bs_name s = Some n0" "convert_name_to_unix malloc_ok encoding n name_len = Some (0, d)"
  shows "parse_name malloc_ok locate encoding b hint buf (length buf) name_len s =
    Parsed (s\<lparr>bs_pos := length pre + 2 + hint, bs_entry := set_valid b (bs_entry s), bs_name := Some d\<rparr>)"
proof -
  have o: "be_nat (take 2 (drop (bs_pos s) buf)) = off" using assms(2,3,4) by simp
  let ?s = "s\<lparr>bs_pos := length (pre @ be_bytes 2 off), bs_entry := set_valid b (bs_entry s)\<rparr>"
  have "parse_field buf (length buf) (u16_field b (\<lambda>_ e. e)) s = Parsed ?s"
    unfolding assms(4) using parse_field_at [of "be_bytes 2 off" "u16_field b (\<lambda>_ e. e)" s pre "be_bytes hint 0 @ post"] assms(3)
    by (simp add: u16_field_def)
  moreover have "parse_field buf (length buf) (skip_field b hint) ?s = Parsed (?s\<lparr>bs_pos := length pre + 2 + hint\<rparr>)"
    unfolding assms(4) using parse_field_at [of "be_bytes hint 0" "skip_field b hint" ?s "pre @ be_bytes 2 off" post]
    by (simp add: skip_field_def)
  ultimately show ?thesis
    using assms(1,5,6) o by (simp add: parse_name_def and_then_def store_name_def)
qed


definition date_ok :: "afp_session \<Rightarrow> int \<Rightarrow> bool" where
  "date_ok ses ns \<longleftrightarrow> (\<exists>d < 2 ^ 32. d \<noteq> 0x80000000 \<and> ns = afp_ns_from_sec (afp_date_to_unix ses d))"

lemma date_ok_stored:
  assumes "offset_ok ses" "date_ok ses ns"
  shows "afp_ns_from_sec (afp_date_to_unix ses (afp_date_from_unix ses (afp_sec_from_ns ns))) = ns"
proof -
  obtain d where d: "d < 2 ^ 32" "d \<noteq> 0x80000000" "ns = afp_ns_from_sec (afp_date_to_unix ses d)"
    using assms(2) by (auto simp: date_ok_def)
  have "afp_sec_from_ns ns = afp_date_to_unix ses d"
    using sec_from_ns_from_sec [of "afp_date_to_unix ses d"] afp_date_to_unix_range [OF assms(1) d(1)] d(3) by auto
  then show ?thesis using date_from_to [OF assms(1) d(1,2)] d(3) by simp
qed

text \<open>The values a block can carry.\<close>

definition wf_entry :: "afp_session \<Rightarrow> nat \<Rightarrow> afp_dirent \<Rightarrow> bool" where
  "wf_entry ses bitmap e \<longleftrightarrow>
     de_attributes e < 2 ^ 16 \<and> de_parent_did e < 2 ^ 32 \<and> de_cnid e < 2 ^ 32 \<and> de_offspring e < 2 ^ 16 \<and>
     de_size e < 2 ^ 64 \<and> de_resourcesize e < 2 ^ 64 \<and> length (de_finderinfo e) = 32 \<and>
     (has_bit bitmap kFPDataForkLenBit \<longrightarrow> de_size e < 2 ^ 32) \<and>
     (has_bit bitmap kFPRsrcForkLenBit \<longrightarrow> de_resourcesize e < 2 ^ 32) \<and>
     up_uid (de_unixprivs e) < 2 ^ 32 \<and> up_gid (de_unixprivs e) < 2 ^ 32 \<and>
     up_permissions (de_unixprivs e) < 2 ^ 32 \<and> up_ua_permissions (de_unixprivs e) < 2 ^ 32 \<and>
     date_ok ses (de_create_ns e) \<and> date_ok ses (de_mod_ns e)"

text \<open>An entry holds what the bitmap names of another, and nothing else.\<close>

definition carries :: "nat \<Rightarrow> afp_dirent \<Rightarrow> afp_dirent \<Rightarrow> bool" where
  "carries bitmap e e' \<longleftrightarrow>
     (let has = has_bit bitmap; isdir = (de_isdir e \<noteq> 0); up = de_unixprivs e; up' = de_unixprivs e' in
      de_isdir e' = de_isdir e \<and>
      de_attributes e' = (if has kFPAttributeBit then de_attributes e else 0) \<and>
      de_parent_did e' = (if has kFPParentDirIDBit then de_parent_did e else 0) \<and>
      de_create_ns e' = (if has kFPCreateDateBit then de_create_ns e else 0) \<and>
      de_mod_ns e' = (if has kFPModDateBit then de_mod_ns e else 0) \<and>
      de_finderinfo e' = (if has kFPFinderInfoBit then de_finderinfo e else replicate 32 0) \<and>
      de_cnid e' = (if has kFPNodeIDBit then de_cnid e else 0) \<and>
      de_offspring e' = (if has kFPOffspringCountBit \<and> isdir then de_offspring e else 0) \<and>
      de_size e' = (if (has kFPDataForkLenBit \<or> has kFPExtDataForkLenBit) \<and> \<not> isdir then de_size e else 0) \<and>
      de_resourcesize e' = (if has kFPRsrcForkLenBit \<and> \<not> isdir \<or> has kFPExtRsrcForkLenBit
                            then de_resourcesize e else 0) \<and>
      up_uid up' = (if has kFPUnixPrivsBit \<or> has kFPOwnerIDBit \<and> isdir then up_uid up else 0) \<and>
      up_gid up' = (if has kFPUnixPrivsBit \<or> has kFPGroupIDBit \<and> isdir then up_gid up else 0) \<and>
      up_permissions up' = (if has kFPUnixPrivsBit then up_permissions up else 0) \<and>
      up_ua_permissions up' = (if has kFPUnixPrivsBit then up_ua_permissions up else 0) \<and>
      de_valid e' = bitmap AND 0xEF6F)"

lemma param_lengths:
  assumes "length (de_finderinfo e) = 32"
  shows "\<forall>f \<in> set (first_fields ses). length (param_bytes ses e f) = fld_width f"
    "\<forall>f \<in> set (middle_fields (de_isdir e \<noteq> 0)). length (param_bytes ses e f) = fld_width f"
    "\<forall>f \<in> set last_fields. length (param_bytes ses e f) = fld_width f"
  using assms
  by (simp_all add: first_fields_def middle_fields_def last_fields_def u16_field_def u32_field_def u64_field_def
      date_field_def skip_field_def finderinfo_field_def unixprivs_field_def param_bytes_def)

text \<open>A conditional store as one update.\<close>

definition bit_if :: "bool \<Rightarrow> nat \<Rightarrow> nat" where
  "bit_if c b = (if c then b else 0)"

lemma maybe_stores:
  "maybe c (set_valid b) x = x\<lparr>de_valid := de_valid x OR bit_if c b\<rparr>"
  "maybe c (\<lambda>x. x) x = x"
  "maybe c (\<lambda>x. set_valid b (x\<lparr>de_attributes := v\<rparr>)) x =
     x\<lparr>de_attributes := if c then v else de_attributes x, de_valid := de_valid x OR bit_if c b\<rparr>"
  "maybe c (\<lambda>x. set_valid b (x\<lparr>de_parent_did := v\<rparr>)) x =
     x\<lparr>de_parent_did := if c then v else de_parent_did x, de_valid := de_valid x OR bit_if c b\<rparr>"
  "maybe c (\<lambda>x. set_valid b (x\<lparr>de_create_ns := t\<rparr>)) x =
     x\<lparr>de_create_ns := if c then t else de_create_ns x, de_valid := de_valid x OR bit_if c b\<rparr>"
  "maybe c (\<lambda>x. set_valid b (x\<lparr>de_mod_ns := t\<rparr>)) x =
     x\<lparr>de_mod_ns := if c then t else de_mod_ns x, de_valid := de_valid x OR bit_if c b\<rparr>"
  "maybe c (\<lambda>x. set_valid b (x\<lparr>de_finderinfo := fi\<rparr>)) x =
     x\<lparr>de_finderinfo := if c then fi else de_finderinfo x, de_valid := de_valid x OR bit_if c b\<rparr>"
  "maybe c (\<lambda>x. set_valid b (x\<lparr>de_cnid := v\<rparr>)) x =
     x\<lparr>de_cnid := if c then v else de_cnid x, de_valid := de_valid x OR bit_if c b\<rparr>"
  "maybe c (\<lambda>x. set_valid b (x\<lparr>de_offspring := v\<rparr>)) x =
     x\<lparr>de_offspring := if c then v else de_offspring x, de_valid := de_valid x OR bit_if c b\<rparr>"
  "maybe c (\<lambda>x. set_valid b (x\<lparr>de_size := v\<rparr>)) x =
     x\<lparr>de_size := if c then v else de_size x, de_valid := de_valid x OR bit_if c b\<rparr>"
  "maybe c (\<lambda>x. set_valid b (x\<lparr>de_resourcesize := v\<rparr>)) x =
     x\<lparr>de_resourcesize := if c then v else de_resourcesize x, de_valid := de_valid x OR bit_if c b\<rparr>"
  "maybe c (\<lambda>x. set_valid b (x\<lparr>de_unixprivs := up\<rparr>)) x =
     x\<lparr>de_unixprivs := if c then up else de_unixprivs x, de_valid := de_valid x OR bit_if c b\<rparr>"
  "maybe c (\<lambda>x. set_valid b (set_uid v x)) x =
     x\<lparr>de_unixprivs := (de_unixprivs x)\<lparr>up_uid := if c then v else up_uid (de_unixprivs x)\<rparr>,
        de_valid := de_valid x OR bit_if c b\<rparr>"
  "maybe c (\<lambda>x. set_valid b (set_gid v x)) x =
     x\<lparr>de_unixprivs := (de_unixprivs x)\<lparr>up_gid := if c then v else up_gid (de_unixprivs x)\<rparr>,
        de_valid := de_valid x OR bit_if c b\<rparr>"
  by (simp_all add: maybe_def set_valid_def set_uid_def set_gid_def bit_if_def)

lemmas field_defs = u16_field_def u32_field_def u64_field_def date_field_def skip_field_def
  finderinfo_field_def unixprivs_field_def

text \<open>The values the parameters of an entry are read back as.\<close>

lemma read_back:
  assumes "offset_ok ses" "wf_entry ses bitmap e"
  shows "de_attributes e mod 65536 = de_attributes e" "de_parent_did e mod 4294967296 = de_parent_did e"
    "de_cnid e mod 4294967296 = de_cnid e" "de_offspring e mod 65536 = de_offspring e"
    "de_size e mod 18446744073709551616 = de_size e"
    "de_resourcesize e mod 18446744073709551616 = de_resourcesize e"
    "up_uid (de_unixprivs e) mod 4294967296 = up_uid (de_unixprivs e)"
    "up_gid (de_unixprivs e) mod 4294967296 = up_gid (de_unixprivs e)"
    "up_permissions (de_unixprivs e) mod 4294967296 = up_permissions (de_unixprivs e)"
    "up_ua_permissions (de_unixprivs e) mod 4294967296 = up_ua_permissions (de_unixprivs e)"
    "afp_date_from_unix ses t mod 4294967296 = afp_date_from_unix ses t"
    "afp_date_from_unix ses t \<noteq> 2147483648"
    "afp_ns_from_sec (afp_date_to_unix ses (afp_date_from_unix ses (afp_sec_from_ns (de_create_ns e)))) = de_create_ns e"
    "afp_ns_from_sec (afp_date_to_unix ses (afp_date_from_unix ses (afp_sec_from_ns (de_mod_ns e)))) = de_mod_ns e"
    "has_bit bitmap kFPDataForkLenBit \<Longrightarrow> de_size e mod 4294967296 = de_size e"
    "has_bit bitmap kFPRsrcForkLenBit \<Longrightarrow> de_resourcesize e mod 4294967296 = de_resourcesize e"
  using assms date_from_unix_set [of ses t] date_ok_stored [OF assms(1)] by (simp_all add: wf_entry_def)

lemma privileges_eta:
  "\<lparr>up_uid = up_uid p, up_gid = up_gid p, up_permissions = up_permissions p, up_ua_permissions = up_ua_permissions p\<rparr> = p"
  by simp

text \<open>The bits the stores leave in \<open>valid\<close>.\<close>

lemma and_or_distrib_nat: "(x AND y) OR (x AND z) = x AND (y OR (z :: nat))"
  by (rule bit_eqI) (auto simp: bit_or_iff bit_and_iff)

lemma and_one_bit:
  assumes "b = 2 ^ k"
  shows "bit_if (has_bit x b) b = x AND b"
proof (cases "bit x k")
  case True
  then have "x AND 2 ^ k = 2 ^ k" by (intro bit_eqI) (auto simp: bit_and_iff bit_exp_iff)
  then show ?thesis by (simp add: has_bit_def bit_if_def assms)
next
  case False
  then have "x AND 2 ^ k = 0" by (intro bit_eqI) (auto simp: bit_and_iff bit_exp_iff)
  then show ?thesis by (simp add: has_bit_def bit_if_def assms)
qed

lemma and_bits:
  "bit_if (has_bit x 1) 1 = x AND 1" "bit_if (has_bit x 2) 2 = x AND 2" "bit_if (has_bit x 4) 4 = x AND 4"
  "bit_if (has_bit x 8) 8 = x AND 8" "bit_if (has_bit x 32) 32 = x AND 32" "bit_if (has_bit x 64) 64 = x AND 64"
  "bit_if (has_bit x 256) 256 = x AND 256" "bit_if (has_bit x 512) 512 = x AND 512" "bit_if (has_bit x 1024) 1024 = x AND 1024"
  "bit_if (has_bit x 2048) 2048 = x AND 2048" "bit_if (has_bit x 8192) 8192 = x AND 8192" "bit_if (has_bit x 16384) 16384 = x AND 16384"
  "bit_if (has_bit x 32768) 32768 = x AND 32768"
  by (rule and_one_bit [of _ 0], simp, rule and_one_bit [of _ 1], simp, rule and_one_bit [of _ 2], simp
   , rule and_one_bit [of _ 3], simp, rule and_one_bit [of _ 5], simp, rule and_one_bit [of _ 6], simp
   , rule and_one_bit [of _ 8], simp, rule and_one_bit [of _ 9], simp, rule and_one_bit [of _ 10], simp
   , rule and_one_bit [of _ 11], simp, rule and_one_bit [of _ 13], simp, rule and_one_bit [of _ 14], simp
   , rule and_one_bit [of _ 15], simp)

definition stored_entry :: "afp_session \<Rightarrow> nat \<Rightarrow> afp_dirent \<Rightarrow> afp_dirent" where
  "stored_entry ses bitmap e =
     store_fields ses bitmap e last_fields (maybe (has_bit bitmap kFPUTF8NameBit) (set_valid kFPUTF8NameBit)
       (store_fields ses bitmap e (middle_fields (de_isdir e \<noteq> 0))
         (maybe (has_bit bitmap kFPLongNameBit) (set_valid kFPLongNameBit)
           (store_fields ses bitmap e (first_fields ses) (no_entry\<lparr>de_isdir := de_isdir e\<rparr>)))))"

lemma store_first_fields:
  assumes "offset_ok ses" "wf_entry ses bitmap e"
  shows "store_fields ses bitmap e (first_fields ses) x =
      maybe (has_bit bitmap 32) (\<lambda>x. set_valid 32 (x\<lparr>de_finderinfo := de_finderinfo e\<rparr>))
      (maybe (has_bit bitmap 8) (\<lambda>x. set_valid 8 (x\<lparr>de_mod_ns := de_mod_ns e\<rparr>))
      (maybe (has_bit bitmap 4) (\<lambda>x. set_valid 4 (x\<lparr>de_create_ns := de_create_ns e\<rparr>))
      (maybe (has_bit bitmap 2) (\<lambda>x. set_valid 2 (x\<lparr>de_parent_did := de_parent_did e\<rparr>))
      (maybe (has_bit bitmap 1) (\<lambda>x. set_valid 1 (x\<lparr>de_attributes := de_attributes e\<rparr>)) x))))"
  by (simp add: store_fields_def first_fields_def field_defs param_bytes_def read_back [OF assms] maybe_stores(2))

lemma store_last_fields:
  assumes "offset_ok ses" "wf_entry ses bitmap e"
  shows "store_fields ses bitmap e last_fields x =
      maybe (has_bit bitmap 0x8000) (\<lambda>x. set_valid 0x8000 (x\<lparr>de_unixprivs := de_unixprivs e\<rparr>))
      (maybe (has_bit bitmap 0x4000) (\<lambda>x. set_valid 0x4000 (x\<lparr>de_resourcesize := de_resourcesize e\<rparr>)) x)"
  by (simp add: store_fields_def last_fields_def field_defs param_bytes_def read_back [OF assms] privileges_eta)

lemma store_file_fields:
  assumes "offset_ok ses" "wf_entry ses bitmap e" "de_isdir e = 0"
  shows "store_fields ses bitmap e (middle_fields False) x =
      maybe (has_bit bitmap 0x800) (\<lambda>x. set_valid 0x800 (x\<lparr>de_size := de_size e\<rparr>))
      (maybe (has_bit bitmap 0x400) (\<lambda>x. set_valid 0x400 (x\<lparr>de_resourcesize := de_resourcesize e mod 4294967296\<rparr>))
      (maybe (has_bit bitmap 0x200) (\<lambda>x. set_valid 0x200 (x\<lparr>de_size := de_size e mod 4294967296\<rparr>))
      (maybe (has_bit bitmap 0x100) (\<lambda>x. set_valid 0x100 (x\<lparr>de_cnid := de_cnid e\<rparr>)) x)))"
  using assms(3)
  by (simp add: store_fields_def middle_fields_def field_defs param_bytes_def read_back [OF assms(1,2)] maybe_stores(2))

lemma store_directory_fields:
  assumes "offset_ok ses" "wf_entry ses bitmap e" "de_isdir e \<noteq> 0"
  shows "store_fields ses bitmap e (middle_fields True) x =
      maybe (has_bit bitmap 0x800) (\<lambda>x. set_valid 0x800 (set_gid (up_gid (de_unixprivs e)) x))
      (maybe (has_bit bitmap 0x400) (\<lambda>x. set_valid 0x400 (set_uid (up_uid (de_unixprivs e)) x))
      (maybe (has_bit bitmap 0x200) (\<lambda>x. set_valid 0x200 (x\<lparr>de_offspring := de_offspring e\<rparr>))
      (maybe (has_bit bitmap 0x100) (\<lambda>x. set_valid 0x100 (x\<lparr>de_cnid := de_cnid e\<rparr>)) x)))"
  using assms(3)
  by (simp add: store_fields_def middle_fields_def field_defs param_bytes_def read_back [OF assms(1,2)] maybe_stores(2))

lemma stored_entry_valid:
  assumes "offset_ok ses" "wf_entry ses bitmap e"
  shows "de_valid (stored_entry ses bitmap e) = bitmap AND 0xEF6F"
proof -
  have "de_valid (stored_entry ses bitmap e) =
      0 OR bit_if (has_bit bitmap 1) 1 OR bit_if (has_bit bitmap 2) 2 OR bit_if (has_bit bitmap 4) 4 OR
      bit_if (has_bit bitmap 8) 8 OR bit_if (has_bit bitmap 32) 32 OR bit_if (has_bit bitmap 64) 64 OR
      bit_if (has_bit bitmap 256) 256 OR bit_if (has_bit bitmap 512) 512 OR bit_if (has_bit bitmap 1024) 1024 OR
      bit_if (has_bit bitmap 2048) 2048 OR bit_if (has_bit bitmap 8192) 8192 OR
      bit_if (has_bit bitmap 16384) 16384 OR bit_if (has_bit bitmap 32768) 32768"
    by (cases "de_isdir e = 0")
      (simp_all add: stored_entry_def store_first_fields [OF assms] store_last_fields [OF assms]
        store_file_fields [OF assms] store_directory_fields [OF assms] maybe_stores no_entry_def or.assoc
        del: One_nat_def)
  also have "\<dots> = bitmap AND 0xEF6F" by (simp only: and_bits and_or_distrib_nat or.left_neutral) simp
  finally show ?thesis .
qed

lemma stored_entry_carries:
  assumes "offset_ok ses" "wf_entry ses bitmap e"
  shows "carries bitmap e (stored_entry ses bitmap e)"
proof -
  note v = stored_entry_valid [OF assms] and fs = store_first_fields [OF assms] store_last_fields [OF assms]
    store_file_fields [OF assms] store_directory_fields [OF assms] and rb = read_back(15,16) [OF assms]
  show ?thesis
  proof (cases "de_isdir e = 0")
    case True
    then show ?thesis
      unfolding carries_def Let_def v
      by (intro conjI; simp add: stored_entry_def fs maybe_stores no_entry_def rb split del: if_split cong: if_cong)
        (auto simp: rb)
  next
    case False
    then show ?thesis
      unfolding carries_def Let_def v
      by (intro conjI; simp add: stored_entry_def fs maybe_stores no_entry_def rb split del: if_split cong: if_cong)
        simp_all
  qed
qed


text \<open>The parser follows the block's layout: the steps of \<open>parse_reply_block\<close>, and each name.\<close>

lemma parse_reply_block_steps:
  assumes "bitmap = (if isdir \<noteq> 0 then db else fb)" "0 < name_len"
    "parse_fields buf bsize bitmap (first_fields ses)
       \<lparr>bs_pos = 0, bs_entry = no_entry\<lparr>de_isdir := isdir\<rparr>, bs_name = Some []\<rparr> = Parsed s1"
    "(if has_bit bitmap kFPLongNameBit
      then parse_name malloc_ok locate_pascal kFPLongName kFPLongNameBit 0 buf bsize name_len s1 else Parsed s1) = Parsed s2"
    "parse_fields buf bsize bitmap (middle_fields (isdir \<noteq> 0)) s2 = Parsed s3"
    "(if has_bit bitmap kFPUTF8NameBit
      then parse_name malloc_ok locate_afpname kFPUTF8Name kFPUTF8NameBit 4 buf bsize name_len s3 else Parsed s3) = Parsed s4"
  shows "parse_reply_block malloc_ok ses buf bsize isdir fb db (Some n0) name_len = parse_fields buf bsize bitmap last_fields s4"
  unfolding parse_reply_block_def Let_def assms(1) [symmetric]
  using assms(2-6) by (simp add: and_then_def split del: if_split)

lemma parse_long_name_at:
  assumes "buf = A @ lo @ R @ lb @ ub" "lo = (if c then be_bytes 2 (length (A @ lo @ R)) else [])"
    "lb = (if c then of_nat (length lname) # lname else [])" "length buf < 65536" "length lname < 256"
    "convert_name_to_unix malloc_ok kFPLongName lname name_len = Some (0, ld)" "bs_pos s = length A" "bs_name s = Some []"
  shows "(if c then parse_name malloc_ok locate_pascal kFPLongName kFPLongNameBit 0 buf (length buf) name_len s else Parsed s) =
    Parsed (s\<lparr>bs_pos := length (A @ lo), bs_entry := maybe c (set_valid kFPLongNameBit) (bs_entry s),
      bs_name := Some (if c then ld else [])\<rparr>)"
proof (cases c)
  case True
  let ?off = "length (A @ lo @ R)"
  have l: "lo = be_bytes 2 ?off" using True assms(2) by simp
  have bl: "buf = (A @ lo @ R) @ (of_nat (length lname) # lname) @ ub"
    "buf = A @ be_bytes 2 ?off @ be_bytes 0 0 @ (R @ lb @ ub)"
    using True assms(1,3) l by (simp_all del: length_append)
  have "?off < 65536" using assms(4) arg_cong [OF assms(1), of length] by simp
  from parse_name_at [where locate = locate_pascal, OF locate_pascal_at [OF assms(5) bl(1)] this assms(7) bl(2) assms(8,6)] show ?thesis
    using True arg_cong [OF l, of length] by (simp add: maybe_def)
qed (use assms in \<open>simp add: maybe_def\<close>)

lemma parse_utf8_name_at:
  assumes "buf = A @ uo @ R @ ub @ pad" "uo = (if c then be_bytes 2 (length (A @ uo @ R)) @ be_bytes 4 0 else [])"
    "ub = (if c then be_bytes 4 0x08000103 @ be_bytes 2 (length uname) @ uname else [])" "length buf < 65536"
    "convert_name_to_unix malloc_ok kFPUTF8Name uname name_len = Some (0, ud)" "bs_pos s = length A" "bs_name s = Some n0"
  shows "(if c then parse_name malloc_ok locate_afpname kFPUTF8Name kFPUTF8NameBit 4 buf (length buf) name_len s else Parsed s) =
    Parsed (s\<lparr>bs_pos := length (A @ uo), bs_entry := maybe c (set_valid kFPUTF8NameBit) (bs_entry s),
      bs_name := Some (if c then ud else n0)\<rparr>)"
proof (cases c)
  case True
  let ?off = "length (A @ uo @ R)"
  have l: "uo = be_bytes 2 ?off @ be_bytes 4 0" using True assms(2) by simp
  have bu: "buf = (A @ uo @ R) @ (be_bytes 4 0x08000103 @ be_bytes 2 (length uname) @ uname) @ pad"
    "buf = A @ be_bytes 2 ?off @ be_bytes 4 0 @ (R @ ub @ pad)"
    using True assms(1,3) l by (simp_all del: length_append)
  have off: "?off < 65536" "length uname < 65536" using assms(4) arg_cong [OF bu(1), of length] by simp_all
  from parse_name_at [where locate = locate_afpname, OF locate_afpname_at [OF off(2) bu(1)] off(1) assms(6) bu(2) assms(7,5)] show ?thesis
    using True arg_cong [OF l, of length] by (simp add: maybe_def)
qed (use assms in \<open>simp add: maybe_def\<close>)

lemma parse_reply_block_at:
  assumes f: "length (de_finderinfo e) = 32"
    and buf: "buf = encode_block ses bitmap e lname uname @ pad" "length buf < 65536" "length lname < 256"
    and conv: "convert_name_to_unix malloc_ok kFPLongName lname name_len = Some (0, ld)"
      "convert_name_to_unix malloc_ok kFPUTF8Name uname name_len = Some (0, ud)"
    and n: "0 < name_len"
  shows "\<exists>s. parse_reply_block malloc_ok ses buf (length buf) (de_isdir e)
      (if de_isdir e = 0 then bitmap else fb) (if de_isdir e = 0 then db else bitmap) (Some n0) name_len = Parsed s \<and>
    bs_entry s = stored_entry ses bitmap e \<and>
    bs_name s = Some (if has_bit bitmap kFPUTF8NameBit then ud else if has_bit bitmap kFPLongNameBit then ld else [])"
proof -
  let ?L = "has_bit bitmap kFPLongNameBit" and ?U = "has_bit bitmap kFPUTF8NameBit"
  define A where "A = fields_bytes ses bitmap e (first_fields ses)"
  define M where "M = fields_bytes ses bitmap e (middle_fields (de_isdir e \<noteq> 0))"
  define Z where "Z = fields_bytes ses bitmap e last_fields"
  define loff where "loff = length (fixed_part ses bitmap e 0 0)"
  define lb where "lb = (if ?L then of_nat (length lname) # lname else [])"
  define ub where "ub = (if ?U then be_bytes 4 0x08000103 @ be_bytes 2 (length uname) @ uname else [])"
  define lo where "lo = (if ?L then be_bytes 2 loff else [])"
  define uo where "uo = (if ?U then be_bytes 2 (loff + length lb) @ be_bytes 4 0 else [])"
  have b: "buf = A @ lo @ M @ uo @ Z @ lb @ ub @ pad"
    unfolding buf(1) encode_block_def Let_def fixed_part_def A_def M_def Z_def lb_def ub_def lo_def uo_def loff_def
    by simp
  have loff: "loff = length (A @ lo @ M @ uo @ Z)"
    by (simp add: loff_def fixed_part_def A_def M_def Z_def lo_def uo_def)
  have lo: "lo = (if ?L then be_bytes 2 (length (A @ lo @ M @ uo @ Z)) else [])"
    unfolding loff [symmetric] by (rule lo_def)
  have uo: "uo = (if ?U then be_bytes 2 (length ((A @ lo @ M) @ uo @ Z @ lb)) @ be_bytes 4 0 else [])"
  proof -
    have "length ((A @ lo @ M) @ uo @ Z @ lb) = loff + length lb" using loff by simp
    then show ?thesis by (simp only: uo_def)
  qed
  note len = param_lengths [OF f, of ses]
  define s0 where "s0 = \<lparr>bs_pos = 0, bs_entry = no_entry\<lparr>de_isdir := de_isdir e\<rparr>, bs_name = Some ([] :: bytes)\<rparr>"
  note p1 = parse_fields_at [OF len(1), of s0 "[]" buf bitmap "lo @ M @ uo @ Z @ lb @ ub @ pad", folded A_def]
  define s1 where "s1 = s0\<lparr>bs_pos := length ([] @ A), bs_entry := store_fields ses bitmap e (first_fields ses) (bs_entry s0)\<rparr>"
  have q2: "bs_pos s1 = length A" "bs_name s1 = Some []" by (simp_all add: s1_def s0_def)
  note p2 = parse_long_name_at [OF _ lo lb_def buf(2,3) conv(1) q2, of "ub @ pad"]
  define s2 where "s2 = s1\<lparr>bs_pos := length (A @ lo), bs_entry := maybe ?L (set_valid kFPLongNameBit) (bs_entry s1),
      bs_name := Some (if ?L then ld else [])\<rparr>"
  note p3 = parse_fields_at [OF len(2), of s2 "A @ lo" buf bitmap "uo @ Z @ lb @ ub @ pad", folded M_def]
  define s3 where "s3 = s2\<lparr>bs_pos := length ((A @ lo) @ M),
      bs_entry := store_fields ses bitmap e (middle_fields (de_isdir e \<noteq> 0)) (bs_entry s2)\<rparr>"
  have q4: "bs_pos s3 = length (A @ lo @ M)" "bs_name s3 = Some (if ?L then ld else [])"
    by (simp_all add: s3_def s2_def)
  note p4 = parse_utf8_name_at [OF _ uo ub_def buf(2) conv(2) q4, of pad]
  define s4 where "s4 = s3\<lparr>bs_pos := length ((A @ lo @ M) @ uo), bs_entry := maybe ?U (set_valid kFPUTF8NameBit) (bs_entry s3),
      bs_name := Some (if ?U then ud else if ?L then ld else [])\<rparr>"
  note p5 = parse_fields_at [OF len(3), of s4 "A @ lo @ M @ uo" buf bitmap "lb @ ub @ pad", folded Z_def]
  have "parse_reply_block malloc_ok ses buf (length buf) (de_isdir e)
      (if de_isdir e = 0 then bitmap else fb) (if de_isdir e = 0 then db else bitmap) (Some n0) name_len =
      parse_fields buf (length buf) bitmap last_fields s4"
  proof (rule parse_reply_block_steps [OF _ n])
    show "parse_fields buf (length buf) bitmap (first_fields ses)
        \<lparr>bs_pos = 0, bs_entry = no_entry\<lparr>de_isdir := de_isdir e\<rparr>, bs_name = Some []\<rparr> = Parsed s1"
      unfolding s0_def [symmetric] s1_def by (rule p1) (simp_all add: s0_def b)
    show "(if ?L then parse_name malloc_ok locate_pascal kFPLongName kFPLongNameBit 0 buf (length buf) name_len s1
        else Parsed s1) = Parsed s2" unfolding s2_def by (rule p2) (simp add: b)
    show "parse_fields buf (length buf) bitmap (middle_fields (de_isdir e \<noteq> 0)) s2 = Parsed s3"
      unfolding s3_def by (rule p3) (simp_all add: s2_def b)
    show "(if ?U then parse_name malloc_ok locate_afpname kFPUTF8Name kFPUTF8NameBit 4 buf (length buf) name_len s3
        else Parsed s3) = Parsed s4" unfolding s4_def by (rule p4) (simp add: b)
  qed simp
  also have "\<dots> = Parsed (s4\<lparr>bs_pos := length ((A @ lo @ M @ uo) @ Z),
      bs_entry := store_fields ses bitmap e last_fields (bs_entry s4)\<rparr>)" by (rule p5) (simp_all add: s4_def b)
  finally show ?thesis by (simp add: stored_entry_def s4_def s3_def s2_def s1_def s0_def del: length_append)
qed

section \<open>Properties\<close>

text \<open>C35: the parameter block parser stays inside the block. Whatever bytes the server sends, and
  whatever bitmaps, \<open>parse_reply_block\<close> reads no byte outside the memory behind the block, and
  what it writes to the caller's name buffer fits it with its terminator, also when it returns -1.\<close>
theorem reply_block_memory_safe:
  assumes "bsize \<le> length buf" "name = None \<or> 0 < name_len"
  shows "\<exists>s. parse_reply_block malloc_ok ses buf bsize isdir filebitmap dirbitmap name name_len \<in> {Parsed s, Malformed s} \<and>
    (\<forall>n. bs_name s = Some n \<longrightarrow> length n < name_len)"
  using parse_reply_block_safe [OF assms, of malloc_ok ses isdir filebitmap dirbitmap]
  by (cases "parse_reply_block malloc_ok ses buf bsize isdir filebitmap dirbitmap name name_len")
    (auto simp: name_fits_def)

definition plain_session :: afp_session where
  "plain_session = \<lparr>ses_version = Some 34, ses_time_offset = 0\<rparr>"

theorem reply_block_memory_safe_witness:
  "\<exists>s. parse_reply_block (\<lambda>_. True) plain_session [0, 7, 1, 2] 4 0 0x2003 0 (Some []) 256 \<in> {Parsed s, Malformed s}"
  using reply_block_memory_safe [of 4 "[0, 7, 1, 2]" "Some []" 256 "\<lambda>_. True" plain_session 0 "0x2003" 0] by auto


definition sample_entry :: afp_dirent where
  "sample_entry = no_entry\<lparr>de_cnid := 17, de_size := 5000000000, de_create_ns := 946684800000000000,
     de_mod_ns := 946684800000000000\<rparr>"

lemma offset_ok_plain: "offset_ok plain_session"
  by (simp add: offset_ok_def plain_session_def)

lemma wf_sample_entry: "wf_entry plain_session 0x2900 sample_entry"
proof -
  have "date_ok plain_session 946684800000000000"
    unfolding date_ok_def
    by (rule exI [of _ 0]) (simp add: afp_date_to_unix_def plain_session_def server_uses_local_time_def afp_ns_from_sec_def)
  then show ?thesis by (simp add: wf_entry_def sample_entry_def no_entry_def has_bit_def)
qed


text \<open>Dates round trip. Every date a server can set is the date the client sends back for its
  time, on AFP 2 servers with their local times too, and no time is sent as the unset date.\<close>
theorem dates_round_trip:
  assumes "offset_ok ses" "d < 2 ^ 32" "d \<noteq> 0x80000000"
  shows "afp_date_from_unix ses (afp_sec_from_ns (afp_ns_from_sec (afp_date_to_unix ses d))) = d \<and>
    afp_date_from_unix ses t \<noteq> 0x80000000"
  using date_from_to [OF assms] date_from_unix_set [of ses t] afp_date_to_unix_range [OF assms(1,2)]
    sec_from_ns_from_sec [of "afp_date_to_unix ses d"] by auto

theorem dates_round_trip_witness:
  "afp_date_from_unix \<lparr>ses_version = Some 22, ses_time_offset = 3600\<rparr>
     (afp_sec_from_ns (afp_ns_from_sec (afp_date_to_unix \<lparr>ses_version = Some 22, ses_time_offset = 3600\<rparr> 0xfffffff0)))
     = 0xfffffff0 \<and> afp_date_from_unix \<lparr>ses_version = Some 22, ses_time_offset = 3600\<rparr> (- (10 ^ 12)) \<noteq> 0x80000000"
  by (rule dates_round_trip) (simp_all add: offset_ok_def)

end
