(* ===== verification/Listing.thy ===== *)
theory Listing
  imports Reply_Block
begin

text \<open>
  Directory listings, \<open>lib/listing.c\<close>: an array of entries and a pool of their names, grown by
  doubling, with the \<open>stat\<close> form of an entry and the user mapping of \<open>lib/users.c\<close>.  The arrays are
  lists as long as their capacities; whether \<open>realloc\<close> grants a size is the parameter \<open>malloc_ok\<close>.
  Fresh memory is shown as zeros, which nothing reads before it is written.
\<close>

unbundle bit_operations_syntax

section \<open>Entries and names\<close>

record afp_listing =
  ls_entries :: "afp_dirent list"
  ls_count :: nat
  ls_pool :: bytes
  ls_pool_used :: nat

abbreviation (input) UINT32_MAX :: nat where "UINT32_MAX \<equiv> 4294967295"
abbreviation (input) AFP_LISTING_MIN_ENTRIES :: nat where "AFP_LISTING_MIN_ENTRIES \<equiv> 64"
abbreviation (input) AFPC_MAX_NAME_BYTES :: nat where "AFPC_MAX_NAME_BYTES \<equiv> 1021"
abbreviation (input) sizeof_dirent :: nat where "sizeof_dirent \<equiv> 104"

abbreviation (input) AFP_META_RESOURCE :: nat where "AFP_META_RESOURCE \<equiv> 1"
abbreviation (input) AFP_META_FINDERINFO :: nat where "AFP_META_FINDERINFO \<equiv> 3"
abbreviation (input) AFP_META_COMMENT :: nat where "AFP_META_COMMENT \<equiv> 4"

definition empty_listing :: afp_listing where
  "empty_listing = \<lparr>ls_entries = [], ls_count = 0, ls_pool = [], ls_pool_used = 0\<rparr>"

text \<open>The capacity \<open>grown_array\<close> reallocates to.\<close>

definition grown_array :: "(nat \<Rightarrow> bool) \<Rightarrow> nat \<Rightarrow> nat \<Rightarrow> nat \<Rightarrow> nat \<Rightarrow> nat option" where
  "grown_array malloc_ok cap need elem least =
     (let capacity = min (max (max need (cap * 2)) least) (UINT32_MAX div elem) in
      if need > capacity then None
      else if malloc_ok (capacity * elem) then Some capacity else None)"

definition resized :: "'a \<Rightarrow> nat \<Rightarrow> 'a list \<Rightarrow> 'a list" where
  "resized x n xs = take n xs @ replicate (n - length xs) x"

definition reserve_entries :: "(nat \<Rightarrow> bool) \<Rightarrow> nat \<Rightarrow> afp_listing \<Rightarrow> afp_listing option" where
  "reserve_entries malloc_ok entries l =
     (let need = ls_count l + entries in
      if need > length (ls_entries l) then
        map_option (\<lambda>n. l\<lparr>ls_entries := resized no_entry n (ls_entries l)\<rparr>)
          (grown_array malloc_ok (length (ls_entries l)) need sizeof_dirent AFP_LISTING_MIN_ENTRIES)
      else Some l)"

definition reserve_pool :: "(nat \<Rightarrow> bool) \<Rightarrow> nat \<Rightarrow> afp_listing \<Rightarrow> afp_listing option" where
  "reserve_pool malloc_ok bytes l =
     (let need = ls_pool_used l + bytes in
      if need > length (ls_pool l) then
        map_option (\<lambda>n. l\<lparr>ls_pool := resized 0 n (ls_pool l)\<rparr>)
          (grown_array malloc_ok (length (ls_pool l)) need 1 0)
      else Some l)"

definition listing_reserve :: "(nat \<Rightarrow> bool) \<Rightarrow> nat \<Rightarrow> nat \<Rightarrow> afp_listing \<Rightarrow> int \<times> afp_listing" where
  "listing_reserve malloc_ok entries bytes l =
     (case reserve_entries malloc_ok entries l of
        None \<Rightarrow> (- ENOMEM, l)
      | Some l1 \<Rightarrow>
          (case reserve_pool malloc_ok bytes l1 of None \<Rightarrow> (- ENOMEM, l1) | Some l2 \<Rightarrow> (0, l2)))"

text \<open>The C string at an offset of the pool, if one ends inside it.\<close>

definition pool_string :: "bytes \<Rightarrow> nat \<Rightarrow> bytes option" where
  "pool_string pool off = (if 0 \<in> set (drop off pool) then Some (cstr (drop off pool)) else None)"

definition dirent_name :: "afp_listing \<Rightarrow> afp_dirent \<Rightarrow> bytes option" where
  "dirent_name l e = pool_string (ls_pool l) (de_name_off e)"

definition listing_commit :: "afp_listing \<Rightarrow> afp_listing option" where
  "listing_commit l =
     (if ls_count l \<ge> length (ls_entries l) then None
      else case pool_string (ls_pool l) (ls_pool_used l) of
          None \<Rightarrow> None
        | Some name \<Rightarrow> Some (l\<lparr>
            ls_entries := (ls_entries l)[ls_count l := (ls_entries l ! ls_count l)\<lparr>de_name_off := ls_pool_used l\<rparr>],
            ls_count := ls_count l + 1,
            ls_pool_used := u32 (ls_pool_used l + length name + 1)\<rparr>))"

text \<open>A producer's record at the array's end and its name, terminated, at the pool's.\<close>

definition put_record :: "afp_dirent \<Rightarrow> bytes \<Rightarrow> afp_listing \<Rightarrow> afp_listing option" where
  "put_record e name l =
     (if ls_count l < length (ls_entries l) \<and> ls_pool_used l + length name + 1 \<le> length (ls_pool l)
      then Some (l\<lparr>ls_entries := (ls_entries l)[ls_count l := e],
                   ls_pool := write_at (ls_pool l) (ls_pool_used l) (name @ [0])\<rparr>)
      else None)"

definition listing_append ::
  "(nat \<Rightarrow> bool) \<Rightarrow> afp_listing \<Rightarrow> afp_dirent \<Rightarrow> bytes \<Rightarrow> nat \<Rightarrow> nat \<Rightarrow> (int \<times> afp_listing) option" where
  "listing_append malloc_ok l e suff kind sz =
     (case dirent_name l e of
        None \<Rightarrow> None
      | Some name \<Rightarrow>
          (case listing_reserve malloc_ok 1 (length name + length suff + 1) l of
             (ret, l1) \<Rightarrow>
               if ret \<noteq> 0 then Some (ret, l1)
               else (case put_record (e\<lparr>de_kind := u8 kind, de_size := sz\<rparr>) (name @ suff) l1 of
                       None \<Rightarrow> None
                     | Some l2 \<Rightarrow> map_option (Pair 0) (listing_commit l2))))"

text \<open>The loop of \<open>afp_listing_drop_unnamed\<close>, at entry \<open>i\<close>.\<close>

fun drop_unnamed_loop :: "nat \<Rightarrow> nat \<Rightarrow> nat \<Rightarrow> afp_listing \<Rightarrow> afp_listing option" where
  "drop_unnamed_loop 0 i kept l = Some (l\<lparr>ls_count := kept\<rparr>)"
| "drop_unnamed_loop (Suc n) i kept l =
     (case dirent_name l (ls_entries l ! i) of
        None \<Rightarrow> None
      | Some name \<Rightarrow>
          if name \<noteq> []
          then drop_unnamed_loop n (Suc i) (Suc kept) (l\<lparr>ls_entries := (ls_entries l)[kept := ls_entries l ! i]\<rparr>)
          else drop_unnamed_loop n (Suc i) kept l)"

definition listing_drop_unnamed :: "afp_listing \<Rightarrow> afp_listing option" where
  "listing_drop_unnamed l = drop_unnamed_loop (ls_count l) 0 0 l"

section \<open>User mapping\<close>

abbreviation (input) AFP_MAPPING_UNKNOWN :: nat where "AFP_MAPPING_UNKNOWN \<equiv> 0"
abbreviation (input) AFP_MAPPING_COMMON :: nat where "AFP_MAPPING_COMMON \<equiv> 1"
abbreviation (input) AFP_MAPPING_LOGINIDS :: nat where "AFP_MAPPING_LOGINIDS \<equiv> 2"
abbreviation (input) kNoNetworkUserIDs :: nat where "kNoNetworkUserIDs \<equiv> 0x80"

text \<open>What the mapping and the \<open>stat\<close> form need of a volume and its server.\<close>

record volume_ids =
  vi_mapping :: nat
  vi_pw_uid :: nat
  vi_pw_gid :: nat
  vi_server_uid :: nat
  vi_server_gid :: "nat option"
  vi_connect_time :: int

definition translate_uidgid_to_client :: "volume_ids \<Rightarrow> nat \<times> nat \<Rightarrow> (nat \<times> nat) option" where
  "translate_uidgid_to_client v ids =
     (if vi_mapping v = AFP_MAPPING_COMMON then Some ids
      else if vi_mapping v = AFP_MAPPING_LOGINIDS then Some (vi_pw_uid v, vi_pw_gid v)
      else None)"

text \<open>\<open>user_id\<close> and \<open>group_id\<close> are what the server answers for the user's id and primary group,
  \<open>mapid\<close> is the name it gives the id.\<close>

definition detect_mapping ::
  "nat option \<Rightarrow> nat option \<Rightarrow> bytes \<Rightarrow> bytes \<Rightarrow> nat \<Rightarrow> volume_ids \<Rightarrow> volume_ids" where
  "detect_mapping user_id group_id mapid pw_name attributes v =
     (if vi_mapping v \<noteq> AFP_MAPPING_UNKNOWN then v
      else if attributes AND kNoNetworkUserIDs \<noteq> 0 then v\<lparr>vi_mapping := AFP_MAPPING_LOGINIDS\<rparr>
      else let v1 = v\<lparr>vi_mapping := AFP_MAPPING_LOGINIDS, vi_server_gid := None\<rparr> in
        case user_id of
          None \<Rightarrow> v1
        | Some uid \<Rightarrow>
            let v2 = v1\<lparr>vi_server_uid := uid, vi_server_gid := group_id\<rparr> in
            if uid \<noteq> vi_pw_uid v2 then v2
            else if mapid = pw_name then v2\<lparr>vi_mapping := AFP_MAPPING_COMMON\<rparr> else v2)"

section \<open>The stat form\<close>

abbreviation (input) S_IFMT :: nat where "S_IFMT \<equiv> 0xF000"
abbreviation (input) S_IFDIR :: nat where "S_IFDIR \<equiv> 0x4000"
abbreviation (input) S_IFREG :: nat where "S_IFREG \<equiv> 0x8000"

record stat_buf =
  st_mode :: nat
  st_ino :: nat
  st_uid :: nat
  st_gid :: nat
  st_blksize :: nat
  st_nlink :: nat
  st_size :: nat
  st_blocks :: nat
  st_ctim :: "int \<times> int"
  st_mtim :: "int \<times> int"

definition dirent_time :: "volume_ids \<Rightarrow> afp_dirent \<Rightarrow> nat \<Rightarrow> int \<Rightarrow> int \<times> int" where
  "dirent_time v e b ns =
     (if \<not> has_bit (de_valid e) b then (vi_connect_time v, 0)
      else let tv_sec = afp_sec_from_ns ns; tv_nsec = sgn ns * (\<bar>ns\<bar> mod AFP_NS_PER_SEC) in
        if tv_nsec < 0 then (tv_sec - 1, tv_nsec + AFP_NS_PER_SEC) else (tv_sec, tv_nsec))"

definition blocks_of :: "nat \<Rightarrow> nat" where
  "blocks_of sz = sz div 512 + (if sz mod 512 \<noteq> 0 then 1 else 0)"

text \<open>A mode with its type replaced by a regular file's.\<close>

definition regular_mode :: "nat \<Rightarrow> nat" where
  "regular_mode mode = (mode - (mode AND S_IFMT)) OR S_IFREG"

definition pseudo_file_stat :: "nat \<Rightarrow> stat_buf \<Rightarrow> stat_buf" where
  "pseudo_file_stat sz st =
     st\<lparr>st_mode := regular_mode (st_mode st), st_nlink := 1, st_size := sz, st_blocks := blocks_of sz\<rparr>"

definition dirent_mode :: "afp_dirent \<Rightarrow> nat" where
  "dirent_mode e =
     (let mode0 = (if de_isdir e \<noteq> 0 then 448 OR S_IFDIR else 384 OR S_IFREG);
          mode = (if has_bit (de_valid e) kFPUnixPrivsBit \<and> up_permissions (de_unixprivs e) \<noteq> 0
                  then up_permissions (de_unixprivs e) else mode0)
      in if de_kind e = AFP_META_FINDERINFO \<or> de_kind e = AFP_META_COMMENT then regular_mode mode else mode)"

definition dirent_to_stat :: "volume_ids \<Rightarrow> afp_dirent \<Rightarrow> stat_buf option" where
  "dirent_to_stat v e =
     (let create = dirent_time v e kFPCreateDateBit (de_create_ns e);
          modified = dirent_time v e kFPModDateBit (de_mod_ns e)
      in case translate_uidgid_to_client v (up_uid (de_unixprivs e), up_gid (de_unixprivs e)) of
        None \<Rightarrow> None
      | Some (uid, gid) \<Rightarrow>
          let mode = dirent_mode e;
              isdir = (mode AND S_IFMT = S_IFDIR);
              nlink = (if isdir then (let n = de_offspring e + 2 in if n < 2 then 1 else n) else 1);
              sz = (if isdir then (if de_kind e = AFP_META_RESOURCE then 0 else de_offspring e * 34 + 24)
                    else min (if de_kind e = AFP_META_RESOURCE then de_resourcesize e else de_size e) (2 ^ 63 - 1))
          in Some \<lparr>st_mode = mode, st_ino = de_cnid e, st_uid = uid, st_gid = gid, st_blksize = 4096,
                   st_nlink = nlink, st_size = sz, st_blocks = blocks_of sz, st_ctim = create, st_mtim = modified\<rparr>)"


section \<open>The listing's invariant and contents\<close>

text \<open>Every entry's name starts and ends in the used part of the pool; an entry is shown with it.\<close>

definition name_ends :: "bytes \<Rightarrow> afp_dirent \<Rightarrow> bool" where
  "name_ends used e \<longleftrightarrow> 0 \<in> set (drop (de_name_off e) used)"

definition wf_listing :: "afp_listing \<Rightarrow> bool" where
  "wf_listing l \<longleftrightarrow> ls_count l \<le> length (ls_entries l) \<and> ls_pool_used l \<le> length (ls_pool l) \<and>
     length (ls_pool l) \<le> UINT32_MAX \<and> length (ls_entries l) \<le> UINT32_MAX div sizeof_dirent \<and>
     (\<forall>e \<in> set (take (ls_count l) (ls_entries l)). name_ends (take (ls_pool_used l) (ls_pool l)) e)"

definition named :: "bytes \<Rightarrow> afp_dirent \<Rightarrow> afp_dirent \<times> bytes" where
  "named used e = (e, cstr (drop (de_name_off e) used))"

definition listed :: "afp_listing \<Rightarrow> (afp_dirent \<times> bytes) list" where
  "listed l = map (named (take (ls_pool_used l) (ls_pool l))) (take (ls_count l) (ls_entries l))"

lemma cstr_append: "0 \<in> set a \<Longrightarrow> cstr (a @ b) = cstr a"
  by (auto simp: cstr_def takeWhile_append1)

lemma name_ends_append:
  "name_ends used e \<Longrightarrow> name_ends (used @ r) e \<and> named (used @ r) e = named used e"
  by (auto simp: name_ends_def named_def cstr_append)

lemma name_ends_pool:
  "name_ends (take n pool) e \<Longrightarrow>
    pool_string pool (de_name_off e) = Some (cstr (drop (de_name_off e) (take n pool)))"
  using name_ends_append [of "take n pool" e "drop n pool"]
  by (simp add: pool_string_def name_ends_def named_def)

lemma wf_empty_listing [simp]: "wf_listing empty_listing" "listed empty_listing = []"
  by (simp_all add: wf_listing_def empty_listing_def listed_def)

section \<open>Growing\<close>

lemma grown_array_Some:
  "grown_array malloc_ok cap need elem least = Some n \<Longrightarrow> need \<le> n \<and> n \<le> UINT32_MAX div elem"
  by (auto simp: grown_array_def Let_def split: if_splits)

lemma resized_grow: "length xs \<le> n \<Longrightarrow> resized x n xs = xs @ replicate (n - length xs) x"
  by (simp add: resized_def)

definition same_contents :: "afp_listing \<Rightarrow> afp_listing \<Rightarrow> bool" where
  "same_contents l l' \<longleftrightarrow> wf_listing l' \<and> listed l' = listed l \<and> ls_count l' = ls_count l \<and>
     ls_pool_used l' = ls_pool_used l \<and>
     take (ls_pool_used l) (ls_pool l') = take (ls_pool_used l) (ls_pool l)"

lemma same_contents_refl: "wf_listing l \<Longrightarrow> same_contents l l"
  by (simp add: same_contents_def)

lemma same_contents_trans: "same_contents l l' \<Longrightarrow> same_contents l' l'' \<Longrightarrow> same_contents l l''"
  by (simp add: same_contents_def)

lemma reserve_entries_keeps:
  assumes "wf_listing l" "reserve_entries malloc_ok n l = Some l'"
  shows "same_contents l l' \<and> ls_count l + n \<le> length (ls_entries l')"
proof (cases "ls_count l + n > length (ls_entries l)")
  case True
  then obtain c where c: "grown_array malloc_ok (length (ls_entries l)) (ls_count l + n) sizeof_dirent AFP_LISTING_MIN_ENTRIES = Some c"
    and l': "l' = l\<lparr>ls_entries := resized no_entry c (ls_entries l)\<rparr>"
    using assms(2) by (auto simp: reserve_entries_def)
  note b = grown_array_Some [OF c]
  then have "resized no_entry c (ls_entries l) = ls_entries l @ replicate (c - length (ls_entries l)) no_entry"
    using True by (intro resized_grow) simp
  then show ?thesis using assms(1) b l' True by (simp add: same_contents_def wf_listing_def listed_def)
next
  case False
  then show ?thesis using assms by (auto simp: reserve_entries_def same_contents_refl)
qed

lemma reserve_pool_keeps:
  assumes "wf_listing l" "reserve_pool malloc_ok n l = Some l'"
  shows "same_contents l l' \<and> ls_entries l' = ls_entries l \<and> ls_pool_used l + n \<le> length (ls_pool l')"
proof (cases "ls_pool_used l + n > length (ls_pool l)")
  case True
  then obtain c where c: "grown_array malloc_ok (length (ls_pool l)) (ls_pool_used l + n) 1 0 = Some c"
    and l': "l' = l\<lparr>ls_pool := resized 0 c (ls_pool l)\<rparr>"
    using assms(2) by (auto simp: reserve_pool_def)
  note b = grown_array_Some [OF c]
  then have "resized 0 c (ls_pool l) = ls_pool l @ replicate (c - length (ls_pool l)) 0"
    using True by (intro resized_grow) simp
  then show ?thesis using assms(1) b l' True by (simp add: same_contents_def wf_listing_def listed_def)
next
  case False
  then show ?thesis using assms by (auto simp: reserve_pool_def same_contents_refl)
qed

lemma listing_reserve_keeps:
  assumes "wf_listing l" "listing_reserve malloc_ok n k l = (r, l')"
  shows "same_contents l l'" "r \<in> {0, - ENOMEM}"
    "r = 0 \<Longrightarrow> ls_count l' + n \<le> length (ls_entries l') \<and> ls_pool_used l' + k \<le> length (ls_pool l')"
proof -
  have "same_contents l l' \<and> r \<in> {0, - ENOMEM} \<and>
    (r = 0 \<longrightarrow> ls_count l' + n \<le> length (ls_entries l') \<and> ls_pool_used l' + k \<le> length (ls_pool l'))"
  proof (cases "reserve_entries malloc_ok n l")
    case None
    then show ?thesis using assms by (auto simp: listing_reserve_def same_contents_refl)
  next
    case (Some l1)
    note e = reserve_entries_keeps [OF assms(1) Some]
    then have w: "wf_listing l1" by (simp add: same_contents_def)
    show ?thesis
    proof (cases "reserve_pool malloc_ok k l1")
      case None
      then show ?thesis using assms(2) Some e by (auto simp: listing_reserve_def)
    next
      case (Some l2)
      then have "l2 = l'" "r = 0" using assms(2) \<open>reserve_entries malloc_ok n l = Some l1\<close>
        by (auto simp: listing_reserve_def)
      then show ?thesis
        using reserve_pool_keeps [OF w Some] e same_contents_trans [of l l1 l']
        by (auto simp: same_contents_def)
    qed
  qed
  then show "same_contents l l'" "r \<in> {0, - ENOMEM}"
    "r = 0 \<Longrightarrow> ls_count l' + n \<le> length (ls_entries l') \<and> ls_pool_used l' + k \<le> length (ls_pool l')"
    by blast+
qed


section \<open>Adding a record\<close>

lemma cstr_terminated: "\<exists>r. name @ [0 :: byte] = cstr name @ 0 # r"
proof -
  have "name @ [0] = cstr name @ dropWhile (\<lambda>b. b \<noteq> 0) (name @ [0])"
    using takeWhile_dropWhile_id [of "\<lambda>b. b \<noteq> 0" "name @ [0]"] by (simp add: cstr_def takeWhile_tail)
  moreover obtain r where "dropWhile (\<lambda>b. b \<noteq> 0) (name @ [0]) = 0 # r"
    by (cases "dropWhile (\<lambda>b. b \<noteq> 0) (name @ [0])") (use hd_dropWhile [of "\<lambda>b. b \<noteq> 0" "name @ [0]"] in \<open>auto simp: dropWhile_eq_Nil_conv\<close>)
  ultimately show ?thesis by metis
qed

text \<open>The pool behind its used part after a record's name is put there.\<close>

lemma pool_after_put:
  assumes "u + length name + 1 \<le> length pool"
  shows "pool_string (write_at pool u (name @ [0])) u = Some (cstr name)"
    "take (u + length (cstr name) + 1) (write_at pool u (name @ [0])) = take u pool @ cstr name @ [0]"
proof -
  obtain r where r: "name @ [0 :: byte] = cstr name @ 0 # r" using cstr_terminated by blast
  have w: "write_at pool u (name @ [0]) = take u pool @ (cstr name @ [0]) @ r @ drop (u + length name + 1) pool"
  proof -
    have "length (cstr name) + length r = length name" using arg_cong [OF r, of length] by simp
    then show ?thesis unfolding r write_at_def by (simp add: add.assoc)
  qed
  then show "pool_string (write_at pool u (name @ [0])) u = Some (cstr name)"
    using assms by (simp add: pool_string_def)
  show "take (u + length (cstr name) + 1) (write_at pool u (name @ [0])) = take u pool @ cstr name @ [0]"
    unfolding w using assms by simp
qed

lemma put_commit:
  assumes wf: "wf_listing l" and room: "ls_count l < length (ls_entries l)"
    "ls_pool_used l + length name + 1 \<le> length (ls_pool l)"
  shows "\<exists>l'. Option.bind (put_record e name l) listing_commit = Some l' \<and> wf_listing l' \<and>
    listed l' = listed l @ [(e\<lparr>de_name_off := ls_pool_used l\<rparr>, cstr name)]"
proof -
  let ?n = "ls_count l" and ?u = "ls_pool_used l" and ?p = "ls_pool l"
  let ?e = "e\<lparr>de_name_off := ?u\<rparr>" and ?q = "write_at ?p ?u (name @ [0])" and ?v = "?u + length (cstr name) + 1"
  let ?l' = "l\<lparr>ls_entries := (ls_entries l)[?n := ?e], ls_pool := ?q, ls_count := ?n + 1, ls_pool_used := ?v\<rparr>"
  note pool = pool_after_put [OF room(2)]
  have v: "?v \<le> length ?p" using room(2) length_cstr [of name] by linarith
  then have "u32 ?v = ?v" using wf by (auto simp: wf_listing_def)
  then have c: "Option.bind (put_record e name l) listing_commit = Some ?l'"
    using room pool(1) by (simp add: put_record_def listing_commit_def)
  have t: "take (?n + 1) ((ls_entries l)[?n := ?e]) = take ?n (ls_entries l) @ [?e]"
    using room(1) by (simp add: take_Suc_conv_app_nth)
  have used: "take ?v ?q = take ?u ?p @ (cstr name @ [0])" using pool(2) by simp
  have ul: "length (take ?u ?p) = ?u" using room(2) by simp
  have new: "name_ends (take ?v ?q) ?e" "named (take ?v ?q) ?e = (?e, cstr name)"
    unfolding used using ul by (simp_all add: name_ends_def named_def)
  have old: "name_ends (take ?v ?q) x \<and> named (take ?v ?q) x = named (take ?u ?p) x"
    if "x \<in> set (take ?n (ls_entries l))" for x
    unfolding used using that wf by (intro name_ends_append) (simp add: wf_listing_def)
  have "listed ?l' = listed l @ [(?e, cstr name)]" using old new(2) t by (simp add: listed_def)
  moreover have "wf_listing ?l'"
    using wf old new(1) t v room by (auto simp: wf_listing_def)
  ultimately show ?thesis using c by blast
qed

lemma put_commit_prefix:
  assumes "wf_listing l" "Option.bind (put_record e name l) listing_commit = Some l'"
  shows "ls_pool_used l \<le> ls_pool_used l' \<and> take (ls_pool_used l) (ls_pool l') = take (ls_pool_used l) (ls_pool l)"
proof -
  from assms(2) have room: "ls_pool_used l + length name + 1 \<le> length (ls_pool l)"
    by (auto simp: put_record_def split: if_splits)
  then have "ls_pool_used l + length (cstr name) + 1 \<le> UINT32_MAX"
    using assms(1) length_cstr [of name] by (simp add: wf_listing_def)
  then show ?thesis
    using assms(2) room pool_after_put(1) [OF room]
    by (auto simp: put_record_def listing_commit_def buf_simps split: if_splits)
qed

lemma listing_append_keeps:
  assumes "wf_listing l" "e \<in> set (take (ls_count l) (ls_entries l))"
  shows "\<exists>r l'. listing_append malloc_ok l e suff kind sz = Some (r, l') \<and> wf_listing l' \<and>
    (r = - ENOMEM \<and> listed l' = listed l \<or>
     r = 0 \<and> listed l' = listed l @
       [(e\<lparr>de_kind := u8 kind, de_size := sz, de_name_off := ls_pool_used l\<rparr>,
         snd (named (take (ls_pool_used l) (ls_pool l)) e) @ cstr suff)])"
proof -
  define name where "name = snd (named (take (ls_pool_used l) (ls_pool l)) e)"
  have "name_ends (take (ls_pool_used l) (ls_pool l)) e" using assms by (simp add: wf_listing_def)
  then have n: "dirent_name l e = Some name"
    by (simp add: dirent_name_def name_def named_def name_ends_pool)
  obtain r l1 where r: "listing_reserve malloc_ok 1 (length name + length suff + 1) l = (r, l1)" by fastforce
  note k = listing_reserve_keeps [OF assms(1) r]
  then have w: "wf_listing l1" "listed l1 = listed l" "ls_pool_used l1 = ls_pool_used l"
    by (auto simp: same_contents_def)
  show ?thesis
  proof (cases "r = 0")
    case False
    then show ?thesis using n r k(2) w by (simp add: listing_append_def)
  next
    case True
    let ?e = "e\<lparr>de_kind := u8 kind, de_size := sz\<rparr>"
    from k(3) [OF True] have room: "ls_count l1 < length (ls_entries l1)"
      "ls_pool_used l1 + length (name @ suff) + 1 \<le> length (ls_pool l1)" by auto
    obtain l' where l': "Option.bind (put_record ?e (name @ suff) l1) listing_commit = Some l'" "wf_listing l'"
      "listed l' = listed l1 @ [(?e\<lparr>de_name_off := ls_pool_used l1\<rparr>, cstr (name @ suff))]"
      using put_commit [OF w(1) room] by blast
    have "cstr (name @ suff) = name @ cstr suff"
      using cstr_no_nul [of "drop (de_name_off e) (take (ls_pool_used l) (ls_pool l))"]
      by (auto simp: cstr_def name_def named_def takeWhile_append)
    moreover have "listing_append malloc_ok l e suff kind sz = Some (0, l')"
      using n r l'(1) True by (auto simp: listing_append_def split: option.splits bind_splits)
    ultimately show ?thesis using l' w by (simp add: name_def)
  qed
qed


section \<open>Dropping unnamed entries\<close>

lemma drop_unnamed_loop_result:
  assumes "kept \<le> i" "i + n \<le> length (ls_entries l)"
    "\<forall>e \<in> set (take n (drop i (ls_entries l))). dirent_name l e \<noteq> None"
  shows "\<exists>es. drop_unnamed_loop n i kept l = Some (l\<lparr>ls_entries := es,
      ls_count := kept + length (filter (\<lambda>e. dirent_name l e \<noteq> Some []) (take n (drop i (ls_entries l))))\<rparr>) \<and>
    length es = length (ls_entries l) \<and>
    take (kept + length (filter (\<lambda>e. dirent_name l e \<noteq> Some []) (take n (drop i (ls_entries l))))) es =
      take kept (ls_entries l) @ filter (\<lambda>e. dirent_name l e \<noteq> Some []) (take n (drop i (ls_entries l)))"
  using assms
proof (induction n arbitrary: i kept l)
  case 0
  then show ?case by (intro exI [of _ "ls_entries l"]) simp
next
  case (Suc n)
  let ?xs = "ls_entries l" and ?P = "\<lambda>e. dirent_name l e \<noteq> Some []"
  let ?F = "filter ?P (take n (drop (Suc i) ?xs))"
  have d: "take (Suc n) (drop i ?xs) = (?xs ! i) # take n (drop (Suc i) ?xs)"
    using Suc.prems(2) by (simp add: Cons_nth_drop_Suc [symmetric])
  obtain name where name: "dirent_name l (?xs ! i) = Some name" using Suc.prems(3) d by fastforce
  show ?case
  proof (cases "name = []")
    case True
    from Suc.IH [of kept "Suc i" l] Suc.prems d show ?thesis using name True by auto
  next
    case False
    let ?l = "l\<lparr>ls_entries := ?xs[kept := ?xs ! i]\<rparr>"
    have dn: "dirent_name ?l = dirent_name l" by (simp add: dirent_name_def fun_eq_iff)
    have dr: "drop (Suc i) (ls_entries ?l) = drop (Suc i) ?xs" using Suc.prems(1) by simp
    have tk: "take (Suc kept) (ls_entries ?l) = take kept ?xs @ [?xs ! i]"
      using Suc.prems(1,2) by (simp add: take_Suc_conv_app_nth)
    from Suc.IH [of "Suc kept" "Suc i" ?l] obtain es where
      "drop_unnamed_loop n (Suc i) (Suc kept) ?l = Some (?l\<lparr>ls_entries := es, ls_count := Suc kept + length ?F\<rparr>)"
      "length es = length ?xs" "take (Suc kept + length ?F) es = take kept ?xs @ (?xs ! i) # ?F"
      using Suc.prems d unfolding dn dr tk by auto
    then show ?thesis using name False d by auto
  qed
qed

lemma listing_drop_unnamed_result:
  assumes "wf_listing l"
  shows "\<exists>l'. listing_drop_unnamed l = Some l' \<and> wf_listing l' \<and> listed l' = filter (\<lambda>(e, n). n \<noteq> []) (listed l)"
proof -
  let ?xs = "take (ls_count l) (ls_entries l)" and ?u = "take (ls_pool_used l) (ls_pool l)"
  have dn: "dirent_name l e = Some (snd (named ?u e))" if "e \<in> set ?xs" for e
    using that assms by (simp add: dirent_name_def named_def name_ends_pool wf_listing_def)
  have F: "filter (\<lambda>e. dirent_name l e \<noteq> Some []) ?xs = filter (\<lambda>e. snd (named ?u e) \<noteq> []) ?xs"
    using dn by (auto intro: filter_cong)
  let ?F = "filter (\<lambda>e. snd (named ?u e) \<noteq> []) ?xs"
  have "\<exists>es. listing_drop_unnamed l = Some (l\<lparr>ls_entries := es, ls_count := length ?F\<rparr>) \<and>
      length es = length (ls_entries l) \<and> take (length ?F) es = ?F"
    using drop_unnamed_loop_result [of 0 0 "ls_count l" l] assms dn F
    by (auto simp: listing_drop_unnamed_def wf_listing_def)
  then obtain es where es: "listing_drop_unnamed l = Some (l\<lparr>ls_entries := es, ls_count := length ?F\<rparr>)"
    "length es = length (ls_entries l)" "take (length ?F) es = ?F" by blast
  have "length ?F \<le> ls_count l" by (rule order_trans [OF length_filter_le]) simp
  then show ?thesis
    using es assms by (auto simp: wf_listing_def listed_def filter_map o_def named_def)
qed


section \<open>Properties\<close>

text \<open>Appending to a listing keeps what it holds. \<open>afp_listing_append\<close> adds one entry at the
  end, a copy of the given one under its name with the suffix, or fails with \<open>-ENOMEM\<close>; the other
  entries and their names are the same although both arrays may move, and no access leaves them.\<close>
theorem listing_append_adds_one:
  assumes "wf_listing l" "i < ls_count l" "0 \<notin> set suff"
  shows "\<exists>r l'. listing_append malloc_ok l (ls_entries l ! i) suff kind sz = Some (r, l') \<and> wf_listing l' \<and>
    listed l' = listed l @ (if r = 0 then
      [((ls_entries l ! i)\<lparr>de_kind := u8 kind, de_size := sz, de_name_off := ls_pool_used l\<rparr>,
        snd (listed l ! i) @ suff)] else [])"
proof -
  have i: "i < length (take (ls_count l) (ls_entries l))" using assms(1,2) by (simp add: wf_listing_def)
  have s: "cstr suff = suff" using assms(3) by (auto simp: cstr_def takeWhile_eq_all_conv)
  have n: "snd (named (take (ls_pool_used l) (ls_pool l)) (ls_entries l ! i)) = snd (listed l ! i)"
    using i assms(2) by (simp add: listed_def)
  have "ls_entries l ! i \<in> set (take (ls_count l) (ls_entries l))"
    using nth_mem [OF i] assms(2) by simp
  from listing_append_keeps [OF assms(1) this, of malloc_ok suff kind sz] show ?thesis
    unfolding s n by fastforce
qed

definition two_files :: afp_listing where
  "two_files = \<lparr>ls_entries = [no_entry, no_entry\<lparr>de_name_off := 2\<rparr>, no_entry], ls_count = 2,
     ls_pool = [0x61, 0, 0, 9], ls_pool_used = 3\<rparr>"

lemma wf_two_files: "wf_listing two_files"
  by (simp add: two_files_def wf_listing_def name_ends_def no_entry_def)

theorem listing_append_adds_one_witness:
  "\<exists>r l'. listing_append (\<lambda>_. True) two_files (ls_entries two_files ! 0) [0x2e] 3 7 = Some (r, l') \<and> wf_listing l'"
proof -
  have "0 < ls_count two_files" by (simp add: two_files_def)
  then show ?thesis using listing_append_adds_one [OF wf_two_files, of 0 "[0x2e]" "\<lambda>_. True" 3 7] by auto
qed

text \<open>Dropping unnamed entries is a filter. \<open>afp_listing_drop_unnamed\<close>, which moves entries down
  in place, leaves exactly the entries with a name, in their order.\<close>
theorem drop_unnamed_is_filter:
  assumes "wf_listing l"
  shows "\<exists>l'. listing_drop_unnamed l = Some l' \<and> wf_listing l' \<and>
    listed l' = filter (\<lambda>(e, n). n \<noteq> []) (listed l)"
  by (rule listing_drop_unnamed_result [OF assms])

theorem drop_unnamed_is_filter_witness:
  "\<exists>l'. listing_drop_unnamed two_files = Some l' \<and> length (listed l') = 1"
proof -
  have "filter (\<lambda>(e, n). n \<noteq> []) (listed two_files) = [(no_entry, [0x61])]"
    by (simp add: listed_def two_files_def named_def cstr_def no_entry_def)
  then show ?thesis using drop_unnamed_is_filter [OF wf_two_files] by fastforce
qed

text \<open>the times of the \<open>stat\<close> form are exact. For every date, also one before 1970, the seconds
  and nanoseconds of \<open>afp_dirent_time\<close> are normal and add up to it.\<close>
theorem dirent_time_exact:
  assumes "has_bit (de_valid e) b" "dirent_time v e b ns = (sec, nsec)"
  shows "sec * AFP_NS_PER_SEC + nsec = ns \<and> 0 \<le> nsec \<and> nsec < AFP_NS_PER_SEC"
proof (cases "0 \<le> ns")
  case True
  then have "sec = ns div AFP_NS_PER_SEC" "nsec = ns mod AFP_NS_PER_SEC"
    using assms by (auto simp: dirent_time_def afp_sec_from_ns_def Let_def sgn_if split: if_splits)
  then show ?thesis by simp
next
  case False
  then have "(sec, nsec) = (if 0 < (- ns) mod AFP_NS_PER_SEC
      then (- ((- ns) div AFP_NS_PER_SEC) - 1, AFP_NS_PER_SEC - (- ns) mod AFP_NS_PER_SEC)
      else (- ((- ns) div AFP_NS_PER_SEC), 0))"
    using assms pos_mod_sign [of AFP_NS_PER_SEC "- ns"]
    by (auto simp: dirent_time_def afp_sec_from_ns_def Let_def sgn_if split: if_splits)
  moreover define q m where "q = (- ns) div AFP_NS_PER_SEC" and "m = (- ns) mod AFP_NS_PER_SEC"
  ultimately have "(sec, nsec) = (if 0 < m then (- q - 1, AFP_NS_PER_SEC - m) else (- q, 0))" by simp
  moreover have "- ns = q * AFP_NS_PER_SEC + m" "0 \<le> m" "m < AFP_NS_PER_SEC" unfolding q_def m_def by simp_all
  ultimately show ?thesis by (auto split: if_splits)
qed

theorem dirent_time_exact_witness:
  "dirent_time \<lparr>vi_mapping = 1, vi_pw_uid = 0, vi_pw_gid = 0, vi_server_uid = 0, vi_server_gid = None, vi_connect_time = 0\<rparr>
     (no_entry\<lparr>de_valid := 4\<rparr>) 4 (- 1) = (- 1, 999999999) \<and>
   (- 1) * 1000000000 + 999999999 = (- 1 :: int)"
proof -
  let ?v = "\<lparr>vi_mapping = 1, vi_pw_uid = 0, vi_pw_gid = 0, vi_server_uid = 0, vi_server_gid = None, vi_connect_time = 0\<rparr>"
  have b: "has_bit (de_valid (no_entry\<lparr>de_valid := 4\<rparr>)) 4" by (simp add: has_bit_def)
  have t: "dirent_time ?v (no_entry\<lparr>de_valid := 4\<rparr>) 4 (- 1) = (- 1, 999999999)"
    using b by (simp add: dirent_time_def afp_sec_from_ns_def)
  show ?thesis using dirent_time_exact [OF b t] t by simp
qed

end
