(* ===== verification/Afp_Requests.thy ===== *)
theory Afp_Requests
  imports Dsi_Send Listing
begin

text \<open>
  The commands of \<open>lib/proto_directory.c\<close>, \<open>lib/proto_files.c\<close>, \<open>lib/proto_fork.c\<close>,
  \<open>lib/proto_volume.c\<close>, \<open>lib/proto_map.c\<close>, \<open>lib/proto_server.c\<close> and \<open>lib/proto_session.c\<close>: each
  builds a frame in a buffer of its own, with a header under the session's next identifier, and
  sends it.  A command is refused before it takes an identifier when it gets no memory; \<open>Overflow\<close>
  is a write past its buffer.
\<close>

unbundle bit_operations_syntax

section \<open>Volumes and built commands\<close>

record afp_volume =
  vol_volid :: nat
  vol_flags :: nat
  vol_attributes :: nat
  vol_signature :: nat
  vol_creation_date :: int
  vol_modification_date :: int
  vol_backup_date :: int
  vol_bfree :: nat
  vol_blocks :: nat
  vol_bsize :: nat
  vol_name :: bytes
  vol_name_printable :: bytes
  vol_path_encoding :: nat
  vol_dtrefnum :: nat
  vol_no_desktop :: bool
  vol_extra_flags :: nat

datatype 'o built = Refuse int | Overflow | Send bytes int nat "'o afp_server"

text \<open>A path of \<open>copy_path\<close> and \<open>unixpath_to_afppath\<close> at an offset of a message; \<^term>\<open>None\<close> is a
  null path.\<close>

definition put_path :: "nat \<Rightarrow> bytes \<Rightarrow> nat \<Rightarrow> bytes option \<Rightarrow> bytes option" where
  "put_path encoding msg off path =
     (let len = (case path of None \<Rightarrow> 0 | Some p \<Rightarrow> length p) in
      if off > length msg then None
      else map_option (\<lambda>r. take off msg @ r)
        (Option.bind (copy_path encoding (drop off msg) path len) (unixpath_to_afppath encoding)))"

fun put_paths :: "nat \<Rightarrow> bytes \<Rightarrow> nat \<Rightarrow> bytes option list \<Rightarrow> bytes option" where
  "put_paths encoding msg off [] = Some msg"
| "put_paths encoding msg off (p # ps) =
     (case put_path encoding msg off p of
        None \<Rightarrow> None
      | Some msg' \<Rightarrow>
          put_paths encoding msg'
            (off + sizeof_path_header encoding + (case p of None \<Rightarrow> 0 | Some q \<Rightarrow> length q)) ps)"

text \<open>A message of \<open>len\<close> bytes: a fixed part and paths behind it.\<close>

definition path_message :: "nat \<Rightarrow> nat \<Rightarrow> bytes \<Rightarrow> bytes option list \<Rightarrow> bytes option" where
  "path_message encoding len fixed paths =
     (if length fixed > len then None
      else put_paths encoding (fixed @ replicate (len - length fixed) 0) (length fixed) paths)"

definition path_command ::
  "(nat \<Rightarrow> bool) \<Rightarrow> nat \<Rightarrow> nat \<Rightarrow> bytes \<Rightarrow> bytes option list \<Rightarrow> int \<Rightarrow> nat \<Rightarrow> 'o afp_server \<Rightarrow> 'o built" where
  "path_command malloc_ok encoding len body paths wait sub srv =
     (if \<not> malloc_ok len then Refuse (-1)
      else case setup_header srv DSI_DSICommand of
        (h, s) \<Rightarrow>
          (case path_message encoding len (encode_header h @ body) paths of
             None \<Rightarrow> Overflow
           | Some msg \<Rightarrow> Send msg wait sub s))"

text \<open>A command in a struct on the stack.\<close>

definition plain_command :: "bytes \<Rightarrow> int \<Rightarrow> nat \<Rightarrow> 'o afp_server \<Rightarrow> 'o built" where
  "plain_command body wait sub srv =
     (case setup_header srv DSI_DSICommand of (h, s) \<Rightarrow> Send (encode_header h @ body) wait sub s)"

definition perform :: "'o send_env \<Rightarrow> 'o afp_server \<Rightarrow> 'o dest \<Rightarrow> 'o built \<Rightarrow> 'o send_outcome option" where
  "perform env srv oth b =
     (case b of
        Refuse rc \<Rightarrow> Some (rc, oth, None, srv)
      | Overflow \<Rightarrow> None
      | Send msg wait sub s \<Rightarrow> dsi_send env s msg wait sub oth)"

section \<open>Directories\<close>

abbreviation (input) DSI_OPENVOLUME_TIMEOUT :: int where "DSI_OPENVOLUME_TIMEOUT \<equiv> 20"
abbreviation (input) AFP_ENUMERATE_MAX_REPLY_SIZE :: nat where "AFP_ENUMERATE_MAX_REPLY_SIZE \<equiv> 32767"
abbreviation (input) AFP_ENUMERATE_REPLY_HEADER_BYTES :: nat where "AFP_ENUMERATE_REPLY_HEADER_BYTES \<equiv> 6"
abbreviation (input) AFP_ENUMERATE_BYTES_PER_SECOND :: nat where "AFP_ENUMERATE_BYTES_PER_SECOND \<equiv> 6553"
abbreviation (input) AFP_MAX_UTF8_PATH_STORAGE :: nat where "AFP_MAX_UTF8_PATH_STORAGE \<equiv> 65536"

definition enumerate_max_payload :: "'o afp_server \<Rightarrow> nat" where
  "enumerate_max_payload srv =
     (let reserved = DSI_HEADER_SIZE + AFP_ENUMERATE_REPLY_HEADER_BYTES in
      if srv_bufsize srv \<le> reserved then 0 else srv_bufsize srv - reserved)"

definition enumerate_max_reply_size :: "'o afp_server \<Rightarrow> nat" where
  "enumerate_max_reply_size srv = min AFP_ENUMERATE_MAX_REPLY_SIZE (enumerate_max_payload srv)"

definition path_len :: "afp_volume \<Rightarrow> bytes \<Rightarrow> nat" where
  "path_len v p = sizeof_path_header (vol_path_encoding v) + length p"

definition afp_exchangefiles ::
  "(nat \<Rightarrow> bool) \<Rightarrow> afp_volume \<Rightarrow> nat \<Rightarrow> nat \<Rightarrow> bytes option \<Rightarrow> bytes option \<Rightarrow> 'o afp_server \<Rightarrow> 'o built" where
  "afp_exchangefiles malloc_ok v src_did dst_did src_path dst_path srv =
     (let strn = map_option (take AFP_MAX_UTF8_PATH_STORAGE);
          len_of = (\<lambda>p. case strn p of None \<Rightarrow> 0 | Some q \<Rightarrow> length q);
          len = 28 + 2 * sizeof_path_header (vol_path_encoding v) + len_of src_path + len_of dst_path
      in path_command malloc_ok (vol_path_encoding v) len
           (42 # 0 # be_bytes 2 (vol_volid v) @ be_bytes 4 src_did @ be_bytes 4 dst_did)
           [strn src_path, strn dst_path] DSI_DEFAULT_TIMEOUT 42 srv)"

definition afp_moveandrename ::
  "(nat \<Rightarrow> bool) \<Rightarrow> afp_volume \<Rightarrow> nat \<Rightarrow> nat \<Rightarrow> bytes option \<Rightarrow> bytes option \<Rightarrow> bytes option
     \<Rightarrow> 'o afp_server \<Rightarrow> 'o built" where
  "afp_moveandrename malloc_ok v src_did dst_did src_path dst_path0 new_name srv =
     (let dst_path = (case dst_path0 of None \<Rightarrow> [] | Some p \<Rightarrow> p);
          len_of = (\<lambda>p. case p of None \<Rightarrow> 0 | Some q \<Rightarrow> length q);
          len = 28 + 3 * sizeof_path_header (vol_path_encoding v) + length dst_path + len_of src_path + len_of new_name
      in path_command malloc_ok (vol_path_encoding v) len
           (23 # 0 # be_bytes 2 (vol_volid v) @ be_bytes 4 src_did @ be_bytes 4 dst_did)
           [src_path, Some dst_path, new_name] DSI_DEFAULT_TIMEOUT 23 srv)"

definition afp_rename ::
  "(nat \<Rightarrow> bool) \<Rightarrow> afp_volume \<Rightarrow> nat \<Rightarrow> bytes \<Rightarrow> bytes \<Rightarrow> 'o afp_server \<Rightarrow> 'o built" where
  "afp_rename malloc_ok v dirid path_from path_to srv =
     path_command malloc_ok (vol_path_encoding v) (u32 (24 + path_len v path_from + path_len v path_to))
       (28 # 0 # be_bytes 2 (vol_volid v) @ be_bytes 4 dirid)
       [Some path_from, Some path_to] DSI_DEFAULT_TIMEOUT 28 srv"

definition afp_createdir :: "(nat \<Rightarrow> bool) \<Rightarrow> afp_volume \<Rightarrow> nat \<Rightarrow> bytes \<Rightarrow> 'o afp_server \<Rightarrow> 'o built" where
  "afp_createdir malloc_ok v dirid pathname srv =
     path_command malloc_ok (vol_path_encoding v) (u32 (24 + path_len v pathname))
       (6 # 0 # be_bytes 2 (vol_volid v) @ be_bytes 4 dirid) [Some pathname] DSI_DEFAULT_TIMEOUT 6 srv"

definition afp_enumerate ::
  "(nat \<Rightarrow> bool) \<Rightarrow> afp_volume \<Rightarrow> nat \<Rightarrow> nat \<Rightarrow> nat \<Rightarrow> nat \<Rightarrow> nat \<Rightarrow> bytes \<Rightarrow> 'o afp_server \<Rightarrow> 'o built" where
  "afp_enumerate malloc_ok v dirid filebitmap dirbitmap reqcount startindex pathname srv =
     path_command malloc_ok (vol_path_encoding v) (u16 (path_len v pathname + 34))
       (9 # 0 # be_bytes 2 (vol_volid v) @ be_bytes 4 dirid @ be_bytes 2 filebitmap @ be_bytes 2 dirbitmap @
        be_bytes 2 reqcount @ be_bytes 2 startindex @ be_bytes 2 (enumerate_max_reply_size srv))
       [Some pathname] DSI_DEFAULT_TIMEOUT 9 srv"

definition afp_enumerateext ::
  "(nat \<Rightarrow> bool) \<Rightarrow> afp_volume \<Rightarrow> nat \<Rightarrow> nat \<Rightarrow> nat \<Rightarrow> nat \<Rightarrow> nat \<Rightarrow> bytes \<Rightarrow> 'o afp_server \<Rightarrow> 'o built" where
  "afp_enumerateext malloc_ok v dirid filebitmap dirbitmap reqcount startindex pathname srv =
     path_command malloc_ok (vol_path_encoding v) (u16 (path_len v pathname + 34))
       (66 # 0 # be_bytes 2 (vol_volid v) @ be_bytes 4 dirid @ be_bytes 2 filebitmap @ be_bytes 2 dirbitmap @
        be_bytes 2 reqcount @ be_bytes 2 startindex @ be_bytes 2 (enumerate_max_reply_size srv))
       [Some pathname] DSI_DEFAULT_TIMEOUT 66 srv"

definition afp_enumerateext2 ::
  "(nat \<Rightarrow> bool) \<Rightarrow> afp_volume \<Rightarrow> nat \<Rightarrow> nat \<Rightarrow> nat \<Rightarrow> nat \<Rightarrow> nat \<Rightarrow> bytes \<Rightarrow> 'o afp_server \<Rightarrow> 'o built" where
  "afp_enumerateext2 malloc_ok v dirid filebitmap dirbitmap reqcount startindex pathname srv =
     (let payload = enumerate_max_payload srv in
      path_command malloc_ok (vol_path_encoding v) (u16 (path_len v pathname + 38))
        (68 # 0 # be_bytes 2 (vol_volid v) @ be_bytes 4 dirid @ be_bytes 2 filebitmap @ be_bytes 2 dirbitmap @
         be_bytes 2 reqcount @ be_bytes 4 startindex @ be_bytes 4 payload)
        [Some pathname] (transfer_wait srv payload AFP_ENUMERATE_BYTES_PER_SECOND) 68 srv)"


section \<open>Files\<close>

abbreviation (input) AFP_READ_BYTES_PER_SECOND :: nat where "AFP_READ_BYTES_PER_SECOND \<equiv> 32768"

definition put_word :: "nat \<Rightarrow> bytes" where
  "put_word value = be_bytes 4 value"

text \<open>The parameters a bitmap sets, in the order of their bits.\<close>

definition set_params_values :: "afp_session \<Rightarrow> nat \<Rightarrow> afp_dirent \<Rightarrow> bytes" where
  "set_params_values ses bitmap e =
     (let up = de_unixprivs e in
      (if has_bit bitmap kFPAttributeBit then be_bytes 2 (de_attributes e) else []) @
      (if has_bit bitmap kFPCreateDateBit
       then put_word (afp_date_from_unix ses (afp_sec_from_ns (de_create_ns e))) else []) @
      (if has_bit bitmap kFPModDateBit
       then put_word (afp_date_from_unix ses (afp_sec_from_ns (de_mod_ns e))) else []) @
      (if has_bit bitmap kFPFinderInfoBit then de_finderinfo e else []) @
      (if has_bit bitmap kFPOwnerIDBit then put_word (up_uid up) else []) @
      (if has_bit bitmap kFPGroupIDBit then put_word (up_gid up) else []) @
      (if has_bit bitmap kFPUnixPrivsBit
       then put_word (up_uid up) @ put_word (up_gid up) @ put_word (up_permissions up) @ put_word (up_ua_permissions up)
       else []))"

text \<open>The buffer has 201 bytes behind the path, the parameters start on an even byte of it, and the
  frame ends behind them.\<close>

definition set_params ::
  "(nat \<Rightarrow> bool) \<Rightarrow> afp_session \<Rightarrow> afp_volume \<Rightarrow> nat \<Rightarrow> nat \<Rightarrow> bytes \<Rightarrow> nat \<Rightarrow> afp_dirent \<Rightarrow> 'o afp_server \<Rightarrow> 'o built" where
  "set_params malloc_ok ses v command dirid pathname bitmap e srv =
     (let len = u32 (26 + path_len v pathname + 200 + 1); p = 26 + path_len v pathname; q = p + p mod 2;
          values = set_params_values ses bitmap e in
      if \<not> malloc_ok len then Refuse (- ENOMEM)
      else case setup_header srv DSI_DSICommand of
        (h, s) \<Rightarrow>
          (case path_message (vol_path_encoding v) len
                  (encode_header h @ of_nat command # 0 # be_bytes 2 (vol_volid v) @ be_bytes 4 dirid @ be_bytes 2 bitmap)
                  [Some pathname] of
             None \<Rightarrow> Overflow
           | Some msg \<Rightarrow>
               if q + length values > length msg then Overflow
               else Send (take q msg @ values) DSI_DEFAULT_TIMEOUT command s))"

definition afp_setfiledirparms ::
  "(nat \<Rightarrow> bool) \<Rightarrow> afp_session \<Rightarrow> afp_volume \<Rightarrow> nat \<Rightarrow> bytes \<Rightarrow> nat \<Rightarrow> afp_dirent \<Rightarrow> 'o afp_server \<Rightarrow> 'o built" where
  "afp_setfiledirparms malloc_ok ses v dirid pathname bitmap e srv = set_params malloc_ok ses v 35 dirid pathname bitmap e srv"

definition afp_setdirparms ::
  "(nat \<Rightarrow> bool) \<Rightarrow> afp_session \<Rightarrow> afp_volume \<Rightarrow> nat \<Rightarrow> bytes \<Rightarrow> nat \<Rightarrow> afp_dirent \<Rightarrow> 'o afp_server \<Rightarrow> 'o built" where
  "afp_setdirparms malloc_ok ses v dirid pathname bitmap e srv = set_params malloc_ok ses v 29 dirid pathname bitmap e srv"

definition afp_delete :: "(nat \<Rightarrow> bool) \<Rightarrow> afp_volume \<Rightarrow> nat \<Rightarrow> bytes \<Rightarrow> 'o afp_server \<Rightarrow> 'o built" where
  "afp_delete malloc_ok v dirid pathname srv =
     path_command malloc_ok (vol_path_encoding v) (u32 (24 + path_len v pathname))
       (8 # 0 # be_bytes 2 (vol_volid v) @ be_bytes 4 dirid) [Some pathname] DSI_DEFAULT_TIMEOUT 8 srv"

text \<open>The destination directory is an empty path, which has no bytes to convert.\<close>

definition afp_copyfile ::
  "(nat \<Rightarrow> bool) \<Rightarrow> afp_volume \<Rightarrow> nat \<Rightarrow> bytes \<Rightarrow> nat \<Rightarrow> bytes \<Rightarrow> int \<Rightarrow> 'o afp_server \<Rightarrow> 'o built" where
  "afp_copyfile malloc_ok v srcdid srcname dstdid dstname wait srv =
     path_command malloc_ok (vol_path_encoding v)
       (30 + 3 * sizeof_path_header (vol_path_encoding v) + length srcname + length dstname)
       (5 # 0 # be_bytes 2 (vol_volid v) @ be_bytes 4 srcdid @ be_bytes 2 (vol_volid v) @ be_bytes 4 dstdid)
       [Some srcname, Some [], Some dstname] wait 5 srv"

definition afp_read :: "nat \<Rightarrow> nat \<Rightarrow> nat \<Rightarrow> 'o afp_server \<Rightarrow> 'o built" where
  "afp_read forkid offset count srv =
     plain_command (27 # 0 # be_bytes 2 forkid @ be_bytes 4 offset @ be_bytes 4 count @ [0, 0])
       (transfer_wait srv count AFP_READ_BYTES_PER_SECOND) afpRead srv"

definition afp_readext :: "nat \<Rightarrow> nat \<Rightarrow> nat \<Rightarrow> 'o afp_server \<Rightarrow> 'o built" where
  "afp_readext forkid offset count srv =
     plain_command (60 # 0 # be_bytes 2 forkid @ be_bytes 8 offset @ be_bytes 8 count)
       (transfer_wait srv count AFP_READ_BYTES_PER_SECOND) afpReadExt srv"

definition afp_getfiledirparms ::
  "(nat \<Rightarrow> bool) \<Rightarrow> afp_volume \<Rightarrow> nat \<Rightarrow> nat \<Rightarrow> nat \<Rightarrow> bytes option \<Rightarrow> 'o afp_server \<Rightarrow> 'o built" where
  "afp_getfiledirparms malloc_ok v did filebitmap dirbitmap pathname srv =
     (case pathname of
        None \<Rightarrow> Refuse (-1)
      | Some p \<Rightarrow>
          path_command malloc_ok (vol_path_encoding v) (u32 (28 + path_len v p))
            (34 # 0 # be_bytes 2 (vol_volid v) @ be_bytes 4 did @ be_bytes 2 filebitmap @ be_bytes 2 dirbitmap)
            [Some p] DSI_DEFAULT_TIMEOUT 34 srv)"

definition afp_createfile :: "(nat \<Rightarrow> bool) \<Rightarrow> afp_volume \<Rightarrow> nat \<Rightarrow> nat \<Rightarrow> bytes \<Rightarrow> 'o afp_server \<Rightarrow> 'o built" where
  "afp_createfile malloc_ok v flag did pathname srv =
     path_command malloc_ok (vol_path_encoding v) (u32 (24 + path_len v pathname))
       (7 # of_nat flag # be_bytes 2 (vol_volid v) @ be_bytes 4 did) [Some pathname] DSI_DEFAULT_TIMEOUT 7 srv"

text \<open>A write: the data is copied behind the fixed part of the \<open>unsigned int\<close> length's buffer, and the
  header tells where it starts.\<close>

definition write_command ::
  "(nat \<Rightarrow> bool) \<Rightarrow> bytes \<Rightarrow> nat \<Rightarrow> bytes \<Rightarrow> nat \<Rightarrow> 'o afp_server \<Rightarrow> 'o built" where
  "write_command malloc_ok body reqcount data sub srv =
     (let fixed = DSI_HEADER_SIZE + length body; len = u32 (fixed + reqcount) in
      if \<not> malloc_ok len then Refuse (-1)
      else if len < fixed + reqcount \<or> length data < reqcount then Overflow
      else case setup_header srv DSI_DSIWrite of
        (h, s) \<Rightarrow> Send (encode_header (h\<lparr>hdr_error_code := length body\<rparr>) @ body @ take reqcount data)
                    DSI_DEFAULT_TIMEOUT sub s)"

definition afp_write :: "(nat \<Rightarrow> bool) \<Rightarrow> nat \<Rightarrow> nat \<Rightarrow> nat \<Rightarrow> bytes \<Rightarrow> 'o afp_server \<Rightarrow> 'o built" where
  "afp_write malloc_ok forkid offset reqcount data srv =
     write_command malloc_ok (33 # 0 # be_bytes 2 forkid @ be_bytes 4 offset @ be_bytes 4 reqcount) reqcount data 33 srv"

definition afp_writeext :: "(nat \<Rightarrow> bool) \<Rightarrow> nat \<Rightarrow> nat \<Rightarrow> nat \<Rightarrow> bytes \<Rightarrow> 'o afp_server \<Rightarrow> 'o built" where
  "afp_writeext malloc_ok forkid offset reqcount data srv =
     write_command malloc_ok (61 # 0 # be_bytes 2 forkid @ be_bytes 8 offset @ be_bytes 8 reqcount) reqcount data 61 srv"

section \<open>Forks\<close>

definition afp_setforkparms :: "nat \<Rightarrow> nat \<Rightarrow> nat \<Rightarrow> 'o afp_server \<Rightarrow> 'o built" where
  "afp_setforkparms forkid bitmap len srv =
     plain_command (31 # 0 # be_bytes 2 forkid @ be_bytes 2 bitmap @
       (if has_bit bitmap (kFPExtDataForkLenBit OR kFPExtRsrcForkLenBit) then be_bytes 8 len else be_bytes 4 (u32 len)))
       DSI_DEFAULT_TIMEOUT 31 srv"

definition afp_fork_command :: "nat \<Rightarrow> nat \<Rightarrow> int \<Rightarrow> 'o afp_server \<Rightarrow> 'o built" where
  "afp_fork_command command forkid wait srv = plain_command (of_nat command # 0 # be_bytes 2 forkid) wait command srv"

definition afp_closefork :: "nat \<Rightarrow> 'o afp_server \<Rightarrow> 'o built" where
  "afp_closefork forkid srv = afp_fork_command 4 forkid DSI_DEFAULT_TIMEOUT srv"

definition afp_flushfork :: "nat \<Rightarrow> int \<Rightarrow> 'o afp_server \<Rightarrow> 'o built" where
  "afp_flushfork forkid wait srv = afp_fork_command 11 forkid wait srv"

definition afp_syncfork :: "nat \<Rightarrow> int \<Rightarrow> 'o afp_server \<Rightarrow> 'o built" where
  "afp_syncfork forkid wait srv = afp_fork_command 79 forkid wait srv"

definition afp_openfork ::
  "(nat \<Rightarrow> bool) \<Rightarrow> afp_volume \<Rightarrow> nat \<Rightarrow> nat \<Rightarrow> nat \<Rightarrow> nat \<Rightarrow> bytes \<Rightarrow> 'o afp_server \<Rightarrow> 'o built" where
  "afp_openfork malloc_ok v forktype dirid accessmode bitmap filename srv =
     path_command malloc_ok (vol_path_encoding v) (u32 (28 + path_len v filename))
       (26 # (if forktype \<noteq> 0 then 0x80 else 0) # be_bytes 2 (vol_volid v) @ be_bytes 4 dirid @ be_bytes 2 bitmap @
        be_bytes 2 accessmode) [Some filename] DSI_DEFAULT_TIMEOUT 26 srv"

definition afp_byterangelock :: "nat \<Rightarrow> nat \<Rightarrow> nat \<Rightarrow> nat \<Rightarrow> 'o afp_server \<Rightarrow> 'o built" where
  "afp_byterangelock flag forkid offset len srv =
     plain_command (1 # of_nat flag # be_bytes 2 forkid @ be_bytes 4 offset @ be_bytes 4 len) DSI_DEFAULT_TIMEOUT 1 srv"

definition afp_byterangelockext :: "nat \<Rightarrow> nat \<Rightarrow> nat \<Rightarrow> nat \<Rightarrow> 'o afp_server \<Rightarrow> 'o built" where
  "afp_byterangelockext flag forkid offset len srv =
     plain_command (59 # of_nat flag # be_bytes 2 forkid @ be_bytes 8 offset @ be_bytes 8 len) DSI_DEFAULT_TIMEOUT 59 srv"

section \<open>Volumes, users, server and session\<close>

abbreviation (input) AFP_VOLPASS_LEN :: nat where "AFP_VOLPASS_LEN \<equiv> 8"
abbreviation (input) AFP_TOKEN_MAX_LEN :: nat where "AFP_TOKEN_MAX_LEN \<equiv> 256"

definition afp_volclose :: "afp_volume \<Rightarrow> 'o afp_server \<Rightarrow> 'o built" where
  "afp_volclose v srv = plain_command (2 # 0 # be_bytes 2 (vol_volid v)) DSI_DEFAULT_TIMEOUT 2 srv"

text \<open>The volume's name is a C string in its buffer; bytes of the message the name and the password
  leave alone are shown as zeros.\<close>

definition afp_volopen :: "(nat \<Rightarrow> bool) \<Rightarrow> afp_volume \<Rightarrow> nat \<Rightarrow> bytes option \<Rightarrow> 'o afp_server \<Rightarrow> 'o built" where
  "afp_volopen malloc_ok v bitmap password srv =
     (let name = cstr (vol_name v); len0 = 20 + length name + 1;
          len = (case password of None \<Rightarrow> len0
                 | Some _ \<Rightarrow> len0 + AFP_VOLPASS_LEN + (len0 + AFP_VOLPASS_LEN) mod 2)
      in if \<not> malloc_ok len then Refuse (-1)
         else case setup_header srv DSI_DSICommand of
           (h, s) \<Rightarrow>
             (let fixed = encode_header h @ 24 # 0 # be_bytes 2 bitmap in
              case copy_to_pascal (replicate (len - length fixed) 0) name of
                None \<Rightarrow> Overflow
              | Some (_, tail) \<Rightarrow>
                  (case password of
                     None \<Rightarrow> Send (fixed @ tail) DSI_OPENVOLUME_TIMEOUT 24 s
                   | Some pw \<Rightarrow>
                       let pw8 = take AFP_VOLPASS_LEN pw in
                       Send (write_at (fixed @ tail) (len - AFP_VOLPASS_LEN)
                               (pw8 @ replicate (AFP_VOLPASS_LEN - length pw8) 0))
                         DSI_OPENVOLUME_TIMEOUT 24 s)))"

definition afp_getvolparms :: "afp_volume \<Rightarrow> nat \<Rightarrow> 'o afp_server \<Rightarrow> 'o built" where
  "afp_getvolparms v bitmap srv =
     plain_command (17 # 0 # be_bytes 2 (vol_volid v) @ be_bytes 2 bitmap) DSI_DEFAULT_TIMEOUT 17 srv"

definition afp_getuserinfo :: "bool \<Rightarrow> nat \<Rightarrow> nat \<Rightarrow> 'o afp_server \<Rightarrow> 'o built" where
  "afp_getuserinfo thisuser userid bitmap srv =
     plain_command (37 # (if thisuser then 1 else 0) # be_bytes 4 userid @ be_bytes 2 bitmap) DSI_DEFAULT_TIMEOUT 37 srv"

definition afp_mapid :: "nat \<Rightarrow> nat \<Rightarrow> 'o afp_server \<Rightarrow> 'o built" where
  "afp_mapid subfunction ident srv =
     plain_command (21 # of_nat subfunction # be_bytes 4 ident) DSI_DEFAULT_TIMEOUT 21 srv"

definition afp_mapname :: "(nat \<Rightarrow> bool) \<Rightarrow> nat \<Rightarrow> bytes \<Rightarrow> 'o afp_server \<Rightarrow> 'o built" where
  "afp_mapname malloc_ok subfunction name srv =
     (let len = u32 (18 + 1 + length name) in
      if \<not> malloc_ok len then Refuse (-1)
      else case copy_to_pascal (replicate (len - 18) 0x4b) name of
          None \<Rightarrow> Overflow
        | Some (_, tail) \<Rightarrow>
            (case setup_header srv DSI_DSICommand of
               (h, s) \<Rightarrow> Send (encode_header h @ 22 # of_nat subfunction # tail) DSI_DEFAULT_TIMEOUT 22 s))"

definition afp_getsrvrparms :: "'o afp_server \<Rightarrow> 'o built" where
  "afp_getsrvrparms srv = plain_command [16] DSI_DEFAULT_TIMEOUT 16 srv"

definition afp_getsrvrmsg :: "nat \<Rightarrow> bool \<Rightarrow> int \<Rightarrow> 'o afp_server \<Rightarrow> 'o built" where
  "afp_getsrvrmsg messagetype utf8 block srv =
     plain_command (38 # 0 # be_bytes 2 messagetype @ be_bytes 2 (1 OR (if utf8 then 2 else 0))) block 38 srv"

definition afp_zzzzz :: "'o afp_server \<Rightarrow> 'o built" where
  "afp_zzzzz srv = plain_command (122 # 0 # be_bytes 4 0) DSI_DEFAULT_TIMEOUT 122 srv"

record afp_token =
  tok_length :: nat
  tok_data :: bytes

text \<open>\<open>afp_getsessiontoken\<close> uses its buffer without a check of the allocation; the timestamp goes out
  in the byte order of the machine.\<close>

definition afp_getsessiontoken ::
  "(nat \<Rightarrow> bool) \<Rightarrow> (nat \<Rightarrow> bytes) \<Rightarrow> nat \<Rightarrow> nat \<Rightarrow> afp_token \<Rightarrow> 'o afp_server \<Rightarrow> 'o built" where
  "afp_getsessiontoken malloc_ok native typ timestamp token srv =
     (if typ \<notin> {0, 3, 4, 5, 6, 7} then Refuse (-1)
      else if \<not> malloc_ok (24 + AFP_TOKEN_MAX_LEN + 4) then Overflow
      else let datalen = (if typ \<in> {0, 6, 7} then 0 else tok_length token);
               stamp = (if typ \<in> {3, 4} then native timestamp else []) in
        if datalen > length (tok_data token) \<or> length stamp + datalen > AFP_TOKEN_MAX_LEN + 4 then Overflow
        else plain_command (64 # 0 # be_bytes 2 typ @ be_bytes 4 datalen @ stamp @ take datalen (tok_data token))
               DSI_DEFAULT_TIMEOUT 64 srv)"

definition afp_disconnectoldsession ::
  "(nat \<Rightarrow> bool) \<Rightarrow> byte \<Rightarrow> nat \<Rightarrow> afp_token \<Rightarrow> 'o afp_server \<Rightarrow> 'o built" where
  "afp_disconnectoldsession malloc_ok pad typ token srv =
     (if \<not> malloc_ok (24 + AFP_TOKEN_MAX_LEN) then Refuse (-1)
      else if tok_length token > AFP_TOKEN_MAX_LEN then Refuse (-1)
      else if tok_length token > length (tok_data token) then Overflow
      else plain_command (65 # pad # be_bytes 2 typ @ be_bytes 4 (tok_length token) @ take (tok_length token) (tok_data token))
             DSI_DEFAULT_TIMEOUT 65 srv)"


section \<open>Paths on the wire\<close>

definition path_bytes :: "bytes option \<Rightarrow> bytes" where
  "path_bytes p = (case p of None \<Rightarrow> [] | Some q \<Rightarrow> q)"

definition wire_path :: "nat \<Rightarrow> bytes option \<Rightarrow> bytes" where
  "wire_path encoding p =
     (if encoding = kFPUTF8Name then 3 # be_bytes 4 0x08000103 @ be_bytes 2 (length (path_bytes p))
      else [2, of_nat (length (path_bytes p))]) @ map afp_path_byte (path_bytes p)"

definition path_ok :: "nat \<Rightarrow> bytes option \<Rightarrow> bool" where
  "path_ok encoding p \<longleftrightarrow> encoding = kFPUTF8Name \<and> length (path_bytes p) \<le> 65535
     \<or> encoding = kFPLongName \<and> length (path_bytes p) \<le> 255"

definition paths_room :: "nat \<Rightarrow> bytes option list \<Rightarrow> nat" where
  "paths_room encoding ps = sum_list (map (\<lambda>p. sizeof_path_header encoding + length (path_bytes p)) ps)"

lemma copy_path_null: "copy_path encoding dest None 0 = copy_path encoding dest (Some []) 0"
  by (simp add: copy_path_def)

lemma put_path_wire:
  assumes "path_ok encoding p" "off + sizeof_path_header encoding + length (path_bytes p) \<le> length msg"
  shows "put_path encoding msg off p =
    Some (take off msg @ wire_path encoding p @ drop (off + sizeof_path_header encoding + length (path_bytes p)) msg)"
proof -
  let ?q = "path_bytes p"
  have e: "put_path encoding msg off p =
      map_option (\<lambda>r. take off msg @ r)
        (Option.bind (copy_path encoding (drop off msg) (Some ?q) (length ?q)) (unixpath_to_afppath encoding))"
    using assms(2) by (cases p) (simp_all add: put_path_def path_bytes_def copy_path_null)
  from assms(1) consider "encoding = kFPUTF8Name" "length ?q \<le> 65535" | "encoding = kFPLongName" "length ?q \<le> 255"
    by (auto simp: path_ok_def)
  then show ?thesis
  proof cases
    case 1
    then have "7 + length ?q \<le> length (drop off msg)" using assms(2) by (simp add: sizeof_path_header_def)
    note w = path_on_the_wire_utf8 [OF le_refl 1(2) this]
    show ?thesis unfolding e unfolding 1(1) w by (simp add: sizeof_path_header_def wire_path_def add_ac)
  next
    case 2
    then have "2 + length ?q \<le> length (drop off msg)" using assms(2) by (simp add: sizeof_path_header_def)
    note w = path_on_the_wire_long [OF le_refl 2(2) this]
    show ?thesis unfolding e unfolding 2(1) w by (simp add: sizeof_path_header_def wire_path_def add_ac)
  qed
qed

lemma length_wire_path: "path_ok encoding p \<Longrightarrow> length (wire_path encoding p) = sizeof_path_header encoding + length (path_bytes p)"
  by (auto simp: wire_path_def path_ok_def sizeof_path_header_def)

lemma put_paths_wire:
  assumes "\<forall>p \<in> set ps. path_ok encoding p" "length r = paths_room encoding ps"
  shows "put_paths encoding (pre @ r) (length pre) ps = Some (pre @ concat (map (wire_path encoding) ps))"
  using assms
proof (induction ps arbitrary: pre r)
  case Nil
  then show ?case by (simp add: paths_room_def)
next
  case (Cons p ps)
  let ?n = "sizeof_path_header encoding + length (path_bytes p)" and ?w = "wire_path encoding p"
  have ok: "path_ok encoding p" using Cons.prems(1) by simp
  have "?n \<le> length r" using Cons.prems(2) by (simp add: paths_room_def)
  then have p: "put_path encoding (pre @ r) (length pre) p = Some ((pre @ ?w) @ drop ?n r)"
    using put_path_wire [OF ok, of "length pre" "pre @ r"] by simp
  have "put_paths encoding ((pre @ ?w) @ drop ?n r) (length (pre @ ?w)) ps =
      Some ((pre @ ?w) @ concat (map (wire_path encoding) ps))"
    using Cons.prems by (intro Cons.IH) (simp_all add: paths_room_def)
  then show ?case
    using p length_wire_path [OF ok] by (cases p) (simp_all add: path_bytes_def add_ac)
qed

lemma path_command_wire:
  assumes "malloc_ok len" "\<forall>p \<in> set paths. path_ok encoding p" "len = 16 + length body + paths_room encoding paths"
    "setup_header srv DSI_DSICommand = (h, s)"
  shows "path_command malloc_ok encoding len body paths wait sub srv =
    Send (encode_header h @ body @ concat (map (wire_path encoding) paths)) wait sub s"
proof -
  have "path_message encoding len (encode_header h @ body) paths =
      Some ((encode_header h @ body) @ concat (map (wire_path encoding) paths))"
    using put_paths_wire [OF assms(2), of "replicate (len - length (encode_header h @ body)) 0" "encode_header h @ body"] assms(3)
    by (simp add: path_message_def)
  then show ?thesis using assms(1,4) by (simp add: path_command_def)
qed

section \<open>No overflow\<close>

lemma put_path_fits:
  assumes "off + sizeof_path_header encoding + length (path_bytes p) \<le> length msg"
  shows "\<exists>m. put_path encoding msg off p = Some m \<and> length m = length msg"
proof -
  let ?q = "path_bytes p" and ?d = "drop off msg"
  have e: "put_path encoding msg off p =
      map_option (\<lambda>r. take off msg @ r)
        (Option.bind (copy_path encoding ?d (Some ?q) (length ?q)) (unixpath_to_afppath encoding))"
    using assms by (cases p) (simp_all add: put_path_def path_bytes_def copy_path_null)
  show ?thesis
  proof (cases "path_ok encoding p")
    case True
    then show ?thesis using put_path_wire [OF True assms] length_wire_path [OF True] assms by simp
  next
    case False
    consider "encoding = kFPUTF8Name" | "encoding = kFPLongName" | "encoding \<noteq> kFPUTF8Name" "encoding \<noteq> kFPLongName" by blast
    then show ?thesis
    proof cases
      case 1
      then have c: "copy_path encoding ?d (Some ?q) (length ?q) = copy_path encoding ?d (Some (take 65535 ?q)) 65535"
        using False by (auto simp: copy_path_def path_ok_def min_def)
      have l: "65535 \<le> length ?q" using False 1 by (simp add: path_ok_def)
      then have "7 + 65535 \<le> length ?d" using 1 assms by (simp add: sizeof_path_header_def)
      note w = path_on_the_wire_utf8 [OF _ le_refl this, of "take 65535 ?q"]
      show ?thesis unfolding e c unfolding 1 using w l assms 1 by (simp add: sizeof_path_header_def)
    next
      case 2
      then have c: "copy_path encoding ?d (Some ?q) (length ?q) = copy_path encoding ?d (Some (take 255 ?q)) 255"
        using False by (auto simp: copy_path_def path_ok_def min_def)
      have l: "255 \<le> length ?q" using False 2 by (simp add: path_ok_def)
      then have "2 + 255 \<le> length ?d" using 2 assms by (simp add: sizeof_path_header_def)
      note w = path_on_the_wire_long [OF _ le_refl this, of "take 255 ?q"]
      show ?thesis unfolding e c unfolding 2 using w l assms 2 by (simp add: sizeof_path_header_def)
    next
      case 3
      then show ?thesis using assms by (simp add: e copy_path_def unixpath_to_afppath_def)
    qed
  qed
qed

lemma put_paths_fit:
  "off + paths_room encoding ps \<le> length msg \<Longrightarrow> \<exists>m. put_paths encoding msg off ps = Some m \<and> length m = length msg"
proof (induction ps arbitrary: off msg)
  case (Cons p ps)
  let ?o = "off + sizeof_path_header encoding + length (path_bytes p)"
  have "?o \<le> length msg" using Cons.prems by (simp add: paths_room_def)
  then obtain m where m: "put_path encoding msg off p = Some m" "length m = length msg" using put_path_fits by blast
  have "?o + paths_room encoding ps \<le> length m" using Cons.prems m by (simp add: paths_room_def)
  from Cons.IH [OF this] m show ?case by (cases p) (simp_all add: path_bytes_def)
qed simp

lemma path_command_fits:
  assumes "16 + length body + paths_room encoding paths \<le> len"
  shows "path_command malloc_ok encoding len body paths wait sub srv \<noteq> Overflow"
proof -
  obtain h s where h: "setup_header srv DSI_DSICommand = (h, s)" by fastforce
  have "\<exists>m. path_message encoding len (encode_header h @ body) paths = Some m"
    using put_paths_fit [of "16 + length body" encoding paths "encode_header h @ body @ replicate (len - (16 + length body)) 0"]
      assms by (auto simp: path_message_def)
  then show ?thesis using h by (auto simp: path_command_def)
qed


lemmas path_commands = afp_exchangefiles_def afp_moveandrename_def afp_rename_def afp_createdir_def afp_enumerate_def
  afp_enumerateext_def afp_enumerateext2_def afp_delete_def afp_copyfile_def afp_getfiledirparms_def
  afp_createfile_def afp_openfork_def

lemma path_len_bound: "path_len v p \<le> 7 + length p"
  by (simp add: path_len_def sizeof_path_header_def)

lemma set_params_values_bound: "length (de_finderinfo e) = 32 \<Longrightarrow> length (set_params_values ses bitmap e) \<le> 66"
  by (simp add: set_params_values_def put_word_def Let_def)

lemma set_params_fits:
  assumes "length (de_finderinfo e) = 32" "length p < 65000"
  shows "set_params malloc_ok ses v command dirid p bitmap e srv \<noteq> Overflow"
proof -
  obtain h s where h: "setup_header srv DSI_DSICommand = (h, s)" by fastforce
  let ?fixed = "encode_header h @ of_nat command # 0 # be_bytes 2 (vol_volid v) @ be_bytes 4 dirid @ be_bytes 2 bitmap"
  let ?len = "26 + path_len v p + 200 + 1"
  have l: "u32 ?len = ?len" using path_len_bound [of v p] assms(2) by simp
  have "26 + paths_room (vol_path_encoding v) [Some p] \<le> length (?fixed @ replicate (?len - 26) 0)"
    by (simp add: paths_room_def path_bytes_def path_len_def)
  from put_paths_fit [OF this] obtain m where
    m: "path_message (vol_path_encoding v) ?len ?fixed [Some p] = Some m" "length m = ?len"
    by (auto simp: path_message_def simp del: put_paths.simps)
  have "(26 + path_len v p) mod 2 < 2" by simp
  then have "\<not> 26 + path_len v p + (26 + path_len v p) mod 2 + length (set_params_values ses bitmap e) > length m"
    using m(2) set_params_values_bound [OF assms(1), of ses bitmap] by linarith
  then show ?thesis using h m(1) l by (simp add: set_params_def Let_def)
qed

lemma path_header_bound: "sizeof_path_header encoding \<le> 7"
  by (simp add: sizeof_path_header_def)

lemma path_commands_fit:
  assumes "length p < 65000" "length q < 65000" "length r < 65000"
  shows "afp_exchangefiles malloc_ok v did did' (Some p) (Some q) srv \<noteq> Overflow"
    "afp_moveandrename malloc_ok v did did' (Some p) (Some q) (Some r) srv \<noteq> Overflow"
    "afp_rename malloc_ok v did p q srv \<noteq> Overflow" "afp_createdir malloc_ok v did p srv \<noteq> Overflow"
    "afp_enumerate malloc_ok v did fb db n i p srv \<noteq> Overflow"
    "afp_enumerateext malloc_ok v did fb db n i p srv \<noteq> Overflow"
    "afp_enumerateext2 malloc_ok v did fb db n i p srv \<noteq> Overflow" "afp_delete malloc_ok v did p srv \<noteq> Overflow"
    "afp_copyfile malloc_ok v did p did' q wait srv \<noteq> Overflow"
    "afp_getfiledirparms malloc_ok v did fb db (Some p) srv \<noteq> Overflow"
    "afp_createfile malloc_ok v flag did p srv \<noteq> Overflow" "afp_openfork malloc_ok v fork did mode fb p srv \<noteq> Overflow"
  using assms path_header_bound [of "vol_path_encoding v"] unfolding path_commands Let_def
  by (auto intro!: path_command_fits simp: paths_room_def path_bytes_def path_len_def)

lemma volopen_fits: "afp_volopen malloc_ok v bitmap password srv \<noteq> Overflow"
proof -
  obtain h s where "setup_header srv DSI_DSICommand = (h, s)" by fastforce
  then show ?thesis by (cases password) (simp_all add: afp_volopen_def copy_to_pascal_def Let_def)
qed

lemma mapname_fits: "length name < 65000 \<Longrightarrow> afp_mapname malloc_ok subfunction name srv \<noteq> Overflow"
  by (cases "setup_header srv DSI_DSICommand") (simp add: afp_mapname_def copy_to_pascal_def Let_def)

section \<open>Paths read back\<close>

text \<open>How a server reads a path: the type, for UTF-8 the text encoding hint, the length, and the bytes
  with a NUL for a separator and a slash for a colon.\<close>

definition unix_path_byte :: "byte \<Rightarrow> byte" where
  "unix_path_byte b = (if b = 0 then 0x2f else if b = 0x2f then 0x3a else b)"

definition read_path :: "bytes \<Rightarrow> (bytes \<times> bytes) option" where
  "read_path bs =
     (case bs of
        [] \<Rightarrow> None
      | t # _ \<Rightarrow>
          (let (off, len) = (if t = 3 then (7, be_nat (take 2 (drop 5 bs))) else (2, be_nat (take 1 (drop 1 bs)))) in
           if length bs < off + len then None
           else Some (map unix_path_byte (take len (drop off bs)), drop (off + len) bs)))"

fun read_paths :: "nat \<Rightarrow> bytes \<Rightarrow> (bytes list \<times> bytes) option" where
  "read_paths 0 bs = Some ([], bs)"
| "read_paths (Suc n) bs =
     (case read_path bs of
        None \<Rightarrow> None
      | Some (p, r) \<Rightarrow> map_option (\<lambda>(ps, r'). (p # ps, r')) (read_paths n r))"

lemma read_path_wire:
  assumes "path_ok encoding (Some p)" "0 \<notin> set p"
  shows "read_path (wire_path encoding (Some p) @ r) = Some (p, r)"
proof -
  have "map (unix_path_byte \<circ> afp_path_byte) p = p"
    using assms(2) by (auto intro!: map_idI simp: unix_path_byte_def afp_path_byte_def)
  moreover have "be_nat [b] = unat b" for b by (simp add: be_nat_def)
  ultimately show ?thesis
    using assms(1) by (auto simp: read_path_def wire_path_def path_ok_def path_bytes_def Let_def drop_Cons')
qed

lemma read_paths_wire:
  assumes "\<forall>p \<in> set ps. path_ok encoding (Some p) \<and> 0 \<notin> set p"
  shows "read_paths (length ps) (concat (map (wire_path encoding \<circ> Some) ps)) = Some (ps, [])"
  using assms
  by (induction ps) (simp_all add: read_path_wire)

section \<open>Properties\<close>


definition sample_volume :: afp_volume where
  "sample_volume = \<lparr>vol_volid = 1, vol_flags = 0, vol_attributes = 0, vol_signature = 0, vol_creation_date = 0,
     vol_modification_date = 0, vol_backup_date = 0, vol_bfree = 0, vol_blocks = 0, vol_bsize = 0,
     vol_name = [0x76], vol_name_printable = [], vol_path_encoding = kFPUTF8Name,
     vol_dtrefnum = 0, vol_no_desktop = False, vol_extra_flags = 0\<rparr>"


text \<open>C38: a server reads the paths of a request back. For names within the encoding's limit and without
  a NUL, the bytes behind the fixed part of \<open>FPMoveAndRename\<close>, \<open>FPRename\<close> and \<open>FPCopyFile\<close>, read as
  a server reads paths, are the names given, with their separators and colons, and nothing else; the
  frame goes out under the session's next identifier.\<close>
theorem request_paths_round_trip:
  assumes "malloc_ok = (\<lambda>_. True)" "\<forall>x \<in> {p, q, r}. path_ok (vol_path_encoding v) (Some x) \<and> 0 \<notin> set x"
    "setup_header srv DSI_DSICommand = (h, s)"
  shows "\<exists>m1 m2 m3.
    afp_moveandrename malloc_ok v did did' (Some p) (Some q) (Some r) srv = Send m1 DSI_DEFAULT_TIMEOUT 23 s \<and>
    take 16 m1 = encode_header h \<and> read_paths 3 (drop 28 m1) = Some ([p, q, r], []) \<and>
    afp_rename malloc_ok v did p q srv = Send m2 DSI_DEFAULT_TIMEOUT 28 s \<and>
    take 16 m2 = encode_header h \<and> read_paths 2 (drop 24 m2) = Some ([p, q], []) \<and>
    afp_copyfile malloc_ok v did p did' q wait srv = Send m3 wait 5 s \<and>
    take 16 m3 = encode_header h \<and> read_paths 3 (drop 30 m3) = Some ([p, [], q], [])"
proof -
  let ?e = "vol_path_encoding v"
  have ok: "path_ok ?e (Some [])" using assms(2) by (auto simp: path_ok_def path_bytes_def)
  have len: "length p \<le> 65535" "length q \<le> 65535" using assms(2) by (auto simp: path_ok_def path_bytes_def)
  have m: "malloc_ok n" for n using assms(1) by simp
  have "afp_moveandrename malloc_ok v did did' (Some p) (Some q) (Some r) srv =
      Send (encode_header h @ (23 # 0 # be_bytes 2 (vol_volid v) @ be_bytes 4 did @ be_bytes 4 did') @
        concat (map (wire_path ?e) [Some p, Some q, Some r])) DSI_DEFAULT_TIMEOUT 23 s"
    unfolding afp_moveandrename_def Let_def option.case
    by (rule path_command_wire [OF m _ _ assms(3)]) (use assms(2) in \<open>auto simp: paths_room_def path_bytes_def\<close>)
  moreover have "afp_rename malloc_ok v did p q srv =
      Send (encode_header h @ (28 # 0 # be_bytes 2 (vol_volid v) @ be_bytes 4 did) @
        concat (map (wire_path ?e) [Some p, Some q])) DSI_DEFAULT_TIMEOUT 28 s"
    unfolding afp_rename_def Let_def
    by (rule path_command_wire [OF m _ _ assms(3)])
      (use assms(2) len path_header_bound [of ?e] in \<open>auto simp: paths_room_def path_bytes_def path_len_def\<close>)
  moreover have "afp_copyfile malloc_ok v did p did' q wait srv =
      Send (encode_header h @ (5 # 0 # be_bytes 2 (vol_volid v) @ be_bytes 4 did @ be_bytes 2 (vol_volid v) @ be_bytes 4 did') @
        concat (map (wire_path ?e) [Some p, Some [], Some q])) wait 5 s"
    unfolding afp_copyfile_def Let_def
    by (rule path_command_wire [OF m _ _ assms(3)]) (use assms(2) ok in \<open>auto simp: paths_room_def path_bytes_def\<close>)
  moreover have "read_paths 3 (concat (map (wire_path ?e) [Some p, Some q, Some r])) = Some ([p, q, r], [])"
    "read_paths 2 (concat (map (wire_path ?e) [Some p, Some q])) = Some ([p, q], [])"
    "read_paths 3 (concat (map (wire_path ?e) [Some p, Some [], Some q])) = Some ([p, [], q], [])"
    using read_paths_wire [of "[p, q, r]" ?e] read_paths_wire [of "[p, q]" ?e] read_paths_wire [of "[p, [], q]" ?e]
      assms(2) ok by (simp_all add: numeral_3_eq_3 numeral_2_eq_2 del: read_paths.simps)
  ultimately show ?thesis by simp
qed

theorem request_paths_round_trip_witness:
  "\<exists>m. afp_rename (\<lambda>_. True) sample_volume 2 [0x61, 0x2f, 0x62] [0x3a] (idle_session :: nat afp_server)
      = Send m DSI_DEFAULT_TIMEOUT 28 (snd (setup_header (idle_session :: nat afp_server) DSI_DSICommand)) \<and>
    read_paths 2 (drop 24 m) = Some ([[0x61, 0x2f, 0x62], [0x3a]], [])"
proof -
  have "\<forall>x \<in> {[0x61, 0x2f, 0x62], [0x3a], []}. path_ok (vol_path_encoding sample_volume) (Some x) \<and> 0 \<notin> set (x :: bytes)"
    by (simp add: sample_volume_def path_ok_def path_bytes_def)
  from request_paths_round_trip [OF refl this prod.collapse [symmetric]] show ?thesis by blast
qed

end
