(* ===== verification/Afp_Replies.thy ===== *)
theory Afp_Replies
  imports Afp_Requests
begin

text \<open>
  The reply parsers of the AFP commands and the table \<open>afp_replies\<close> of \<open>lib/afp.c\<close> that selects one.
  A parser gets the receive buffer, the bytes of it the frame has, and the object the caller of the
  command waits with; \<^term>\<open>None\<close> is an access outside the buffer, the object, or the object behind
  a pointer of another type.  A parser that returns the header's error returns it as it is in the
  buffer, which on the little-endian machine modelled here is the reversed number.
\<close>

unbundle bit_operations_syntax

section \<open>Objects of replies\<close>

record afp_file_info =
  fi_size :: nat
  fi_did :: nat
  fi_cnid :: nat
  fi_resource :: nat
  fi_forkid :: nat
  fi_sync :: nat
  fi_writable :: nat
  fi_dirty :: nat
  fi_created :: nat
  fi_basename :: bytes

text \<open>\<open>struct afp_extattr_info\<close>, and \<open>struct afp_icon\<close> and \<open>struct afp_comment\<close>, which have the same
  members but \<open>copied\<close>.\<close>

record data_info =
  da_maxsize :: nat
  da_size :: nat
  da_copied :: nat
  da_data :: bytes

record icon_info =
  ii_tag :: nat
  ii_filetype :: nat
  ii_size :: nat
  ii_icontype :: nat

record afp_appl =
  ap_bitmap :: nat
  ap_tag :: nat
  ap_file :: afp_dirent
  ap_name :: bytes

datatype reply_obj =
    Obj_u16 nat | Obj_u32 nat | Obj_u64 nat | Obj_listing afp_listing | Obj_dirent afp_dirent
  | Obj_file afp_file_info | Obj_volume afp_volume | Obj_uidgid nat nat | Obj_chars bytes
  | Obj_token afp_token | Obj_data data_info | Obj_icon_info icon_info | Obj_appl afp_appl

text \<open>What replies change of the server: the session, the time of its connection, its volumes, and the
  static buffer of \<open>afp_getsrvrmsg_reply\<close>.\<close>

record proto_state =
  pr_session :: afp_session
  pr_connect_time :: int
  pr_volumes :: "afp_volume list"
  pr_mesg :: bytes

definition raw_error :: "bytes \<Rightarrow> int" where
  "raw_error buf = s32 (be_nat (rev (take 4 (drop 4 buf))))"

definition blank_reply :: "bytes \<Rightarrow> int" where
  "blank_reply buf = raw_error buf"

section \<open>Directories and files\<close>

definition createdir_reply :: "bytes \<Rightarrow> nat \<Rightarrow> int \<times> nat" where
  "createdir_reply buf bsize =
     (if raw_error buf \<noteq> 0 then (raw_error buf, 0)
      else if bsize < 20 then (-1, 0)
      else (0, be_nat (take 4 (drop 16 buf))))"

text \<open>The loop over an enumerate reply's entries, \<open>n\<close> of them left and the next at \<open>p\<close>; \<open>Inl\<close> is the
  label \<open>malformed\<close>.\<close>

definition entry_header :: "bool \<Rightarrow> nat" where
  "entry_header ext = (if ext then 4 else 2)"

definition entry_size_isdir :: "bool \<Rightarrow> bytes \<Rightarrow> nat \<Rightarrow> nat \<times> nat" where
  "entry_size_isdir ext buf p =
     (if ext then (be_nat (take 2 (drop p buf)), be_nat (take 1 (drop (p + 2) buf)))
      else (be_nat (take 1 (drop p buf)), be_nat (take 1 (drop (p + 1) buf))))"

fun enumerate_entries ::
  "(nat \<Rightarrow> bool) \<Rightarrow> afp_session \<Rightarrow> bool \<Rightarrow> bytes \<Rightarrow> nat \<Rightarrow> nat \<times> nat \<Rightarrow> nat \<Rightarrow> nat \<Rightarrow> afp_listing
     \<Rightarrow> (afp_listing + afp_listing) option" where
  "enumerate_entries malloc_ok ses ext buf bsize bitmaps 0 p l = Some (Inr l)"
| "enumerate_entries malloc_ok ses ext buf bsize bitmaps (Suc n) p l =
     (if bsize - p < entry_header ext then Some (Inl l)
      else case entry_size_isdir ext buf p of
        (entry_size, isdir) \<Rightarrow>
          if entry_size < entry_header ext \<or> bsize - p < entry_size then Some (Inl l)
          else case listing_reserve malloc_ok 1 AFPC_MAX_NAME_BYTES l of
            (ret, l1) \<Rightarrow>
              if ret < 0 then Some (Inl l1)
              else case parse_reply_block malloc_ok ses (drop (p + entry_header ext) buf)
                          (entry_size - entry_header ext) isdir (fst bitmaps) (snd bitmaps) (Some [])
                          AFPC_MAX_NAME_BYTES of
                  Overrun \<Rightarrow> None
                | Malformed s \<Rightarrow> map_option Inl (put_record (bs_entry s) (the (bs_name s)) l1)
                | Parsed s \<Rightarrow>
                    (case Option.bind (put_record (bs_entry s) (the (bs_name s)) l1) listing_commit of
                       None \<Rightarrow> None
                     | Some l2 \<Rightarrow> enumerate_entries malloc_ok ses ext buf bsize bitmaps n (p + entry_size) l2))"

definition enumerate_reply ::
  "(nat \<Rightarrow> bool) \<Rightarrow> afp_session \<Rightarrow> bool \<Rightarrow> bytes \<Rightarrow> nat \<Rightarrow> afp_listing \<Rightarrow> (int \<times> afp_listing) option" where
  "enumerate_reply malloc_ok ses ext buf bsize l =
     (if bsize < 16 then Some (-1, l)
      else if raw_error buf \<noteq> 0 then Some (raw_error buf, l)
      else if bsize < 22 then Some (-1, l)
      else case enumerate_entries malloc_ok ses ext buf bsize
                  (be_nat (take 2 (drop 16 buf)), be_nat (take 2 (drop 18 buf)))
                  (be_nat (take 2 (drop 20 buf))) 22 l of
          None \<Rightarrow> None
        | Some (Inr l') \<Rightarrow> Some (0, l')
        | Some (Inl l') \<Rightarrow> Some (-1, l'\<lparr>ls_count := ls_count l, ls_pool_used := ls_pool_used l\<rparr>))"

definition afp_enumerate_reply ::
  "(nat \<Rightarrow> bool) \<Rightarrow> afp_session \<Rightarrow> bytes \<Rightarrow> nat \<Rightarrow> afp_listing \<Rightarrow> (int \<times> afp_listing) option" where
  "afp_enumerate_reply malloc_ok ses buf bsize l = enumerate_reply malloc_ok ses False buf bsize l"

definition afp_enumerateext2_reply ::
  "(nat \<Rightarrow> bool) \<Rightarrow> afp_session \<Rightarrow> bytes \<Rightarrow> nat \<Rightarrow> afp_listing \<Rightarrow> (int \<times> afp_listing) option" where
  "afp_enumerateext2_reply malloc_ok ses buf bsize l = enumerate_reply malloc_ok ses True buf bsize l"

definition getfiledirparms_reply ::
  "(nat \<Rightarrow> bool) \<Rightarrow> afp_session \<Rightarrow> bytes \<Rightarrow> nat \<Rightarrow> afp_dirent \<Rightarrow> (int \<times> afp_dirent) option" where
  "getfiledirparms_reply malloc_ok ses buf bsize e =
     (if bsize < 22 then Some (-1, e)
      else if raw_error buf \<noteq> 0 then Some (raw_error buf, e)
      else case parse_reply_block malloc_ok ses (drop 22 buf) (bsize - 22) (be_nat (take 1 (drop 20 buf)))
                  (be_nat (take 2 (drop 16 buf))) (be_nat (take 2 (drop 18 buf))) None 0 of
          Overrun \<Rightarrow> None
        | Malformed s \<Rightarrow> Some (-1, bs_entry s)
        | Parsed s \<Rightarrow> Some (0, bs_entry s))"

text \<open>A copy of \<open>n\<close> bytes of the buffer to the start of a destination.\<close>

definition copy_out :: "bytes \<Rightarrow> nat \<Rightarrow> nat \<Rightarrow> bytes \<Rightarrow> bytes option" where
  "copy_out buf off n dest = (if off + n \<le> length buf \<and> n \<le> length dest
     then Some (write_at dest 0 (take n (drop off buf))) else None)"

definition read_reply :: "bytes \<Rightarrow> nat \<Rightarrow> rx_buffer \<Rightarrow> (int \<times> rx_buffer) option" where
  "read_reply buf bsize rx =
     (if bsize < 16 then Some (-1, rx\<lparr>rx_size := 0\<rparr>)
      else let n = min (bsize - 16) (rx_maxsize rx) in
        map_option (\<lambda>d. (0, rx\<lparr>rx_data := d, rx_size := n, rx_errorcode := s32 (be_nat (take 4 (drop 4 buf)))\<rparr>))
          (copy_out buf 16 n (rx_data rx)))"

text \<open>The extended read's parser is the same code.\<close>

definition readext_reply :: "bytes \<Rightarrow> nat \<Rightarrow> rx_buffer \<Rightarrow> (int \<times> rx_buffer) option" where
  "readext_reply buf bsize rx = read_reply buf bsize rx"

text \<open>The offset behind the last byte written, 0 unless the reply has it; the two parsers differ in its
  width.\<close>

definition last_written :: "nat \<Rightarrow> bytes \<Rightarrow> nat \<Rightarrow> nat" where
  "last_written width buf bsize =
     (if bsize < 16 \<or> raw_error buf \<noteq> 0 \<or> bsize < 16 + width then 0
      else be_nat (take width (drop (bsize - width) buf)))"

definition write_reply :: "bytes \<Rightarrow> nat \<Rightarrow> nat" where
  "write_reply buf bsize = last_written 4 buf bsize"

definition writeext_reply :: "bytes \<Rightarrow> nat \<Rightarrow> nat" where
  "writeext_reply buf bsize = last_written 8 buf bsize"

section \<open>Forks\<close>

definition openfork_reply ::
  "(nat \<Rightarrow> bool) \<Rightarrow> afp_session \<Rightarrow> bytes \<Rightarrow> nat \<Rightarrow> afp_file_info \<Rightarrow> (int \<times> afp_file_info) option" where
  "openfork_reply malloc_ok ses buf bsize fp =
     (if length buf < 20 then None
      else if raw_error buf = 0 \<or> raw_error buf = - 5006 then
        if bsize < 20 then Some (-1, fp)
        else let fp1 = fp\<lparr>fi_forkid := be_nat (take 2 (drop 18 buf))\<rparr>; bitmap = be_nat (take 2 (drop 16 buf)) in
          if bitmap = 0 then Some (0, fp1)
          else case parse_reply_block malloc_ok ses (drop 20 buf) (bsize - 20) 0 bitmap 0 None 0 of
              Overrun \<Rightarrow> None
            | Malformed _ \<Rightarrow> Some (0, fp1)
            | Parsed s \<Rightarrow>
                let fp2 = (if has_bit bitmap kFPNodeIDBit then fp1\<lparr>fi_cnid := de_cnid (bs_entry s)\<rparr> else fp1)
                in Some (0, if has_bit bitmap kFPExtDataForkLenBit then fp2\<lparr>fi_size := de_size (bs_entry s)\<rparr> else fp2)
      else Some (0, fp))"

text \<open>\<open>ntohl\<close> of the first half of the reply's 64-bit member.\<close>

definition byterangelock_reply :: "bytes \<Rightarrow> nat \<Rightarrow> int \<times> nat" where
  "byterangelock_reply buf bsize = (raw_error buf, if bsize \<ge> 24 then be_nat (take 4 (drop 16 buf)) else 0)"

definition byterangelockext_reply :: "bytes \<Rightarrow> nat \<Rightarrow> int \<times> nat" where
  "byterangelockext_reply buf bsize = (raw_error buf, if bsize \<ge> 24 then be_nat (take 8 (drop 16 buf)) else 0)"


section \<open>Volumes\<close>

abbreviation (input) AFP_VOLUME_NAME_UTF8_LEN :: nat where "AFP_VOLUME_NAME_UTF8_LEN \<equiv> 255"
abbreviation (input) AFP_LOGINMESG_LEN :: nat where "AFP_LOGINMESG_LEN \<equiv> 200"
abbreviation (input) kSupportsUTF8Names :: nat where "kSupportsUTF8Names \<equiv> 0x40"

text \<open>The parameters of \<open>parse_volbitmap_reply\<close>: bit, width, and what the volume takes.\<close>

definition volume_fields :: "afp_session \<Rightarrow> (nat \<times> nat \<times> (nat \<Rightarrow> afp_volume \<Rightarrow> afp_volume)) list" where
  "volume_fields ses =
     [(0x1, 2, \<lambda>x v. v\<lparr>vol_attributes := x\<rparr>), (0x2, 2, \<lambda>x v. v\<lparr>vol_signature := x\<rparr>),
      (0x4, 4, \<lambda>x v. v\<lparr>vol_creation_date := afp_date_to_unix ses x\<rparr>),
      (0x8, 4, \<lambda>x v. v\<lparr>vol_modification_date := afp_date_to_unix ses x\<rparr>),
      (0x10, 4, \<lambda>x v. v\<lparr>vol_backup_date := afp_date_to_unix ses x\<rparr>), (0x20, 2, \<lambda>x v. v\<lparr>vol_volid := x\<rparr>),
      (0x40, 4, \<lambda>x v. v\<lparr>vol_bfree := x\<rparr>), (0x80, 4, \<lambda>x v. v\<lparr>vol_blocks := x\<rparr>), (0x100, 2, \<lambda>x v. v),
      (0x200, 8, \<lambda>x v. v\<lparr>vol_bfree := x\<rparr>), (0x400, 8, \<lambda>x v. v\<lparr>vol_blocks := x\<rparr>), (0x800, 4, \<lambda>x v. v\<lparr>vol_bsize := x\<rparr>)]"

fun read_volume_fields ::
  "nat \<Rightarrow> (nat \<times> nat \<times> (nat \<Rightarrow> afp_volume \<Rightarrow> afp_volume)) list \<Rightarrow> bytes \<Rightarrow> nat \<Rightarrow> afp_volume \<Rightarrow> afp_volume option" where
  "read_volume_fields bitmap [] buf p v = Some v"
| "read_volume_fields bitmap ((b, w, st) # fs) buf p v =
     (if has_bit bitmap b
      then (case rd w buf p of None \<Rightarrow> None | Some x \<Rightarrow> read_volume_fields bitmap fs buf (p + w) (st x v))
      else read_volume_fields bitmap fs buf p v)"

text \<open>The one bound the code checks, of the first parameter, always holds.\<close>

definition parse_volbitmap_reply ::
  "afp_session \<Rightarrow> nat \<Rightarrow> bytes \<Rightarrow> nat \<Rightarrow> afp_volume \<Rightarrow> afp_volume option" where
  "parse_volbitmap_reply ses bitmap buf p v = read_volume_fields bitmap (volume_fields ses) buf p v"

text \<open>The volume's printable name, by the encoding of the name.\<close>

definition printable_name :: "(nat \<Rightarrow> bool) \<Rightarrow> bool \<Rightarrow> afp_volume \<Rightarrow> afp_volume option" where
  "printable_name malloc_ok utf8 v =
     (let name = cstr (take AFP_VOLUME_NAME_UTF8_LEN (vol_name v)) in
      if utf8 then
        map_option (\<lambda>(_, d). v\<lparr>vol_name_printable := d\<rparr>) (convert_utf8dec_to_utf8pre malloc_ok name AFP_VOLUME_NAME_UTF8_LEN)
      else case convert_mac_roman_to_utf8 name AFP_VOLUME_NAME_UTF8_LEN of
          (_, None) \<Rightarrow> Some v
        | (_, Some d) \<Rightarrow> Some (v\<lparr>vol_name_printable := d\<rparr>))"

definition volopen_reply ::
  "(nat \<Rightarrow> bool) \<Rightarrow> afp_session \<Rightarrow> bytes \<Rightarrow> nat \<Rightarrow> afp_volume \<Rightarrow> (int \<times> afp_volume) option" where
  "volopen_reply malloc_ok ses buf bsize v =
     (if bsize < 18 then Some (-1, v)
      else case parse_volbitmap_reply ses (be_nat (take 2 (drop 16 buf))) buf 18 v of
          None \<Rightarrow> None
        | Some v1 \<Rightarrow>
            map_option (Pair 0) (printable_name malloc_ok (has_bit (vol_attributes v1) kSupportsUTF8Names) v1))"

definition getvolparms_reply :: "afp_session \<Rightarrow> bytes \<Rightarrow> nat \<Rightarrow> afp_volume \<Rightarrow> (int \<times> afp_volume) option" where
  "getvolparms_reply ses buf bsize v =
     (if bsize < 18 then Some (-1, v)
      else map_option (Pair 0) (parse_volbitmap_reply ses (be_nat (take 2 (drop 16 buf))) buf 18 v))"

section \<open>Users\<close>

definition getuserinfo_reply :: "bytes \<Rightarrow> nat \<Rightarrow> int \<times> nat \<times> nat" where
  "getuserinfo_reply buf bsize =
     (if bsize < 26 then (-1, 0, 0)
      else if raw_error buf \<noteq> 0 then (-1, 0, 0)
      else let bitmap = be_nat (take 2 (drop 16 buf)); id1 = be_nat (take 4 (drop 18 buf));
               id2 = be_nat (take 4 (drop 22 buf)) in
        if has_bit bitmap 1 then (0, id1, if has_bit bitmap 2 then id2 else 0)
        else (0, 0, if has_bit bitmap 2 then id1 else 0))"

text \<open>\<open>afp_mapid_reply\<close> takes the bytes behind the header as a pointer to the name: only a null one can
  be followed. It copies the whole of its static buffer to the caller's.\<close>

definition mapid_reply :: "bytes \<Rightarrow> nat \<Rightarrow> bytes \<Rightarrow> (int \<times> bytes) option" where
  "mapid_reply buf bsize name =
     (if bsize < 18 then Some (-1, name)
      else if raw_error buf \<noteq> 0 then Some (-1, name)
      else if take 8 (drop 16 buf) \<noteq> replicate 8 0 then None
      else map_option (Pair 0) (copy_out (replicate AFPC_MAX_NAME_BYTES 0) 0 AFPC_MAX_NAME_BYTES name))"

definition mapname_reply :: "bytes \<Rightarrow> nat \<Rightarrow> nat \<Rightarrow> (int \<times> nat) option" where
  "mapname_reply buf bsize ident =
     (if bsize < 18 then Some (-1, ident) else map_option (Pair 0) (rd32 buf 16))"

section \<open>Server and session\<close>

text \<open>The volumes of \<open>afp_getsrvrparms_reply\<close> from \<open>p\<close> on, \<open>n\<close> of them; \<open>Inl\<close> is a reply cut short.\<close>

definition new_volume :: afp_volume where
  "new_volume = \<lparr>vol_volid = 0, vol_flags = 0, vol_attributes = 0, vol_signature = 0, vol_creation_date = 0,
     vol_modification_date = 0, vol_backup_date = 0, vol_bfree = 0, vol_blocks = 0, vol_bsize = 0,
     vol_name = replicate AFP_VOLUME_NAME_UTF8_LEN 0, vol_name_printable = [], vol_path_encoding = 0,
     vol_dtrefnum = 0, vol_no_desktop = False, vol_extra_flags = 0\<rparr>"

fun srvrparms_volumes ::
  "(nat \<Rightarrow> bool) \<Rightarrow> nat \<Rightarrow> bytes \<Rightarrow> nat \<Rightarrow> nat \<Rightarrow> nat \<Rightarrow> (unit + afp_volume list) option" where
  "srvrparms_volumes malloc_ok version buf bsize 0 p = Some (Inr [])"
| "srvrparms_volumes malloc_ok version buf bsize (Suc n) p =
     (if p \<ge> bsize then Some (Inl ())
      else case copy_from_pascal (vol_name new_volume) (Some (drop (p + 1) buf)) AFP_VOLUME_NAME_UTF8_LEN of
          None \<Rightarrow> None
        | Some (len, name) \<Rightarrow>
            (case printable_name malloc_ok (version \<ge> 30)
                    (new_volume\<lparr>vol_flags := be_nat (take 1 (drop p buf)), vol_name := name\<rparr>) of
               None \<Rightarrow> None
             | Some v \<Rightarrow>
                 map_option (map_sum id (Cons v))
                   (srvrparms_volumes malloc_ok version buf bsize n (p + 1 + (len + 1)))))"

text \<open>\<open>now\<close> is the client's time; the protocol version has been chosen by then.\<close>

definition getsrvrparms_reply ::
  "(nat \<Rightarrow> bool) \<Rightarrow> int \<Rightarrow> bytes \<Rightarrow> nat \<Rightarrow> proto_state \<Rightarrow> (int \<times> proto_state) option" where
  "getsrvrparms_reply malloc_ok now buf bsize pr =
     (if bsize < 21 then Some (-1, pr)
      else let ses = pr_session pr;
               server_time = afp_date_to_unix (ses\<lparr>ses_version := None\<rparr>) (be_nat (take 4 (drop 16 buf)));
               numvolumes = be_nat (take 1 (drop 20 buf));
               pr1 = (if server_uses_local_time ses
                      then pr\<lparr>pr_session := ses\<lparr>ses_time_offset := server_time - now\<rparr>, pr_connect_time := now\<rparr>
                      else pr\<lparr>pr_connect_time := server_time\<rparr>) in
        if numvolumes > 0 \<and> \<not> malloc_ok numvolumes then Some (-1, pr1)
        else case ses_version ses of
            None \<Rightarrow> (if numvolumes > 0 \<and> 21 < bsize then None
                     else Some (if numvolumes > 0 then (-1, pr1) else (0, pr1\<lparr>pr_volumes := []\<rparr>)))
          | Some version \<Rightarrow>
              (case srvrparms_volumes malloc_ok version buf bsize numvolumes 21 of
                 None \<Rightarrow> None
               | Some (Inl _) \<Rightarrow> Some (-1, pr1)
               | Some (Inr vs) \<Rightarrow> Some (0, pr1\<lparr>pr_volumes := vs\<rparr>)))"

definition getsrvrmsg_reply :: "bytes \<Rightarrow> nat \<Rightarrow> bytes option \<Rightarrow> bytes \<Rightarrow> (int \<times> bytes option \<times> bytes) option" where
  "getsrvrmsg_reply buf bsize dest mesg =
     (if bsize < 20 then Some (-1, dest, mesg)
      else case (if has_bit (be_nat (take 2 (drop 18 buf))) 2
                 then copy_from_pascal_two mesg (Some (drop 20 buf)) AFP_LOGINMESG_LEN
                 else copy_from_pascal mesg (Some (drop 20 buf)) AFP_LOGINMESG_LEN) of
          None \<Rightarrow> None
        | Some (_, mesg') \<Rightarrow>
            (case dest of
               None \<Rightarrow> Some (0, None, mesg')
             | Some d \<Rightarrow> map_option (\<lambda>d'. (0, Some d', mesg')) (copy_out mesg' 0 AFP_LOGINMESG_LEN d)))"

definition getsessiontoken_reply :: "bytes \<Rightarrow> afp_token option \<Rightarrow> (int \<times> afp_token option) option" where
  "getsessiontoken_reply buf token =
     (if hdr_length (header_of buf) \<le> 16 then Some (0, map_option (tok_length_update (\<lambda>_. 0)) token)
      else case rd32 buf 16 of
          None \<Rightarrow> None
        | Some token_len \<Rightarrow>
            if token_len > AFP_TOKEN_MAX_LEN \<or> hdr_length (header_of buf) - 16 < token_len then Some (-1, token)
            else (case token of
                    None \<Rightarrow> Some (0, None)
                  | Some t \<Rightarrow>
                      map_option (\<lambda>d. (0, Some (t\<lparr>tok_data := d, tok_length := token_len\<rparr>)))
                        (copy_out buf 20 token_len (tok_data t))))"

text \<open>For a frame of at least a header, which \<open>afp_reply\<close> has checked.\<close>

definition login_reply :: "bytes \<Rightarrow> nat \<Rightarrow> rx_buffer option \<Rightarrow> (int \<times> rx_buffer option) option" where
  "login_reply buf bsize rx =
     (case rx of
        None \<Rightarrow> Some (0, None)
      | Some r \<Rightarrow>
          if bsize - 16 = 0 then Some (0, Some r)
          else let n = min (bsize - 16) (rx_maxsize r) in
            map_option (\<lambda>d. (0, Some (r\<lparr>rx_data := d, rx_size := n\<rparr>))) (copy_out buf 16 n (rx_data r)))"

definition changepassword_reply :: "bytes \<Rightarrow> nat \<Rightarrow> rx_buffer option \<Rightarrow> (int \<times> rx_buffer option) option" where
  "changepassword_reply buf bsize rx = login_reply buf bsize rx"

section \<open>Extended attributes and the desktop\<close>

definition listextattrs_reply :: "bytes \<Rightarrow> nat \<Rightarrow> data_info option \<Rightarrow> (int \<times> data_info option) option" where
  "listextattrs_reply buf bsize info =
     (case info of
        None \<Rightarrow> Some (0, None)
      | Some i \<Rightarrow>
          let i0 = i\<lparr>da_size := 0, da_copied := 0\<rparr> in
          if bsize < 16 \<or> raw_error buf \<noteq> 0 \<or> bsize < 22 then Some (0, Some i0)
          else let datalength = be_nat (take 4 (drop 18 buf)); len = min (da_maxsize i) (min datalength (bsize - 22)) in
            map_option (\<lambda>d. (0, Some (i0\<lparr>da_size := datalength, da_copied := len, da_data := d\<rparr>)))
              (copy_out buf 22 len (da_data i)))"

text \<open>The other parser checks its object later, to the same effect.\<close>

definition getextattr_reply :: "bytes \<Rightarrow> nat \<Rightarrow> data_info option \<Rightarrow> (int \<times> data_info option) option" where
  "getextattr_reply buf bsize info = listextattrs_reply buf bsize info"

definition geticon_reply :: "bytes \<Rightarrow> nat \<Rightarrow> data_info \<Rightarrow> (int \<times> data_info) option" where
  "geticon_reply buf bsize i =
     (if bsize < 16 then Some (-1, i)
      else if raw_error buf \<noteq> 0 then Some (raw_error buf, i)
      else if bsize - 16 > da_maxsize i then Some (-1, i)
      else map_option (\<lambda>d. (0, i\<lparr>da_size := bsize - 16, da_data := d\<rparr>)) (copy_out buf 16 (bsize - 16) (da_data i)))"

definition getcomment_reply :: "bytes \<Rightarrow> nat \<Rightarrow> data_info \<Rightarrow> (int \<times> data_info) option" where
  "getcomment_reply buf bsize i =
     (if bsize < 17 then Some (-1, i)
      else if raw_error buf \<noteq> 0 then Some (raw_error buf, i)
      else let len = be_nat (take 1 (drop 16 buf)) in
        if len > bsize - 17 \<or> len > da_maxsize i then Some (-1, i)
        else map_option (\<lambda>d. (0, i\<lparr>da_data := d, da_size := len\<rparr>)) (copy_out buf 17 len (da_data i)))"

definition opendt_reply :: "bytes \<Rightarrow> nat \<Rightarrow> nat \<Rightarrow> int \<times> nat" where
  "opendt_reply buf bsize refnum =
     (if bsize < 18 then (-1, refnum)
      else if raw_error buf \<noteq> 0 then (raw_error buf, refnum)
      else (0, be_nat (take 2 (drop 16 buf))))"

definition geticoninfo_reply :: "bytes \<Rightarrow> nat \<Rightarrow> icon_info \<Rightarrow> int \<times> icon_info" where
  "geticoninfo_reply buf bsize info =
     (if bsize < 28 then (-1, info)
      else if raw_error buf \<noteq> 0 then (raw_error buf, info)
      else (0, \<lparr>ii_tag = be_nat (take 4 (drop 16 buf)), ii_filetype = be_nat (take 4 (drop 20 buf)),
                ii_size = be_nat (take 2 (drop 26 buf)), ii_icontype = be_nat (take 1 (drop 24 buf))\<rparr>))"

definition getappl_reply ::
  "(nat \<Rightarrow> bool) \<Rightarrow> afp_session \<Rightarrow> bytes \<Rightarrow> nat \<Rightarrow> afp_appl \<Rightarrow> (int \<times> afp_appl) option" where
  "getappl_reply malloc_ok ses buf bsize a =
     (if bsize < 22 then Some (-1, a)
      else if raw_error buf \<noteq> 0 then Some (raw_error buf, a)
      else let bitmap = be_nat (take 2 (drop 16 buf)) in
        case parse_reply_block malloc_ok ses (drop 22 buf) (bsize - 22) 0 bitmap 0 (Some []) AFPC_MAX_NAME_BYTES of
          Overrun \<Rightarrow> None
        | Malformed s \<Rightarrow> Some (-1, a\<lparr>ap_file := bs_entry s, ap_name := the (bs_name s)\<rparr>)
        | Parsed s \<Rightarrow> Some (0, \<lparr>ap_bitmap = bitmap, ap_tag = be_nat (take 4 (drop 18 buf)),
                                ap_file = bs_entry s, ap_name = the (bs_name s)\<rparr>))"


section \<open>The table of parsers\<close>

definition blank_replies :: "nat list" where
  "blank_replies = [2, 4, 5, 7, 8, 10, 11, 20, 23, 28, 29, 30, 31, 35, 42, 49, 56, 65, 70, 71, 73, 74, 75, 78, 79, 122]"

text \<open>A parser applied to the object of its type; another object is a confused pointer.\<close>

definition on_u16 :: "(nat \<Rightarrow> int \<times> nat) \<Rightarrow> reply_obj dest \<Rightarrow> (int \<times> reply_obj dest) option" where
  "on_u16 f oth = (case oth of Dest_obj (Obj_u16 x) \<Rightarrow> (case f x of (r, y) \<Rightarrow> Some (r, Dest_obj (Obj_u16 y))) | _ \<Rightarrow> None)"

definition on_u32 :: "(nat \<Rightarrow> (int \<times> nat) option) \<Rightarrow> reply_obj dest \<Rightarrow> (int \<times> reply_obj dest) option" where
  "on_u32 f oth = (case oth of Dest_obj (Obj_u32 x) \<Rightarrow> map_option (map_prod id (Dest_obj \<circ> Obj_u32)) (f x) | _ \<Rightarrow> None)"

definition on_u64 :: "(nat \<Rightarrow> int \<times> nat) \<Rightarrow> reply_obj dest \<Rightarrow> (int \<times> reply_obj dest) option" where
  "on_u64 f oth = (case oth of Dest_obj (Obj_u64 x) \<Rightarrow> (case f x of (r, y) \<Rightarrow> Some (r, Dest_obj (Obj_u64 y))) | _ \<Rightarrow> None)"

definition on_listing ::
  "(afp_listing \<Rightarrow> (int \<times> afp_listing) option) \<Rightarrow> reply_obj dest \<Rightarrow> (int \<times> reply_obj dest) option" where
  "on_listing f oth =
     (case oth of Dest_obj (Obj_listing l) \<Rightarrow> map_option (map_prod id (Dest_obj \<circ> Obj_listing)) (f l) | _ \<Rightarrow> None)"

definition on_volume ::
  "(afp_volume \<Rightarrow> (int \<times> afp_volume) option) \<Rightarrow> reply_obj dest \<Rightarrow> (int \<times> reply_obj dest) option" where
  "on_volume f oth =
     (case oth of Dest_obj (Obj_volume v) \<Rightarrow> map_option (map_prod id (Dest_obj \<circ> Obj_volume)) (f v) | _ \<Rightarrow> None)"

definition on_data ::
  "(data_info \<Rightarrow> (int \<times> data_info) option) \<Rightarrow> reply_obj dest \<Rightarrow> (int \<times> reply_obj dest) option" where
  "on_data f oth =
     (case oth of Dest_obj (Obj_data i) \<Rightarrow> map_option (map_prod id (Dest_obj \<circ> Obj_data)) (f i) | _ \<Rightarrow> None)"

text \<open>The parsers whose object may be absent.\<close>

definition on_rx_or_null ::
  "(rx_buffer option \<Rightarrow> (int \<times> rx_buffer option) option) \<Rightarrow> reply_obj dest \<Rightarrow> (int \<times> reply_obj dest) option" where
  "on_rx_or_null f oth =
     (let back = (\<lambda>r. case r of None \<Rightarrow> Dest_null | Some b \<Rightarrow> Dest_rx b) in
      case oth of
        Dest_null \<Rightarrow> map_option (map_prod id back) (f None)
      | Dest_rx b \<Rightarrow> map_option (map_prod id back) (f (Some b))
      | Dest_obj _ \<Rightarrow> None)"

definition on_data_or_null ::
  "(data_info option \<Rightarrow> (int \<times> data_info option) option) \<Rightarrow> reply_obj dest \<Rightarrow> (int \<times> reply_obj dest) option" where
  "on_data_or_null f oth =
     (let back = (\<lambda>r. case r of None \<Rightarrow> Dest_null | Some i \<Rightarrow> Dest_obj (Obj_data i)) in
      case oth of
        Dest_null \<Rightarrow> map_option (map_prod id back) (f None)
      | Dest_obj (Obj_data i) \<Rightarrow> map_option (map_prod id back) (f (Some i))
      | _ \<Rightarrow> None)"

definition on_token_or_null ::
  "(afp_token option \<Rightarrow> (int \<times> afp_token option) option) \<Rightarrow> reply_obj dest \<Rightarrow> (int \<times> reply_obj dest) option" where
  "on_token_or_null f oth =
     (let back = (\<lambda>r. case r of None \<Rightarrow> Dest_null | Some t \<Rightarrow> Dest_obj (Obj_token t)) in
      case oth of
        Dest_null \<Rightarrow> map_option (map_prod id back) (f None)
      | Dest_obj (Obj_token t) \<Rightarrow> map_option (map_prod id back) (f (Some t))
      | _ \<Rightarrow> None)"

text \<open>The parsers that leave the server alone, by their number in \<open>afp_replies\<close>; a number without one
  is logged.\<close>

definition object_reply ::
  "(nat \<Rightarrow> bool) \<Rightarrow> afp_session \<Rightarrow> nat \<Rightarrow> bytes \<Rightarrow> nat \<Rightarrow> reply_obj dest \<Rightarrow> (int \<times> reply_obj dest) option" where
  "object_reply malloc_ok ses sub buf bsize oth =
     (if sub \<in> set blank_replies then Some (blank_reply buf, oth)
      else if sub = 1 then on_u32 (\<lambda>_. Some (byterangelock_reply buf bsize)) oth
      else if sub = 6 then on_u32 (\<lambda>_. Some (createdir_reply buf bsize)) oth
      else if sub = 9 then on_listing (afp_enumerate_reply malloc_ok ses buf bsize) oth
      else if sub = 17 then on_volume (getvolparms_reply ses buf bsize) oth
      else if sub \<in> {18, 19, 63} then on_rx_or_null (login_reply buf bsize) oth
      else if sub = 36 then on_rx_or_null (changepassword_reply buf bsize) oth
      else if sub = 21 then
        (case oth of Dest_obj (Obj_chars n) \<Rightarrow> map_option (map_prod id (Dest_obj \<circ> Obj_chars)) (mapid_reply buf bsize n)
         | _ \<Rightarrow> None)
      else if sub = 22 then on_u32 (mapname_reply buf bsize) oth
      else if sub = 24 then on_volume (volopen_reply malloc_ok ses buf bsize) oth
      else if sub = 26 then
        (case oth of Dest_obj (Obj_file fp) \<Rightarrow>
           map_option (map_prod id (Dest_obj \<circ> Obj_file)) (openfork_reply malloc_ok ses buf bsize fp) | _ \<Rightarrow> None)
      else if sub = 27 then
        (case oth of Dest_rx b \<Rightarrow> map_option (map_prod id Dest_rx) (read_reply buf bsize b) | _ \<Rightarrow> None)
      else if sub = 60 then
        (case oth of Dest_rx b \<Rightarrow> map_option (map_prod id Dest_rx) (readext_reply buf bsize b) | _ \<Rightarrow> None)
      else if sub = 33 then (case oth of Dest_null \<Rightarrow> Some (0, oth) | _ \<Rightarrow> on_u32 (\<lambda>_. Some (0, write_reply buf bsize)) oth)
      else if sub = 34 then
        (case oth of Dest_obj (Obj_dirent e) \<Rightarrow>
           map_option (map_prod id (Dest_obj \<circ> Obj_dirent)) (getfiledirparms_reply malloc_ok ses buf bsize e) | _ \<Rightarrow> None)
      else if sub = 37 then
        (case oth of Dest_obj (Obj_uidgid _ _) \<Rightarrow>
           (case getuserinfo_reply buf bsize of (r, u, g) \<Rightarrow> Some (r, Dest_obj (Obj_uidgid u g))) | _ \<Rightarrow> None)
      else if sub = 48 then on_u16 (opendt_reply buf bsize) oth
      else if sub = 51 then on_data (geticon_reply buf bsize) oth
      else if sub = 52 then
        (case oth of Dest_obj (Obj_icon_info i) \<Rightarrow>
           (case geticoninfo_reply buf bsize i of (r, i') \<Rightarrow> Some (r, Dest_obj (Obj_icon_info i'))) | _ \<Rightarrow> None)
      else if sub = 55 then
        (case oth of Dest_obj (Obj_appl a) \<Rightarrow>
           map_option (map_prod id (Dest_obj \<circ> Obj_appl)) (getappl_reply malloc_ok ses buf bsize a) | _ \<Rightarrow> None)
      else if sub = 58 then on_data (getcomment_reply buf bsize) oth
      else if sub = 59 then on_u64 (\<lambda>_. byterangelockext_reply buf bsize) oth
      else if sub = 61 then (case oth of Dest_null \<Rightarrow> Some (0, oth) | _ \<Rightarrow> on_u64 (\<lambda>_. (0, writeext_reply buf bsize)) oth)
      else if sub = 64 then on_token_or_null (getsessiontoken_reply buf) oth
      else if sub \<in> {66, 68} then on_listing (afp_enumerateext2_reply malloc_ok ses buf bsize) oth
      else if sub = 69 then on_data_or_null (getextattr_reply buf bsize) oth
      else if sub = 72 then on_data_or_null (listextattrs_reply buf bsize) oth
      else Some (0, oth))"

definition afp_reply ::
  "(nat \<Rightarrow> bool) \<Rightarrow> int \<Rightarrow> nat \<Rightarrow> bytes \<Rightarrow> nat \<Rightarrow> reply_obj dest \<Rightarrow> proto_state
     \<Rightarrow> (int \<times> reply_obj dest \<times> proto_state) option" where
  "afp_reply malloc_ok now sub buf bsize oth pr =
     (if bsize < 16 then Some (-1, oth, pr)
      else if bsize > length buf then None
      else if sub = 16 then map_option (\<lambda>(r, pr'). (r, oth, pr')) (getsrvrparms_reply malloc_ok now buf bsize pr)
      else if sub = 38 then
        (case oth of
           Dest_null \<Rightarrow> map_option (\<lambda>(r, _, m). (r, oth, pr\<lparr>pr_mesg := m\<rparr>)) (getsrvrmsg_reply buf bsize None (pr_mesg pr))
         | Dest_obj (Obj_chars d) \<Rightarrow>
             map_option (\<lambda>(r, d', m). (r, Dest_obj (Obj_chars (the d')), pr\<lparr>pr_mesg := m\<rparr>))
               (getsrvrmsg_reply buf bsize (Some d) (pr_mesg pr))
         | _ \<Rightarrow> None)
      else map_option (\<lambda>(r, oth'). (r, oth', pr)) (object_reply malloc_ok (pr_session pr) sub buf bsize oth))"

end
