(* ===== verification/Enumerate.thy ===== *)
theory Enumerate
  imports Afp_Replies
begin

text \<open>
  Pages of a directory. An enumerate reply adds its entries to a listing or, however it is malformed,
  leaves what is listed as it was; and a page laid out by the protocol is listed entry by entry.
\<close>

section \<open>What a reply may do to a listing\<close>

text \<open>What a listing holds stays, at its place in both arrays, although they may move.\<close>

definition grows :: "afp_listing \<Rightarrow> afp_listing \<Rightarrow> bool" where
  "grows l l' \<longleftrightarrow> wf_listing l' \<and> ls_count l \<le> ls_count l' \<and> ls_pool_used l \<le> ls_pool_used l' \<and>
     take (ls_count l) (ls_entries l') = take (ls_count l) (ls_entries l) \<and>
     take (ls_pool_used l) (ls_pool l') = take (ls_pool_used l) (ls_pool l)"

lemma grows_refl: "wf_listing l \<Longrightarrow> grows l l"
  by (simp add: grows_def)

lemma take_prefix_trans: "n \<le> m \<Longrightarrow> take n xs = take n ys \<Longrightarrow> take m zs = take m xs \<Longrightarrow> take n zs = take n ys"
  by (metis min.absorb1 take_take)

lemma grows_trans: "grows l l' \<Longrightarrow> grows l' l'' \<Longrightarrow> grows l l''"
  unfolding grows_def by (auto intro: take_prefix_trans)

lemma map_fst_listed: "map fst (listed l) = take (ls_count l) (ls_entries l)"
  by (simp add: listed_def named_def o_def)

lemma length_listed: "wf_listing l \<Longrightarrow> length (listed l) = ls_count l"
  by (simp add: listed_def wf_listing_def)

lemma same_contents_grows: "same_contents l l' \<Longrightarrow> grows l l'"
  using map_fst_listed [of l] map_fst_listed [of l'] by (simp add: same_contents_def grows_def)

lemma put_record_grows:
  assumes "wf_listing l" "put_record e name l = Some l'"
  shows "grows l l'"
  using assms by (auto simp: put_record_def grows_def wf_listing_def buf_simps split: if_splits)

lemma put_commit_grows:
  assumes "wf_listing l" "Option.bind (put_record e name l) listing_commit = Some l'"
  shows "grows l l' \<and> ls_count l' = ls_count l + 1 \<and>
    listed l' = listed l @ [(e\<lparr>de_name_off := ls_pool_used l\<rparr>, cstr name)]"
proof -
  have "ls_count l < length (ls_entries l)" "ls_pool_used l + length name + 1 \<le> length (ls_pool l)"
    using assms(2) by (auto simp: put_record_def split: if_splits)
  from put_commit [OF assms(1) this, of e] assms(2)
  have c: "wf_listing l'" "listed l' = listed l @ [(e\<lparr>de_name_off := ls_pool_used l\<rparr>, cstr name)]" by auto
  have n: "ls_count l' = ls_count l + 1"
    using c(2) length_listed [OF assms(1)] length_listed [OF c(1)] by simp
  have "take (ls_count l) (take (ls_count l') (ls_entries l')) = take (ls_count l) (ls_entries l)"
    unfolding map_fst_listed [symmetric] c(2) using length_listed [OF assms(1)] by simp
  then have "take (ls_count l) (ls_entries l') = take (ls_count l) (ls_entries l)" using n by simp
  then show ?thesis using put_commit_prefix [OF assms] c n by (simp add: grows_def)
qed

lemma grows_listed:
  assumes "wf_listing l" "grows l l'"
  shows "\<exists>new. listed l' = listed l @ new \<and> length new = ls_count l' - ls_count l"
proof -
  have "take (ls_pool_used l') (ls_pool l') = take (ls_pool_used l) (ls_pool l) @
      drop (ls_pool_used l) (take (ls_pool_used l') (ls_pool l'))"
    using assms(2) append_take_drop_id [of "ls_pool_used l" "take (ls_pool_used l') (ls_pool l')"]
    by (simp add: grows_def min_def)
  then obtain X where X: "take (ls_pool_used l') (ls_pool l') = take (ls_pool_used l) (ls_pool l) @ X" by blast
  have "take (ls_count l') (ls_entries l') = take (ls_count l) (ls_entries l) @
      drop (ls_count l) (take (ls_count l') (ls_entries l'))"
    using assms(2) append_take_drop_id [of "ls_count l" "take (ls_count l') (ls_entries l')"]
    by (simp add: grows_def min_def)
  then obtain Y where Y: "take (ls_count l') (ls_entries l') = take (ls_count l) (ls_entries l) @ Y" by blast
  have "map (named (take (ls_pool_used l) (ls_pool l) @ X)) (take (ls_count l) (ls_entries l)) = listed l"
    using assms(1) name_ends_append by (auto simp: listed_def wf_listing_def)
  then have "listed l' = listed l @ map (named (take (ls_pool_used l) (ls_pool l) @ X)) Y"
    unfolding listed_def [of l'] X Y by simp
  moreover from this have "length Y = ls_count l' - ls_count l"
    using assms length_listed [of l] length_listed [of l'] by (simp add: grows_def)
  ultimately show ?thesis by auto
qed

text \<open>The label \<open>malformed\<close> takes a listing back.\<close>

lemma rollback_listed:
  assumes "wf_listing l" "grows l l'"
  shows "wf_listing (l'\<lparr>ls_count := ls_count l, ls_pool_used := ls_pool_used l\<rparr>) \<and>
    listed (l'\<lparr>ls_count := ls_count l, ls_pool_used := ls_pool_used l\<rparr>) = listed l"
  using assms by (simp add: grows_def wf_listing_def listed_def)

section \<open>One entry and the loop\<close>

text \<open>Room for the next entry, and its record behind what is listed: the part of the loop's body between
  its checks and the advance.\<close>

lemma room_for_entry:
  assumes "wf_listing l" "listing_reserve malloc_ok 1 AFPC_MAX_NAME_BYTES l = (r, l1)"
  shows "grows l l1" "wf_listing l1" "ls_count l1 = ls_count l" "listed l1 = listed l" "ls_pool_used l1 = ls_pool_used l"
    "\<not> r < 0 \<Longrightarrow> length name < AFPC_MAX_NAME_BYTES \<Longrightarrow> \<exists>l2. put_record e name l1 = Some l2"
    "\<not> r < 0 \<Longrightarrow> length name < AFPC_MAX_NAME_BYTES \<Longrightarrow>
      \<exists>l2. Option.bind (put_record e name l1) listing_commit = Some l2"
proof -
  note k = listing_reserve_keeps [OF assms]
  from k(1) show w: "grows l l1" "wf_listing l1" "ls_count l1 = ls_count l" "listed l1 = listed l"
      "ls_pool_used l1 = ls_pool_used l"
    by (simp_all add: same_contents_grows, simp_all add: same_contents_def)
  assume "\<not> r < 0" "length name < AFPC_MAX_NAME_BYTES"
  then have room: "ls_count l1 < length (ls_entries l1)" "ls_pool_used l1 + length name + 1 \<le> length (ls_pool l1)"
    using k(2,3) by auto
  then show "\<exists>l2. put_record e name l1 = Some l2" by (simp add: put_record_def)
  show "\<exists>l2. Option.bind (put_record e name l1) listing_commit = Some l2"
    using put_commit [OF w(2) room] by blast
qed

definition loop_result :: "afp_listing \<Rightarrow> nat \<Rightarrow> (afp_listing + afp_listing) option \<Rightarrow> bool" where
  "loop_result l n r \<longleftrightarrow> (case r of
     None \<Rightarrow> False
   | Some (Inl l') \<Rightarrow> grows l l'
   | Some (Inr l') \<Rightarrow> grows l l' \<and> ls_count l' = ls_count l + n)"

lemma loop_result_advance:
  "grows l l1 \<Longrightarrow> ls_count l1 = ls_count l + 1 \<Longrightarrow> loop_result l1 n r \<Longrightarrow> loop_result l (Suc n) r"
  by (auto simp: loop_result_def intro: grows_trans split: option.splits sum.splits)

lemma enumerate_entries_grows:
  assumes "bsize \<le> length buf"
  shows "wf_listing l \<Longrightarrow> loop_result l n (enumerate_entries malloc_ok ses ext buf bsize bitmaps n p l)"
proof (induction n arbitrary: p l)
  case (Suc n)
  obtain es isdir where es: "entry_size_isdir ext buf p = (es, isdir)" by fastforce
  obtain r l1 where l1: "listing_reserve malloc_ok 1 AFPC_MAX_NAME_BYTES l = (r, l1)" by fastforce
  note room = room_for_entry [OF Suc.prems l1]
  let ?short = "bsize - p < entry_header ext \<or> es < entry_header ext \<or> bsize - p < es"
  let ?P = "parse_reply_block malloc_ok ses (drop (p + entry_header ext) buf) (es - entry_header ext) isdir
      (fst bitmaps) (snd bitmaps) (Some []) AFPC_MAX_NAME_BYTES"
  consider "?short" | "\<not> ?short" "r < 0" | "\<not> ?short" "\<not> r < 0" by blast
  then show ?case
  proof cases
    case 1
    then show ?thesis using es l1 grows_refl [OF Suc.prems] by (auto simp: loop_result_def)
  next
    case 2
    then show ?thesis using es l1 room(1) by (simp add: loop_result_def)
  next
    case 3
    have step: "enumerate_entries malloc_ok ses ext buf bsize bitmaps (Suc n) p l = (case ?P of
        Overrun \<Rightarrow> None
      | Malformed s \<Rightarrow> map_option Inl (put_record (bs_entry s) (the (bs_name s)) l1)
      | Parsed s \<Rightarrow> (case Option.bind (put_record (bs_entry s) (the (bs_name s)) l1) listing_commit of
           None \<Rightarrow> None
         | Some l2 \<Rightarrow> enumerate_entries malloc_ok ses ext buf bsize bitmaps n (p + es) l2))"
      using 3 es l1 by simp
    have "es - entry_header ext \<le> length (drop (p + entry_header ext) buf)" using 3 assms by auto
    from parse_reply_block_safe [OF this, of "Some []" AFPC_MAX_NAME_BYTES malloc_ok ses isdir "fst bitmaps" "snd bitmaps"]
    have fits: "safe_result (name_fits (Some []) AFPC_MAX_NAME_BYTES) ?P" by simp
    show ?thesis
    proof (cases ?P)
      case (Malformed s)
      then have "length (the (bs_name s)) < AFPC_MAX_NAME_BYTES" using fits by (auto simp: name_fits_def)
      from room(6) [OF 3(2) this, of "bs_entry s"] show ?thesis
        using put_record_grows [OF room(2)] grows_trans [OF room(1)] unfolding step Malformed by (auto simp: loop_result_def)
    next
      case (Parsed s)
      then have "length (the (bs_name s)) < AFPC_MAX_NAME_BYTES" using fits by (auto simp: name_fits_def)
      from room(7) [OF 3(2) this, of "bs_entry s"] obtain l2
        where l2: "Option.bind (put_record (bs_entry s) (the (bs_name s)) l1) listing_commit = Some l2" by blast
      note g = put_commit_grows [OF room(2) l2]
      have "wf_listing l2" using g by (simp add: grows_def)
      from loop_result_advance [OF grows_trans [OF room(1)] _ Suc.IH [OF this], of "p + es"] show ?thesis
        unfolding step Parsed using l2 g room(3) by simp
    qed (use fits in simp)
  qed
qed (simp add: loop_result_def grows_refl)

lemma enumerate_reply_atomic:
  assumes "bsize \<le> length buf" "wf_listing l"
  shows "\<exists>r l'. enumerate_reply malloc_ok ses ext buf bsize l = Some (r, l') \<and> wf_listing l' \<and>
    (if r = 0 then \<exists>new. listed l' = listed l @ new \<and> length new = be_nat (take 2 (drop 20 buf)) else listed l' = listed l)"
proof -
  let ?n = "be_nat (take 2 (drop 20 buf))"
  let ?r = "enumerate_entries malloc_ok ses ext buf bsize (be_nat (take 2 (drop 16 buf)), be_nat (take 2 (drop 18 buf))) ?n 22 l"
  have res: "loop_result l ?n ?r" by (rule enumerate_entries_grows [OF assms])
  consider (bad) l' where "?r = Some (Inl l')" "grows l l'"
    | (good) l' where "?r = Some (Inr l')" "grows l l'" "ls_count l' = ls_count l + ?n"
    using res by (auto simp: loop_result_def split: option.splits sum.splits)
  then show ?thesis
  proof cases
    case bad
    then show ?thesis using rollback_listed [OF assms(2) bad(2)] assms(2) by (simp add: enumerate_reply_def)
  next
    case good
    moreover from good have "wf_listing l'" by (simp add: grows_def)
    ultimately show ?thesis
      using grows_listed [OF assms(2) good(2)] assms(2) by (auto simp: enumerate_reply_def)
  qed
qed

section \<open>Pages as the protocol lays them out\<close>

text \<open>An entry of a page: the file or directory, its names on the wire, their Unix forms, and the bytes
  that pad it.\<close>

record page_item =
  it_entry :: afp_dirent
  it_long :: bytes
  it_utf8 :: bytes
  it_long_unix :: bytes
  it_utf8_unix :: bytes
  it_pad :: bytes

definition item_bitmap :: "nat \<times> nat \<Rightarrow> page_item \<Rightarrow> nat" where
  "item_bitmap bitmaps i = (if de_isdir (it_entry i) = 0 then fst bitmaps else snd bitmaps)"

definition item_block :: "afp_session \<Rightarrow> nat \<times> nat \<Rightarrow> page_item \<Rightarrow> bytes" where
  "item_block ses bitmaps i = encode_block ses (item_bitmap bitmaps i) (it_entry i) (it_long i) (it_utf8 i) @ it_pad i"

definition item_bytes :: "afp_session \<Rightarrow> bool \<Rightarrow> nat \<times> nat \<Rightarrow> page_item \<Rightarrow> bytes" where
  "item_bytes ses ext bitmaps i =
     (let b = item_block ses bitmaps i; n = entry_header ext + length b; isdir = of_nat (de_isdir (it_entry i)) in
      (if ext then be_bytes 2 n @ [isdir, 0] else be_bytes 1 n @ [isdir]) @ b)"

definition wf_item :: "afp_session \<Rightarrow> bool \<Rightarrow> nat \<times> nat \<Rightarrow> page_item \<Rightarrow> bool" where
  "wf_item ses ext bitmaps i \<longleftrightarrow>
     wf_entry ses (item_bitmap bitmaps i) (it_entry i) \<and> de_isdir (it_entry i) < 256 \<and> length (it_long i) < 256 \<and>
     length (item_bytes ses ext bitmaps i) < (if ext then 65536 else 256) \<and>
     convert_name_to_unix (\<lambda>_. True) kFPLongName (it_long i) AFPC_MAX_NAME_BYTES = Some (0, it_long_unix i) \<and>
     convert_name_to_unix (\<lambda>_. True) kFPUTF8Name (it_utf8 i) AFPC_MAX_NAME_BYTES = Some (0, it_utf8_unix i)"

text \<open>A listed entry shows an item.\<close>

definition item_name :: "nat \<times> nat \<Rightarrow> page_item \<Rightarrow> bytes" where
  "item_name bitmaps i = (let bm = item_bitmap bitmaps i in
     if has_bit bm kFPUTF8NameBit then it_utf8_unix i else if has_bit bm kFPLongNameBit then it_long_unix i else [])"

definition shows_item :: "nat \<times> nat \<Rightarrow> page_item \<Rightarrow> afp_dirent \<times> bytes \<Rightarrow> bool" where
  "shows_item bitmaps i x \<longleftrightarrow> carries (item_bitmap bitmaps i) (it_entry i) (fst x) \<and> snd x = cstr (item_name bitmaps i)"

text \<open>Room in the arrays of a listing for \<open>n\<close> more entries.\<close>

definition has_room :: "nat \<Rightarrow> afp_listing \<Rightarrow> bool" where
  "has_room n l \<longleftrightarrow> ls_count l + n \<le> UINT32_MAX div sizeof_dirent \<and> ls_pool_used l + n * AFPC_MAX_NAME_BYTES \<le> UINT32_MAX"

lemma grown_array_all: "need \<le> UINT32_MAX div elem \<Longrightarrow> grown_array (\<lambda>_. True) cap need elem least \<noteq> None"
  by (auto simp: grown_array_def Let_def)

lemma reserve_succeeds:
  assumes "has_room (Suc n) l"
  shows "\<exists>l1. listing_reserve (\<lambda>_. True) 1 AFPC_MAX_NAME_BYTES l = (0, l1)"
proof -
  have "\<exists>l1. reserve_entries (\<lambda>_. True) 1 l = Some l1 \<and> ls_pool l1 = ls_pool l \<and> ls_pool_used l1 = ls_pool_used l"
    using assms grown_array_all [of "ls_count l + 1" sizeof_dirent "length (ls_entries l)" AFP_LISTING_MIN_ENTRIES]
    by (auto simp: reserve_entries_def has_room_def Let_def)
  moreover have "reserve_pool (\<lambda>_. True) AFPC_MAX_NAME_BYTES l1 \<noteq> None"
    if "ls_pool_used l1 = ls_pool_used l" for l1
    using assms that grown_array_all [of "ls_pool_used l + AFPC_MAX_NAME_BYTES" 1 "length (ls_pool l1)" 0]
    by (auto simp: reserve_pool_def has_room_def Let_def)
  ultimately obtain l1 l2 where "reserve_entries (\<lambda>_. True) 1 l = Some l1"
    "reserve_pool (\<lambda>_. True) AFPC_MAX_NAME_BYTES l1 = Some l2" by blast
  then show ?thesis by (simp add: listing_reserve_def)
qed

lemma has_room_next:
  assumes "wf_listing l" "Option.bind (put_record e name l) listing_commit = Some l'" "length name < AFPC_MAX_NAME_BYTES"
    "has_room (Suc n) l"
  shows "has_room n l'"
proof -
  from assms(2) have room: "ls_pool_used l + length name + 1 \<le> length (ls_pool l)"
    by (auto simp: put_record_def split: if_splits)
  then have "ls_pool_used l + length (cstr name) + 1 \<le> UINT32_MAX"
    using assms(1) length_cstr [of name] by (simp add: wf_listing_def)
  then have "ls_pool_used l' = ls_pool_used l + length (cstr name) + 1"
    using assms(2) room pool_after_put(1) [OF room]
    by (auto simp: put_record_def listing_commit_def split: if_splits)
  then show ?thesis
    using assms(3,4) put_commit_grows [OF assms(1,2)] length_cstr [of name] by (simp add: has_room_def)
qed

lemma length_item_bytes: "length (item_bytes ses ext bitmaps i) = entry_header ext + length (item_block ses bitmaps i)"
  by (simp add: item_bytes_def entry_header_def Let_def)

lemma item_on_page:
  assumes "wf_item ses ext bitmaps i" "buf = pre @ item_bytes ses ext bitmaps i @ rest"
  shows "entry_size_isdir ext buf (length pre) = (length (item_bytes ses ext bitmaps i), de_isdir (it_entry i))"
    "drop (length pre + entry_header ext) buf = item_block ses bitmaps i @ rest"
proof -
  define m where "m = length (item_bytes ses ext bitmaps i)"
  have n: "m < (if ext then 65536 else 256)" "de_isdir (it_entry i) < 256"
    using assms(1) by (simp_all add: wf_item_def m_def)
  have b: "item_bytes ses ext bitmaps i =
      (if ext then be_bytes 2 m @ [of_nat (de_isdir (it_entry i)), 0] else be_bytes 1 m @ [of_nat (de_isdir (it_entry i))]) @
      item_block ses bitmaps i"
    unfolding m_def length_item_bytes by (simp add: item_bytes_def Let_def)
  have d: "drop (length pre + k) buf = drop k (item_bytes ses ext bitmaps i @ rest)" for k
    unfolding assms(2) by simp
  show "drop (length pre + entry_header ext) buf = item_block ses bitmaps i @ rest"
    unfolding d b by (simp add: entry_header_def)
  have "drop (length pre) buf = item_bytes ses ext bitmaps i @ rest" using d [of 0] by simp
  moreover have "be_nat [x] = unat x" for x using be_nat_snoc [of "[]" x] by simp
  ultimately show "entry_size_isdir ext buf (length pre) = (length (item_bytes ses ext bitmaps i), de_isdir (it_entry i))"
    using n unfolding entry_size_isdir_def d m_def [symmetric] unfolding b by (cases ext) simp_all
qed

lemma item_parsed:
  assumes "offset_ok ses" "wf_item ses ext bitmaps i"
  shows "\<exists>s. parse_reply_block (\<lambda>_. True) ses (item_block ses bitmaps i @ rest) (length (item_block ses bitmaps i))
      (de_isdir (it_entry i)) (fst bitmaps) (snd bitmaps) (Some []) AFPC_MAX_NAME_BYTES = Parsed s \<and>
    carries (item_bitmap bitmaps i) (it_entry i) (bs_entry s) \<and> bs_name s = Some (item_name bitmaps i)"
proof -
  have w: "wf_entry ses (item_bitmap bitmaps i) (it_entry i)" "length (it_long i) < 256"
    "convert_name_to_unix (\<lambda>_. True) kFPLongName (it_long i) AFPC_MAX_NAME_BYTES = Some (0, it_long_unix i)"
    "convert_name_to_unix (\<lambda>_. True) kFPUTF8Name (it_utf8 i) AFPC_MAX_NAME_BYTES = Some (0, it_utf8_unix i)"
    using assms(2) by (simp_all add: wf_item_def)
  have len: "length (item_block ses bitmaps i) < 65536"
    using assms(2) length_item_bytes [of ses ext bitmaps i] by (auto simp: wf_item_def split: if_splits)
  have fi: "length (de_finderinfo (it_entry i)) = 32" using w(1) by (simp add: wf_entry_def)
  have b: "(if de_isdir (it_entry i) = 0 then item_bitmap bitmaps i else fst bitmaps) = fst bitmaps"
    "(if de_isdir (it_entry i) = 0 then snd bitmaps else item_bitmap bitmaps i) = snd bitmaps"
    by (simp_all add: item_bitmap_def)
  have "0 < AFPC_MAX_NAME_BYTES" by simp
  from parse_reply_block_at [OF fi item_block_def len w(2-4) this, of "fst bitmaps" "snd bitmaps" "[]"] show ?thesis
    unfolding b parse_reply_block_local [OF order_refl] using stored_entry_carries [OF assms(1) w(1)]
    by (auto simp: item_name_def Let_def)
qed

lemma carries_name_off [simp]: "carries bm e (e'\<lparr>de_name_off := n\<rparr>) = carries bm e e'"
  by (simp add: carries_def Let_def)

lemma page_entries:
  assumes "offset_ok ses" "bsize = length pre + length (concat (map (item_bytes ses ext bitmaps) items))"
    "buf = pre @ concat (map (item_bytes ses ext bitmaps) items) @ rest"
    "\<forall>i \<in> set items. wf_item ses ext bitmaps i" "wf_listing l" "has_room (length items) l"
  shows "\<exists>l' new. enumerate_entries (\<lambda>_. True) ses ext buf bsize bitmaps (length items) (length pre) l = Some (Inr l') \<and>
    wf_listing l' \<and> listed l' = listed l @ new \<and> list_all2 (shows_item bitmaps) items new"
  using assms(2-)
proof (induction items arbitrary: pre l)
  case (Cons i items)
  let ?i = "item_bytes ses ext bitmaps i" and ?rest = "concat (map (item_bytes ses ext bitmaps) items) @ rest"
  have w: "wf_item ses ext bitmaps i" using Cons.prems(3) by simp
  have buf: "buf = pre @ ?i @ ?rest" using Cons.prems(2) by simp
  note p = item_on_page [OF w buf]
  have len: "entry_header ext \<le> length ?i" "length ?i \<le> bsize - length pre"
    "length ?i - entry_header ext = length (item_block ses bitmaps i)"
    using Cons.prems(1) length_item_bytes [of ses ext bitmaps i] by simp_all
  obtain s where s: "parse_reply_block (\<lambda>_. True) ses (item_block ses bitmaps i @ ?rest) (length (item_block ses bitmaps i))
      (de_isdir (it_entry i)) (fst bitmaps) (snd bitmaps) (Some []) AFPC_MAX_NAME_BYTES = Parsed s"
    "carries (item_bitmap bitmaps i) (it_entry i) (bs_entry s)" "bs_name s = Some (item_name bitmaps i)"
    using item_parsed [OF assms(1) w] by blast
  have short: "length (item_name bitmaps i) < AFPC_MAX_NAME_BYTES"
    using parse_reply_block_safe [of "length (item_block ses bitmaps i)" "item_block ses bitmaps i @ ?rest" "Some []" AFPC_MAX_NAME_BYTES
      "\<lambda>_. True" ses "de_isdir (it_entry i)" "fst bitmaps" "snd bitmaps"] s by (simp add: name_fits_def)
  have hr: "has_room (Suc (length items)) l" using Cons.prems(5) by simp
  obtain l1 where l1: "listing_reserve (\<lambda>_. True) 1 AFPC_MAX_NAME_BYTES l = (0, l1)" using reserve_succeeds [OF hr] by blast
  note room = room_for_entry [OF Cons.prems(4) l1]
  have hr1: "has_room (Suc (length items)) l1" using hr room(3,5) by (simp add: has_room_def)
  obtain l2 where l2: "Option.bind (put_record (bs_entry s) (item_name bitmaps i) l1) listing_commit = Some l2"
    using room(7) [OF _ short, of "bs_entry s"] by auto
  note g = put_commit_grows [OF room(2) l2]
  have "wf_listing l2" using g by (simp add: grows_def)
  moreover have "has_room (length items) l2" by (rule has_room_next [OF room(2) l2 short hr1])
  ultimately obtain l' new where l': "enumerate_entries (\<lambda>_. True) ses ext buf bsize bitmaps (length items) (length (pre @ ?i)) l2 = Some (Inr l')"
    "wf_listing l'" "listed l' = listed l2 @ new" "list_all2 (shows_item bitmaps) items new"
    using Cons.IH [of "pre @ ?i" l2] Cons.prems(1-3) by auto
  have "enumerate_entries (\<lambda>_. True) ses ext buf bsize bitmaps (Suc (length items)) (length pre) l =
      enumerate_entries (\<lambda>_. True) ses ext buf bsize bitmaps (length items) (length (pre @ ?i)) l2"
    unfolding enumerate_entries.simps(2) p l1 prod.case using len s l2 by simp
  moreover have "listed l2 = listed l @ [((bs_entry s)\<lparr>de_name_off := ls_pool_used l1\<rparr>, cstr (item_name bitmaps i))]"
    using g room(4) by simp
  moreover from this have "list_all2 (shows_item bitmaps) (i # items)
      (((bs_entry s)\<lparr>de_name_off := ls_pool_used l1\<rparr>, cstr (item_name bitmaps i)) # new)"
    using s(2) l'(4) by (simp add: shows_item_def)
  ultimately show ?case using l' by auto
qed simp

text \<open>The payload of a reply to an enumerate command.\<close>

definition page_bytes :: "afp_session \<Rightarrow> bool \<Rightarrow> nat \<times> nat \<Rightarrow> page_item list \<Rightarrow> bytes" where
  "page_bytes ses ext bitmaps items =
     be_bytes 2 (fst bitmaps) @ be_bytes 2 (snd bitmaps) @ be_bytes 2 (length items) @
     concat (map (item_bytes ses ext bitmaps) items)"

lemma raw_error_encode: "hdr_error_code h = 0 \<Longrightarrow> raw_error (encode_header h @ r) = 0"
  by (simp add: raw_error_def encode_header_def be_bytes_numeral s32_def be_nat_def)

lemma page_reply_listed:
  assumes "offset_ok ses" "hdr_error_code h = 0" "fst bitmaps < 65536" "snd bitmaps < 65536" "length items < 65536"
    "\<forall>i \<in> set items. wf_item ses ext bitmaps i" "wf_listing l" "has_room (length items) l"
  shows "\<exists>l' new. enumerate_reply (\<lambda>_. True) ses ext (encode_header h @ page_bytes ses ext bitmaps items @ rest)
      (16 + length (page_bytes ses ext bitmaps items)) l = Some (0, l') \<and>
    wf_listing l' \<and> listed l' = listed l @ new \<and> list_all2 (shows_item bitmaps) items new"
proof -
  let ?items = "concat (map (item_bytes ses ext bitmaps) items)"
  let ?pre = "encode_header h @ be_bytes 2 (fst bitmaps) @ be_bytes 2 (snd bitmaps) @ be_bytes 2 (length items)"
  let ?buf = "encode_header h @ page_bytes ses ext bitmaps items @ rest" and ?n = "16 + length (page_bytes ses ext bitmaps items)"
  have buf: "?buf = ?pre @ ?items @ rest" by (simp add: page_bytes_def)
  have n: "?n = length ?pre + length ?items" "\<not> ?n < 16" "\<not> ?n < 22" by (simp_all add: page_bytes_def)
  have d: "be_nat (take 2 (drop 16 ?buf)) = fst bitmaps" "be_nat (take 2 (drop 18 ?buf)) = snd bitmaps"
    "be_nat (take 2 (drop 20 ?buf)) = length items"
    using assms(3-5) by (simp_all add: page_bytes_def)
  have "length ?pre = 22" by simp
  from page_entries [OF assms(1) n(1) buf assms(6-8), unfolded this] show ?thesis
    using raw_error_encode [OF assms(2)] n(2,3) unfolding enumerate_reply_def d prod.collapse by auto
qed

section \<open>Properties\<close>

text \<open>C20: a page is taken whole or not at all. Whatever bytes a server sends as the reply to an
  enumerate command, of either layout, the parser reads only the frame, writes only the listing, and
  either adds exactly as many entries as the reply announces behind those there, or returns an error
  with the listing's entries and names as they were, also when memory runs out in the middle.\<close>
theorem enumerate_all_or_nothing:
  assumes "bsize \<le> length buf" "wf_listing l"
  shows "\<exists>r l'. enumerate_reply malloc_ok ses ext buf bsize l = Some (r, l') \<and> wf_listing l' \<and>
    (if r = 0 then \<exists>new. listed l' = listed l @ new \<and> length new = be_nat (take 2 (drop 20 buf)) else listed l' = listed l)"
  by (rule enumerate_reply_atomic [OF assms])

theorem enumerate_all_or_nothing_witness:
  "\<exists>l'. enumerate_reply (\<lambda>_. True) plain_session True (replicate 21 0 @ [1]) 22 two_files = Some (-1, l') \<and>
    listed l' = listed two_files"
proof -
  let ?b = "replicate 21 0 @ [1] :: bytes"
  have b: "?b = [0,0,0,0,0,0,0,0,0,0,0,0,0,0,0,0,0,0,0,0,0,1]" by (simp add: numeral_eq_Suc)
  have "raw_error ?b = 0" unfolding b by (simp add: raw_error_def s32_def be_nat_def)
  moreover have "be_nat (take 2 (drop 20 ?b)) = Suc 0" unfolding b by (simp add: be_nat_def)
  ultimately have "fst (the (enumerate_reply (\<lambda>_. True) plain_session True ?b 22 two_files)) = -1"
    by (simp add: enumerate_reply_def entry_header_def)
  then show ?thesis using enumerate_all_or_nothing [of 22 ?b two_files "\<lambda>_. True" plain_session True] wf_two_files by auto
qed

text \<open>C21: a page is listed. For every list of files and directories whose values the blocks hold, and
  both layouts, the page laid out for them is added entry by entry in its order: each entry has the
  members its bitmap names, and the name converted to Unix form.\<close>
theorem page_round_trip:
  assumes "offset_ok ses" "hdr_error_code h = 0" "fst bitmaps < 65536" "snd bitmaps < 65536" "length items < 65536"
    "\<forall>i \<in> set items. wf_item ses ext bitmaps i" "wf_listing l" "has_room (length items) l"
  shows "\<exists>l' new. enumerate_reply (\<lambda>_. True) ses ext (encode_header h @ page_bytes ses ext bitmaps items @ rest)
      (16 + length (page_bytes ses ext bitmaps items)) l = Some (0, l') \<and>
    wf_listing l' \<and> listed l' = listed l @ new \<and> list_all2 (shows_item bitmaps) items new"
  by (rule page_reply_listed [OF assms])

definition sample_item :: page_item where
  "sample_item = \<lparr>it_entry = sample_entry, it_long = [], it_utf8 = [0x61], it_long_unix = [], it_utf8_unix = [0x61], it_pad = [0]\<rparr>"

lemma sample_block: "length (item_block plain_session (0x2900, 0) sample_item) < 200"
  by (simp add: item_block_def item_bitmap_def sample_item_def encode_block_def fixed_part_def fields_bytes_def first_fields_def
      middle_fields_def last_fields_def field_defs has_bit_def sample_entry_def no_entry_def param_bytes_def Let_def)

lemma wf_sample_item: "wf_item plain_session ext (0x2900, 0) sample_item"
proof -
  have c: "convert_name_to_unix (\<lambda>_. True) kFPLongName [] AFPC_MAX_NAME_BYTES = Some (0, [])"
    "convert_name_to_unix (\<lambda>_. True) kFPUTF8Name [0x61] AFPC_MAX_NAME_BYTES = Some (0, [0x61])"
    by (simp_all add: convert_name_to_unix_def convert_mac_roman_to_utf8_def copy_identity_def
        utf8_is_ascii_def unix_name_bytes_def cstr_def)
  show ?thesis
    using wf_sample_entry sample_block c length_item_bytes [of plain_session ext "(0x2900, 0)" sample_item]
    by (simp add: wf_item_def item_bitmap_def entry_header_def sample_item_def)
      (simp add: sample_entry_def no_entry_def)
qed

theorem page_round_trip_witness:
  "\<exists>l'. enumerate_reply (\<lambda>_. True) plain_session True
      (encode_header (reply_header 1 0 0) @ page_bytes plain_session True (0x2900, 0) [sample_item] @ [])
      (16 + length (page_bytes plain_session True (0x2900, 0) [sample_item])) empty_listing = Some (0, l') \<and>
    map snd (listed l') = [[0x61]]"
proof -
  have "has_room 1 empty_listing" by (simp add: has_room_def empty_listing_def)
  then show ?thesis
    using page_round_trip [OF offset_ok_plain, of "reply_header 1 0 0" "(0x2900, 0)" "[sample_item]" True empty_listing "[]"] wf_sample_item [of True]
    by (auto simp: reply_header_def list_all2_Cons1 shows_item_def item_name_def item_bitmap_def sample_item_def sample_entry_def
        no_entry_def has_bit_def Let_def cstr_def)
qed

end
