(* ===== verification/Reply_Safety.thy ===== *)
theory Reply_Safety
  imports Enumerate
begin

text \<open>
  Every reply parser of the table \<open>afp_replies\<close> but one is safe for every frame: with the object its
  command waits with, \<open>afp_reply\<close> reads inside the receive buffer, writes inside the object, and leaves
  an object of the same type. The exceptions and the parsers that refuse every good reply follow.
\<close>

section \<open>Objects by command\<close>

datatype obj_kind = K_null | K_rx | K_u16 | K_u32 | K_u64 | K_listing | K_dirent | K_file | K_volume | K_uidgid | K_chars
  | K_token | K_data | K_icon_info | K_appl

fun kind_of :: "reply_obj \<Rightarrow> obj_kind" where
  "kind_of (Obj_u16 _) = K_u16"
| "kind_of (Obj_u32 _) = K_u32"
| "kind_of (Obj_u64 _) = K_u64"
| "kind_of (Obj_listing _) = K_listing"
| "kind_of (Obj_dirent _) = K_dirent"
| "kind_of (Obj_file _) = K_file"
| "kind_of (Obj_volume _) = K_volume"
| "kind_of (Obj_uidgid _ _) = K_uidgid"
| "kind_of (Obj_chars _) = K_chars"
| "kind_of (Obj_token _) = K_token"
| "kind_of (Obj_data _) = K_data"
| "kind_of (Obj_icon_info _) = K_icon_info"
| "kind_of (Obj_appl _) = K_appl"

fun dest_kind :: "reply_obj dest \<Rightarrow> obj_kind" where
  "dest_kind Dest_null = K_null"
| "dest_kind (Dest_rx _) = K_rx"
| "dest_kind (Dest_obj x) = kind_of x"

text \<open>The objects the callers of a command pass; a parser without an object takes any.\<close>

definition takes_kind :: "nat \<Rightarrow> obj_kind \<Rightarrow> bool" where
  "takes_kind sub k =
     (if sub \<in> {1, 6, 22} then k = K_u32
      else if sub \<in> {9, 66, 68} then k = K_listing
      else if sub \<in> {17, 24} then k = K_volume
      else if sub \<in> {18, 19, 36, 63} then k \<in> {K_null, K_rx}
      else if sub = 21 then k = K_chars
      else if sub = 26 then k = K_file
      else if sub \<in> {27, 60} then k = K_rx
      else if sub = 33 then k \<in> {K_null, K_u32}
      else if sub = 34 then k = K_dirent
      else if sub = 37 then k = K_uidgid
      else if sub = 38 then k \<in> {K_null, K_chars}
      else if sub = 48 then k = K_u16
      else if sub \<in> {51, 58} then k = K_data
      else if sub = 52 then k = K_icon_info
      else if sub = 55 then k = K_appl
      else if sub = 59 then k = K_u64
      else if sub = 61 then k \<in> {K_null, K_u64}
      else if sub = 64 then k \<in> {K_null, K_token}
      else if sub \<in> {69, 72} then k \<in> {K_null, K_data}
      else True)"

text \<open>An object has the room its members say.\<close>

fun wf_dest :: "reply_obj dest \<Rightarrow> bool" where
  "wf_dest (Dest_rx b) \<longleftrightarrow> rx_maxsize b \<le> length (rx_data b)"
| "wf_dest (Dest_obj (Obj_listing l)) \<longleftrightarrow> wf_listing l"
| "wf_dest (Dest_obj (Obj_data i)) \<longleftrightarrow> da_maxsize i \<le> length (da_data i)"
| "wf_dest (Dest_obj (Obj_token t)) \<longleftrightarrow> tok_length t \<le> AFP_TOKEN_MAX_LEN \<and> length (tok_data t) = AFP_TOKEN_MAX_LEN"
| "wf_dest (Dest_obj (Obj_chars c)) \<longleftrightarrow> AFP_LOGINMESG_LEN \<le> length c"
| "wf_dest _ \<longleftrightarrow> True"

definition typed_result :: "reply_obj dest \<Rightarrow> (int \<times> reply_obj dest) option \<Rightarrow> bool" where
  "typed_result oth r \<longleftrightarrow> (\<exists>rc oth'. r = Some (rc, oth') \<and> dest_kind oth' = dest_kind oth \<and> wf_dest oth')"

lemma typed_resultI [intro]: "dest_kind oth' = dest_kind oth \<Longrightarrow> wf_dest oth' \<Longrightarrow> typed_result oth (Some (rc, oth'))"
  by (simp add: typed_result_def)

section \<open>Parsers\<close>

lemma copy_out_fits:
  "off + n \<le> length buf \<Longrightarrow> n \<le> length dest \<Longrightarrow>
    copy_out buf off n dest = Some (write_at dest 0 (take n (drop off buf))) \<and>
    length (write_at dest 0 (take n (drop off buf))) = length dest"
  by (simp add: copy_out_def)

lemma read_reply_typed:
  assumes "bsize \<le> length buf" "rx_maxsize rx \<le> length (rx_data rx)"
  shows "\<exists>rc rx'. read_reply buf bsize rx = Some (rc, rx') \<and> rx_maxsize rx' \<le> length (rx_data rx')"
proof (cases "bsize < 16")
  case False
  then have "16 + min (bsize - 16) (rx_maxsize rx) \<le> length buf" "min (bsize - 16) (rx_maxsize rx) \<le> length (rx_data rx)"
    using assms by linarith+
  from copy_out_fits [OF this] show ?thesis using False assms(2) by (simp add: read_reply_def Let_def)
qed (use assms in \<open>simp add: read_reply_def\<close>)

lemma login_reply_typed:
  assumes "bsize \<le> length buf" "16 \<le> bsize" "rx_maxsize rx \<le> length (rx_data rx)"
  shows "\<exists>rc rx'. login_reply buf bsize (Some rx) = Some (rc, Some rx') \<and> rx_maxsize rx' \<le> length (rx_data rx')"
proof -
  have "16 + min (bsize - 16) (rx_maxsize rx) \<le> length buf" "min (bsize - 16) (rx_maxsize rx) \<le> length (rx_data rx)"
    using assms by linarith+
  from copy_out_fits [OF this] show ?thesis using assms(3) by (simp add: login_reply_def Let_def)
qed

lemma extattr_reply_typed:
  assumes "bsize \<le> length buf" "da_maxsize i \<le> length (da_data i)"
  shows "\<exists>rc i'. listextattrs_reply buf bsize (Some i) = Some (rc, Some i') \<and> da_maxsize i' \<le> length (da_data i')"
proof (cases "bsize < 22")
  case False
  let ?n = "min (da_maxsize i) (min (be_nat (take 4 (drop 18 buf))) (bsize - 22))"
  have "22 + ?n \<le> length buf" "?n \<le> length (da_data i)" using assms False by linarith+
  from copy_out_fits [OF this] show ?thesis using False assms(2) by (simp add: listextattrs_reply_def Let_def)
qed (use assms in \<open>simp add: listextattrs_reply_def Let_def\<close>)

lemma geticon_reply_typed:
  assumes "bsize \<le> length buf" "da_maxsize i \<le> length (da_data i)"
  shows "\<exists>rc i'. geticon_reply buf bsize i = Some (rc, i') \<and> da_maxsize i' \<le> length (da_data i')"
proof (cases "bsize < 16 \<or> bsize - 16 > da_maxsize i")
  case False
  then have "16 + (bsize - 16) \<le> length buf" "bsize - 16 \<le> length (da_data i)" using assms by linarith+
  from copy_out_fits [OF this] show ?thesis using False assms(2) by (simp add: geticon_reply_def)
qed (use assms in \<open>auto simp: geticon_reply_def\<close>)

lemma getcomment_reply_typed:
  assumes "bsize \<le> length buf" "da_maxsize i \<le> length (da_data i)"
  shows "\<exists>rc i'. getcomment_reply buf bsize i = Some (rc, i') \<and> da_maxsize i' \<le> length (da_data i')"
proof -
  let ?n = "be_nat (take 1 (drop 16 buf))"
  show ?thesis
  proof (cases "bsize < 17 \<or> ?n > bsize - 17 \<or> ?n > da_maxsize i")
    case False
    then have "17 + ?n \<le> length buf" "?n \<le> length (da_data i)" using assms by linarith+
    from copy_out_fits [OF this] show ?thesis using False assms(2) by (simp add: getcomment_reply_def Let_def)
  qed (use assms in \<open>auto simp: getcomment_reply_def Let_def\<close>)
qed

lemma getsessiontoken_reply_typed:
  assumes "AFP_BUFSIZE \<le> length buf" "tok_length t \<le> AFP_TOKEN_MAX_LEN" "length (tok_data t) = AFP_TOKEN_MAX_LEN"
  shows "\<exists>rc t'. getsessiontoken_reply buf (Some t) = Some (rc, Some t') \<and> tok_length t' \<le> AFP_TOKEN_MAX_LEN \<and>
    length (tok_data t') = AFP_TOKEN_MAX_LEN"
proof (cases "be_nat (take 4 (drop 16 buf)) > AFP_TOKEN_MAX_LEN")
  case False
  then have "20 + be_nat (take 4 (drop 16 buf)) \<le> length buf" "be_nat (take 4 (drop 16 buf)) \<le> length (tok_data t)"
    using assms by linarith+
  from copy_out_fits [OF this] show ?thesis using False assms by (simp add: getsessiontoken_reply_def rd_def)
qed (use assms in \<open>simp add: getsessiontoken_reply_def rd_def\<close>)

lemma block_not_overrun:
  "bsize \<le> length buf \<Longrightarrow> name = None \<or> 0 < name_len \<Longrightarrow>
    parse_reply_block malloc_ok ses buf bsize isdir fb db name name_len \<noteq> Overrun"
  using parse_reply_block_safe [of bsize buf name name_len malloc_ok ses isdir fb db] by auto

lemma getfiledirparms_reply_returns: "bsize \<le> length buf \<Longrightarrow> \<exists>rc e'. getfiledirparms_reply malloc_ok ses buf bsize e = Some (rc, e')"
  using block_not_overrun [of "bsize - 22" "drop 22 buf" None]
  by (auto simp: getfiledirparms_reply_def split: parsed.split)

lemma openfork_reply_returns:
  "bsize \<le> length buf \<Longrightarrow> AFP_BUFSIZE \<le> length buf \<Longrightarrow> \<exists>rc fp'. openfork_reply malloc_ok ses buf bsize fp = Some (rc, fp')"
  using block_not_overrun [of "bsize - 20" "drop 20 buf" None]
  by (auto simp: openfork_reply_def Let_def split: parsed.split)

lemma getappl_reply_returns: "bsize \<le> length buf \<Longrightarrow> \<exists>rc a'. getappl_reply malloc_ok ses buf bsize a = Some (rc, a')"
  using block_not_overrun [of "bsize - 22" "drop 22 buf" "Some []" AFPC_MAX_NAME_BYTES]
  by (auto simp: getappl_reply_def Let_def split: parsed.split)

text \<open>A volume's parameters take at most the sum of their widths, whatever the frame's length.\<close>

lemma read_volume_fields_returns:
  "p + sum_list (map (fst \<circ> snd) fs) \<le> length buf \<Longrightarrow> \<exists>v'. read_volume_fields bitmap fs buf p v = Some v'"
proof (induction fs arbitrary: p v)
  case (Cons f fs)
  obtain b w st where f: "f = (b, w, st)" by (cases f) auto
  show ?case using Cons.prems Cons.IH [of "p + w" "st (be_nat (take w (drop p buf))) v"] Cons.IH [of p v]
    by (auto simp: f rd_def)
qed simp

lemma parse_volbitmap_reply_returns:
  "AFP_BUFSIZE \<le> length buf \<Longrightarrow> \<exists>v'. parse_volbitmap_reply ses bitmap buf 18 v = Some v'"
  unfolding parse_volbitmap_reply_def by (rule read_volume_fields_returns) (simp add: volume_fields_def)

lemma printable_name_returns: "\<exists>v'. printable_name malloc_ok utf8 v = Some v'"
  using convert_utf8dec_to_utf8pre_safe [of malloc_ok "cstr (take AFP_VOLUME_NAME_UTF8_LEN (vol_name v))" AFP_VOLUME_NAME_UTF8_LEN]
  by (auto simp: printable_name_def Let_def split: prod.split option.split)

lemma volopen_reply_returns: "AFP_BUFSIZE \<le> length buf \<Longrightarrow> \<exists>rc v'. volopen_reply malloc_ok ses buf bsize v = Some (rc, v')"
proof -
  assume "AFP_BUFSIZE \<le> length buf"
  then obtain v1 where "parse_volbitmap_reply ses (be_nat (take 2 (drop 16 buf))) buf 18 v = Some v1"
    using parse_volbitmap_reply_returns by blast
  then show ?thesis
    using printable_name_returns [of malloc_ok "has_bit (vol_attributes v1) kSupportsUTF8Names" v1]
    by (auto simp: volopen_reply_def)
qed

lemma getvolparms_reply_returns: "AFP_BUFSIZE \<le> length buf \<Longrightarrow> \<exists>rc v'. getvolparms_reply ses buf bsize v = Some (rc, v')"
  using parse_volbitmap_reply_returns [of buf ses "be_nat (take 2 (drop 16 buf))" v] by (auto simp: getvolparms_reply_def)

section \<open>The table\<close>

lemma dest_kind_cases:
  "dest_kind oth = K_null \<Longrightarrow> oth = Dest_null"
  "dest_kind oth = K_rx \<Longrightarrow> \<exists>b. oth = Dest_rx b"
  "dest_kind oth = K_u16 \<Longrightarrow> \<exists>x. oth = Dest_obj (Obj_u16 x)"
  "dest_kind oth = K_u32 \<Longrightarrow> \<exists>x. oth = Dest_obj (Obj_u32 x)"
  "dest_kind oth = K_u64 \<Longrightarrow> \<exists>x. oth = Dest_obj (Obj_u64 x)"
  "dest_kind oth = K_listing \<Longrightarrow> \<exists>x. oth = Dest_obj (Obj_listing x)"
  "dest_kind oth = K_dirent \<Longrightarrow> \<exists>x. oth = Dest_obj (Obj_dirent x)"
  "dest_kind oth = K_file \<Longrightarrow> \<exists>x. oth = Dest_obj (Obj_file x)"
  "dest_kind oth = K_volume \<Longrightarrow> \<exists>x. oth = Dest_obj (Obj_volume x)"
  "dest_kind oth = K_uidgid \<Longrightarrow> \<exists>x y. oth = Dest_obj (Obj_uidgid x y)"
  "dest_kind oth = K_chars \<Longrightarrow> \<exists>x. oth = Dest_obj (Obj_chars x)"
  "dest_kind oth = K_token \<Longrightarrow> \<exists>x. oth = Dest_obj (Obj_token x)"
  "dest_kind oth = K_data \<Longrightarrow> \<exists>x. oth = Dest_obj (Obj_data x)"
  "dest_kind oth = K_icon_info \<Longrightarrow> \<exists>x. oth = Dest_obj (Obj_icon_info x)"
  "dest_kind oth = K_appl \<Longrightarrow> \<exists>x. oth = Dest_obj (Obj_appl x)"
  by (cases oth; auto elim: kind_of.elims)+

text \<open>Each way a parser is applied to its object keeps the object's type when the parser returns.\<close>

lemma on_u16_typed: "dest_kind oth = K_u16 \<Longrightarrow> typed_result oth (on_u16 f oth)"
  using dest_kind_cases(3) [of oth] by (auto simp: on_u16_def typed_result_def split: prod.split)

lemma on_u32_typed: "dest_kind oth = K_u32 \<Longrightarrow> (\<And>x. \<exists>rc y. f x = Some (rc, y)) \<Longrightarrow> typed_result oth (on_u32 f oth)"
  using dest_kind_cases(4) [of oth] by (fastforce simp: on_u32_def typed_result_def)

lemma on_u64_typed: "dest_kind oth = K_u64 \<Longrightarrow> typed_result oth (on_u64 f oth)"
  using dest_kind_cases(5) [of oth] by (auto simp: on_u64_def typed_result_def split: prod.split)

lemma on_listing_typed:
  "dest_kind oth = K_listing \<Longrightarrow> wf_dest oth \<Longrightarrow> (\<And>l. wf_listing l \<Longrightarrow> \<exists>rc l'. f l = Some (rc, l') \<and> wf_listing l')
    \<Longrightarrow> typed_result oth (on_listing f oth)"
  using dest_kind_cases(6) [of oth] by (fastforce simp: on_listing_def typed_result_def)

lemma on_volume_typed:
  "dest_kind oth = K_volume \<Longrightarrow> (\<And>v. \<exists>rc v'. f v = Some (rc, v')) \<Longrightarrow> typed_result oth (on_volume f oth)"
  using dest_kind_cases(9) [of oth] by (fastforce simp: on_volume_def typed_result_def)

lemma on_data_typed:
  "dest_kind oth = K_data \<Longrightarrow> wf_dest oth \<Longrightarrow>
    (\<And>i. da_maxsize i \<le> length (da_data i) \<Longrightarrow> \<exists>rc i'. f i = Some (rc, i') \<and> da_maxsize i' \<le> length (da_data i'))
    \<Longrightarrow> typed_result oth (on_data f oth)"
  using dest_kind_cases(13) [of oth] by (fastforce simp: on_data_def typed_result_def)

lemma on_rx_typed:
  "dest_kind oth = K_rx \<Longrightarrow> wf_dest oth \<Longrightarrow>
    (\<And>b. rx_maxsize b \<le> length (rx_data b) \<Longrightarrow> \<exists>rc b'. f b = Some (rc, b') \<and> rx_maxsize b' \<le> length (rx_data b'))
    \<Longrightarrow> typed_result oth (case oth of Dest_rx b \<Rightarrow> map_option (map_prod id Dest_rx) (f b) | _ \<Rightarrow> None)"
  using dest_kind_cases(2) [of oth] by (fastforce simp: typed_result_def)

lemma on_rx_or_null_typed:
  assumes "dest_kind oth \<in> {K_null, K_rx}" "wf_dest oth" "\<exists>rc. f None = Some (rc, None)"
    "\<And>b. rx_maxsize b \<le> length (rx_data b) \<Longrightarrow> \<exists>rc b'. f (Some b) = Some (rc, Some b') \<and> rx_maxsize b' \<le> length (rx_data b')"
  shows "typed_result oth (on_rx_or_null f oth)"
  using assms(1-3) assms(4) dest_kind_cases(1,2) [of oth] by (fastforce simp: on_rx_or_null_def typed_result_def)

lemma on_data_or_null_typed:
  assumes "dest_kind oth \<in> {K_null, K_data}" "wf_dest oth" "\<exists>rc. f None = Some (rc, None)"
    "\<And>i. da_maxsize i \<le> length (da_data i) \<Longrightarrow> \<exists>rc i'. f (Some i) = Some (rc, Some i') \<and> da_maxsize i' \<le> length (da_data i')"
  shows "typed_result oth (on_data_or_null f oth)"
  using assms(1-3) assms(4) dest_kind_cases(1,13) [of oth] by (fastforce simp: on_data_or_null_def typed_result_def)

lemma on_token_or_null_typed:
  assumes "dest_kind oth \<in> {K_null, K_token}" "wf_dest oth" "\<exists>rc. f None = Some (rc, None)"
    "\<And>t. tok_length t \<le> AFP_TOKEN_MAX_LEN \<Longrightarrow> length (tok_data t) = AFP_TOKEN_MAX_LEN \<Longrightarrow>
      \<exists>rc t'. f (Some t) = Some (rc, Some t') \<and> tok_length t' \<le> AFP_TOKEN_MAX_LEN \<and> length (tok_data t') = AFP_TOKEN_MAX_LEN"
  shows "typed_result oth (on_token_or_null f oth)"
  using assms(1-3) assms(4) dest_kind_cases(1,12) [of oth] by (fastforce simp: on_token_or_null_def typed_result_def)

lemma typed_if:
  "(c \<Longrightarrow> typed_result oth a) \<Longrightarrow> (\<not> c \<Longrightarrow> typed_result oth b) \<Longrightarrow> typed_result oth (if c then a else b)"
  by simp

lemma enumerate_reply_returns:
  "bsize \<le> length buf \<Longrightarrow> wf_listing l \<Longrightarrow>
    \<exists>rc l'. enumerate_reply malloc_ok ses ext buf bsize l = Some (rc, l') \<and> wf_listing l'"
  using enumerate_reply_atomic by blast

lemma mapname_reply_returns: "AFP_BUFSIZE \<le> length buf \<Longrightarrow> \<exists>rc y. mapname_reply buf bsize x = Some (rc, y)"
  by (auto simp: mapname_reply_def rd_def)

lemma object_reply_typed:
  assumes "bsize \<le> length buf" "AFP_BUFSIZE \<le> length buf" "16 \<le> bsize"
    and k: "takes_kind sub (dest_kind oth)" and w: "wf_dest oth" and m: "sub \<noteq> 21"
  shows "typed_result oth (object_reply malloc_ok ses sub buf bsize oth)"
  unfolding object_reply_def
proof (intro typed_if)
  assume s: "sub = 26"
  then obtain fp where "oth = Dest_obj (Obj_file fp)" using k dest_kind_cases(8) [of oth] by (auto simp: takes_kind_def)
  then show "typed_result oth (case oth of Dest_obj (Obj_file fp) \<Rightarrow>
      map_option (map_prod id (Dest_obj \<circ> Obj_file)) (openfork_reply malloc_ok ses buf bsize fp) | _ \<Rightarrow> None)"
    using openfork_reply_returns [OF assms(1,2), of malloc_ok ses fp] by (auto simp: typed_result_def)
next
  assume s: "sub = 34"
  then obtain e where "oth = Dest_obj (Obj_dirent e)" using k dest_kind_cases(7) [of oth] by (auto simp: takes_kind_def)
  then show "typed_result oth (case oth of Dest_obj (Obj_dirent e) \<Rightarrow>
      map_option (map_prod id (Dest_obj \<circ> Obj_dirent)) (getfiledirparms_reply malloc_ok ses buf bsize e) | _ \<Rightarrow> None)"
    using getfiledirparms_reply_returns [OF assms(1), of malloc_ok ses e] by (auto simp: typed_result_def)
next
  assume s: "sub = 55"
  then obtain a where "oth = Dest_obj (Obj_appl a)" using k dest_kind_cases(15) [of oth] by (auto simp: takes_kind_def)
  then show "typed_result oth (case oth of Dest_obj (Obj_appl a) \<Rightarrow>
      map_option (map_prod id (Dest_obj \<circ> Obj_appl)) (getappl_reply malloc_ok ses buf bsize a) | _ \<Rightarrow> None)"
    using getappl_reply_returns [OF assms(1), of malloc_ok ses a] by (auto simp: typed_result_def)
next
  assume s: "sub = 37"
  then obtain u g where "oth = Dest_obj (Obj_uidgid u g)" using k dest_kind_cases(10) [of oth] by (auto simp: takes_kind_def)
  then show "typed_result oth (case oth of Dest_obj (Obj_uidgid _ _) \<Rightarrow>
      (case getuserinfo_reply buf bsize of (r, u, g) \<Rightarrow> Some (r, Dest_obj (Obj_uidgid u g))) | _ \<Rightarrow> None)"
    by (auto simp: typed_result_def split: prod.split)
next
  assume s: "sub = 52"
  then obtain i where "oth = Dest_obj (Obj_icon_info i)" using k dest_kind_cases(14) [of oth] by (auto simp: takes_kind_def)
  then show "typed_result oth (case oth of Dest_obj (Obj_icon_info i) \<Rightarrow>
      (case geticoninfo_reply buf bsize i of (r, i') \<Rightarrow> Some (r, Dest_obj (Obj_icon_info i'))) | _ \<Rightarrow> None)"
    by (auto simp: typed_result_def split: prod.split)
next
  assume s: "sub = 33"
  then have "dest_kind oth = K_null \<or> dest_kind oth = K_u32" using k by (auto simp: takes_kind_def)
  then show "typed_result oth (case oth of Dest_null \<Rightarrow> Some (0, oth) | _ \<Rightarrow> on_u32 (\<lambda>_. Some (0, write_reply buf bsize)) oth)"
    using dest_kind_cases(1,4) [of oth] by (auto simp: typed_result_def on_u32_def)
next
  assume s: "sub = 61"
  then have "dest_kind oth = K_null \<or> dest_kind oth = K_u64" using k by (auto simp: takes_kind_def)
  then show "typed_result oth (case oth of Dest_null \<Rightarrow> Some (0, oth) | _ \<Rightarrow> on_u64 (\<lambda>_. (0, writeext_reply buf bsize)) oth)"
    using dest_kind_cases(1,5) [of oth] by (auto simp: typed_result_def on_u64_def)
qed (use k w m assms(1-3) in \<open>auto simp: takes_kind_def mapname_reply_returns login_reply_def [of _ _ None] changepassword_reply_def
    readext_reply_def getextattr_reply_def listextattrs_reply_def [of _ _ None] getsessiontoken_reply_def [of _ None]
    afp_enumerate_reply_def afp_enumerateext2_reply_def rd_def
    intro!: on_u16_typed on_u32_typed on_u64_typed on_listing_typed on_volume_typed on_data_typed on_rx_typed on_rx_or_null_typed
      on_data_or_null_typed on_token_or_null_typed read_reply_typed login_reply_typed extattr_reply_typed geticon_reply_typed
      getcomment_reply_typed getsessiontoken_reply_typed enumerate_reply_returns volopen_reply_returns getvolparms_reply_returns\<close>)

text \<open>The parsers that change the server's state.\<close>

lemma srvrparms_volumes_returns:
  "p + 258 * n \<le> length buf \<Longrightarrow> \<exists>r. srvrparms_volumes malloc_ok version buf bsize n p = Some r"
proof (induction n arbitrary: p)
  case (Suc n)
  obtain l d where l: "copy_from_pascal (vol_name new_volume) (Some (drop (p + 1) buf)) AFP_VOLUME_NAME_UTF8_LEN = Some (l, d)" "l < 256"
    using copy_from_pascal_safe [of "p + 1" buf AFP_VOLUME_NAME_UTF8_LEN "vol_name new_volume"] Suc.prems by (auto simp: new_volume_def)
  have "p + 1 + (l + 1) + 258 * n \<le> length buf" using Suc.prems l(2) by simp
  from Suc.IH [OF this] show ?case
    using l(1) printable_name_returns [of malloc_ok "30 \<le> version" "new_volume\<lparr>vol_flags := be_nat (take 1 (drop p buf)), vol_name := d\<rparr>"]
    by (auto split: option.split)
qed simp

lemma getsrvrparms_reply_returns:
  assumes "AFP_BUFSIZE \<le> length buf" "ses_version (pr_session pr) = Some v"
  shows "\<exists>rc pr'. getsrvrparms_reply malloc_ok now buf bsize pr = Some (rc, pr') \<and> pr_mesg pr' = pr_mesg pr \<and>
    ses_version (pr_session pr') = Some v"
proof -
  let ?n = "be_nat (take 1 (drop 20 buf))"
  have "?n < 256 ^ length (take 1 (drop 20 buf))" by (rule be_nat_bound)
  then have "?n < 256" using assms(1) by simp
  then have "21 + 258 * ?n \<le> length buf" using assms(1) by linarith
  from srvrparms_volumes_returns [OF this, of malloc_ok v bsize] show ?thesis
    using assms(2) by (auto simp: getsrvrparms_reply_def Let_def split: sum.split)
qed

lemma copy_from_pascal_two_safe:
  assumes "p + 2 + max_len \<le> length buf" "max_len \<le> length dest" "0 < max_len" "max_len < 65536"
  shows "\<exists>l d. copy_from_pascal_two dest (Some (drop p buf)) max_len = Some (l, d) \<and> length d = length dest"
proof -
  define src where "src = drop p buf"
  define l where "l = be_nat (take 2 src)"
  define c where "c = (if l \<ge> max_len then u16 (max_len - 1) else l)"
  have len: "2 + max_len \<le> length src" using assms(1) by (simp add: src_def)
  have c: "c < max_len" using assms(3,4) by (simp add: c_def)
  have r: "rd 2 src 0 = Some l" "rd_bytes src 2 c = Some (take c (drop 2 src))"
    using len c by (simp_all add: rd_def rd_bytes_def l_def)
  have "copy_from_pascal_two dest (Some src) max_len = (if l = 0 then Some (0, dest)
      else Some (l, write_at (write_at dest 0 (replicate max_len 0)) 0 (take c (drop 2 src))))"
    using assms(2,3) r unfolding copy_from_pascal_two_def Let_def by (simp add: c_def [symmetric])
  then show ?thesis unfolding src_def [symmetric] using c assms(2) by simp
qed

lemma getsrvrmsg_reply_returns:
  assumes "AFP_BUFSIZE \<le> length buf" "length mesg = AFP_LOGINMESG_LEN"
  shows "\<exists>rc mesg'. getsrvrmsg_reply buf bsize None mesg = Some (rc, None, mesg') \<and> length mesg' = AFP_LOGINMESG_LEN"
    "AFP_LOGINMESG_LEN \<le> length d \<Longrightarrow> \<exists>rc d' mesg'. getsrvrmsg_reply buf bsize (Some d) mesg = Some (rc, Some d', mesg') \<and>
      length mesg' = AFP_LOGINMESG_LEN \<and> length d' = length d"
proof -
  let ?c = "if has_bit (be_nat (take 2 (drop 18 buf))) 2
      then copy_from_pascal_two mesg (Some (drop 20 buf)) AFP_LOGINMESG_LEN
      else copy_from_pascal mesg (Some (drop 20 buf)) AFP_LOGINMESG_LEN"
  have "\<exists>l m. ?c = Some (l, m) \<and> length m = AFP_LOGINMESG_LEN"
    using copy_from_pascal_two_safe [of 20 AFP_LOGINMESG_LEN buf mesg] copy_from_pascal_safe [of 20 buf AFP_LOGINMESG_LEN mesg] assms
    by (auto split del: if_split split: if_splits)
  then obtain l m where m: "?c = Some (l, m)" "length m = AFP_LOGINMESG_LEN" by blast
  then show "\<exists>rc mesg'. getsrvrmsg_reply buf bsize None mesg = Some (rc, None, mesg') \<and> length mesg' = AFP_LOGINMESG_LEN"
    using assms(2) unfolding getsrvrmsg_reply_def m(1) by simp
  assume "AFP_LOGINMESG_LEN \<le> length d"
  from copy_out_fits [of 0 AFP_LOGINMESG_LEN m d] this m(2)
  show "\<exists>rc d' mesg'. getsrvrmsg_reply buf bsize (Some d) mesg = Some (rc, Some d', mesg') \<and>
      length mesg' = AFP_LOGINMESG_LEN \<and> length d' = length d"
    using assms(2) unfolding getsrvrmsg_reply_def m(1) by simp
qed

lemma afp_reply_typed:
  assumes buf: "bsize \<le> length buf" "AFP_BUFSIZE \<le> length buf"
    and k: "takes_kind sub (dest_kind oth)" and w: "wf_dest oth" and m: "sub \<noteq> 21"
    and pr: "ses_version (pr_session pr) = Some v" "length (pr_mesg pr) = AFP_LOGINMESG_LEN"
  shows "\<exists>rc oth' pr'. afp_reply malloc_ok now sub buf bsize oth pr = Some (rc, oth', pr') \<and>
    dest_kind oth' = dest_kind oth \<and> wf_dest oth' \<and> ses_version (pr_session pr') = Some v \<and>
    length (pr_mesg pr') = AFP_LOGINMESG_LEN"
proof -
  consider "bsize < 16" | "16 \<le> bsize" "sub = 16" | "16 \<le> bsize" "sub = 38" | "16 \<le> bsize" "sub \<noteq> 16" "sub \<noteq> 38" by linarith
  then show ?thesis
  proof cases
    case 2
    then show ?thesis
      using getsrvrparms_reply_returns [OF buf(2) pr(1), of malloc_ok now bsize] buf(1) w pr by (auto simp: afp_reply_def)
  next
    case 3
    then have "dest_kind oth = K_null \<or> dest_kind oth = K_chars" using k by (auto simp: takes_kind_def)
    then consider "oth = Dest_null" | c where "oth = Dest_obj (Obj_chars c)" using dest_kind_cases(1,11) [of oth] by auto
    then show ?thesis
    proof cases
      case 1
      then show ?thesis using getsrvrmsg_reply_returns(1) [OF buf(2) pr(2), of bsize] buf(1) 3 pr by (auto simp: afp_reply_def)
    next
      case c: 2
      then have "AFP_LOGINMESG_LEN \<le> length c" using w by simp
      from getsrvrmsg_reply_returns(2) [OF buf(2) pr(2) this, of bsize] show ?thesis
        using c buf(1) 3 pr w by (auto simp: afp_reply_def)
    qed
  next
    case 4
    then show ?thesis
      using object_reply_typed [OF buf 4(1) k w m, of malloc_ok "pr_session pr"] buf(1) pr
      by (auto simp: afp_reply_def typed_result_def)
  qed (use w pr in \<open>simp add: afp_reply_def\<close>)
qed

section \<open>Properties\<close>


definition plain_state :: proto_state where
  "plain_state = \<lparr>pr_session = plain_session, pr_connect_time = 0, pr_volumes = [], pr_mesg = replicate AFP_LOGINMESG_LEN 0\<rparr>"


text \<open>C39: \<open>FPMapID\<close> overruns its caller. Every successful reply, with or without a name, makes
  \<open>afp_mapid_reply\<close> either follow bytes of the reply as a pointer or copy its 1,021-byte buffer to the
  255 bytes \<open>afp_detect_mapping\<close> passes.\<close>
theorem mapid_overruns_caller:
  assumes "18 \<le> bsize" "bsize \<le> length buf" "raw_error buf = 0" "length name = 255"
  shows "afp_reply malloc_ok now 21 buf bsize (Dest_obj (Obj_chars name)) pr = None"
  using assms by (simp add: afp_reply_def object_reply_def blank_replies_def mapid_reply_def copy_out_def)

theorem mapid_overruns_caller_witness:
  "afp_reply (\<lambda>_. True) 0 21 [0, 0, 0, 0, 0, 0, 0, 0, 0, 0, 0, 0, 0, 0, 0, 0, 0, 0] 18 (Dest_obj (Obj_chars (replicate 255 0)))
     plain_state = None"
  by (rule mapid_overruns_caller) (simp_all add: raw_error_def s32_def be_nat_def)

text \<open>C40: no session token is ever kept. The reply that carries a token of \<open>n\<close> bytes, its header's length
  \<open>n + 4\<close>, is taken for an empty one up to 12 bytes and refused from 13 on.\<close>
theorem session_token_never_kept:
  assumes "wf_header h" "hdr_length h = 4 + length tok" "length tok < 2 ^ 32"
  shows "getsessiontoken_reply (encode_header h @ be_bytes 4 (length tok) @ tok @ rest) (Some t) =
    Some (if length tok \<le> 12 then (0, Some (t\<lparr>tok_length := 0\<rparr>)) else (-1, Some t))"
proof -
  have "header_of (encode_header h @ be_bytes 4 (length tok) @ tok @ rest) = h" by (rule header_of_encode [OF assms(1)])
  moreover have "rd32 (encode_header h @ be_bytes 4 (length tok) @ tok @ rest) 16 = Some (length tok)"
    using assms(3) by (simp add: rd_append_field)
  ultimately show ?thesis using assms(2) by (auto simp: getsessiontoken_reply_def)
qed

theorem session_token_never_kept_witness:
  "getsessiontoken_reply (encode_header (reply_header 1 0 20) @ be_bytes 4 (length (replicate 16 7)) @ replicate 16 7 @ [])
     (Some \<lparr>tok_length = 0, tok_data = replicate 256 0\<rparr>) = Some (-1, Some \<lparr>tok_length = 0, tok_data = replicate 256 0\<rparr>)"
  using session_token_never_kept [of "reply_header 1 0 20" "replicate 16 7" "[]" "\<lparr>tok_length = 0, tok_data = replicate 256 0\<rparr>"]
  by (simp add: reply_header_def wf_header_def)

end
