(* ===== verification/Exchange.thy ===== *)
theory Exchange
  imports Reply_Safety
begin

text \<open>
  A command from its caller to the entries of its reply: the message built, the frame sent, the reply
  received in pieces, the parser of the table, and the caller's object.
\<close>

section \<open>Commands as calls\<close>

text \<open>The parsers as the receiver calls them, with the bytes earlier frames left behind the frame.\<close>

definition reply_parser ::
  "(nat \<Rightarrow> bool) \<Rightarrow> int \<Rightarrow> proto_state \<Rightarrow> bytes \<Rightarrow> nat option \<Rightarrow> nat \<Rightarrow> bytes \<Rightarrow> reply_obj dest \<Rightarrow> int \<times> reply_obj dest" where
  "reply_parser malloc_ok now pr stale _ sub frame oth =
     (case afp_reply malloc_ok now sub (frame @ stale) (length frame) oth pr of
        None \<Rightarrow> (-1, oth)
      | Some (rc, oth', _) \<Rightarrow> (rc, oth'))"

text \<open>A server that answers one command with the frame \<open>h\<close>, \<open>payload\<close>, in pieces.\<close>

definition answers_with ::
  "'o send_env \<Rightarrow> 'o recv_env \<Rightarrow> dsi_header \<Rightarrow> bytes \<Rightarrow> bytes list \<Rightarrow> bytes list \<Rightarrow> bool" where
  "answers_with env renv h payload hs ps \<longleftrightarrow>
     sn_malloc env \<and> wf_header h \<and> hdr_flags h = DSI_REPLY \<and> hdr_command h = DSI_DSICommand \<and>
     hdr_length h = length payload \<and> length payload \<le> AFP_BUFSIZE - DSI_HEADER_SIZE \<and>
     concat hs = encode_header h \<and> [] \<notin> set hs \<and> concat ps = payload \<and> [] \<notin> set ps \<and>
     sn_wait env = (\<lambda>t. case recv_run renv (hs @ ps) t of None \<Rightarrow> t | Some t' \<Rightarrow> t') \<and> sn_release env = (\<lambda>t. t)"

text \<open>A session ready for a command of one caller.\<close>

definition ready_for :: "'o send_env \<Rightarrow> nat \<Rightarrow> 'o afp_server \<Rightarrow> bool" where
  "ready_for env requestid srv \<longleftrightarrow>
     between_frames srv \<and> srv_connect_state srv = STATE_CONNECTED \<and> srv_heap srv (sn_address env) = None \<and>
     first_awaiting (srv_heap srv) requestid (srv_queue srv) = None"

lemma setup_header_keeps:
  assumes "setup_header srv DSI_DSICommand = (h, s)"
  shows "ready_for env i s = ready_for env i srv" "srv_heap s = srv_heap srv" "srv_queue s = srv_queue srv"
    "hdr_requestid h = srv_lastrequestid s" "srv_dsi_default_timeout s = srv_dsi_default_timeout srv"
  using assms by (auto simp: setup_header_def Let_def ready_for_def between_frames_def recv_inv_def queue_inv_def wf_requests_def held_def)

lemma setup_header_wf:
  assumes "setup_header srv DSI_DSICommand = (h, s)" "srv_lastrequestid srv < 65536"
  shows "wf_header h"
  using assms by (auto simp: setup_header_def wf_header_def Let_def)

lemma perform_exchange:
  assumes "setup_header srv DSI_DSICommand = (h0, s)" "srv_lastrequestid srv < 65536"
    "b = Send (encode_header h0 @ body) wait sc s" "wait \<noteq> DSI_DONT_WAIT" "sc \<noteq> 0" "sc \<noteq> afpRead" "sc \<noteq> afpReadExt"
    "ready_for env (srv_lastrequestid s) srv"
    "write_loop (set_frame_length (encode_header h0 @ body)) (sn_send env) = (True, set_frame_length (encode_header h0 @ body))"
    "answers_with env renv h payload hs ps" "hdr_requestid h = srv_lastrequestid s" "hdr_error_code h = 0"
    "env_reply renv None sc (encode_header h @ payload) oth = (rc, oth')"
  shows "\<exists>s'. perform env srv oth b = Some (rc, oth', None, s') \<and> srv_heap s' = srv_heap srv \<and> srv_queue s' = srv_queue srv"
proof -
  have id: "hdr_requestid (header_of (encode_header h0 @ body)) = srv_lastrequestid s"
    using header_of_encode [OF setup_header_wf [OF assms(1,2)]] setup_header_keeps(4) [OF assms(1)] by simp
  have r: "ready_for env (srv_lastrequestid s) s" using assms(8) setup_header_keeps(1) [OF assms(1)] by simp
  have "\<exists>s'. dsi_send env s (encode_header h0 @ body) wait sc oth =
      Some (if rc \<noteq> 0 \<and> s32 (hdr_error_code h) = 0 then rc else s32 (hdr_error_code h), oth', None, s') \<and>
    srv_heap s' = srv_heap s \<and> srv_queue s' = srv_queue s"
    by (rule exchange_result [where h = h and hs = hs and ps = ps and payload = payload and renv = renv])
      (use r id assms(4-7,9-11,13) in \<open>auto simp: ready_for_def answers_with_def\<close>)
  then show ?thesis
    using assms(3,12) setup_header_keeps(2,3) [OF assms(1)] by (auto simp: perform_def s32_def)
qed

section \<open>A page of a directory\<close>

lemma enumerateext2_wire:
  assumes "path_ok (vol_path_encoding v) (Some path)" "length path < 65000" "setup_header srv DSI_DSICommand = (h, s)"
  shows "\<exists>body. length body \<le> 29 + length path \<and> afp_enumerateext2 (\<lambda>_. True) v did fb db n start path srv =
    Send (encode_header h @ body) (transfer_wait srv (enumerate_max_payload srv) AFP_ENUMERATE_BYTES_PER_SECOND) 68 s"
proof -
  have u: "u16 (path_len v path + 38) = path_len v path + 38"
    using assms(2) by (simp add: path_len_def sizeof_path_header_def)
  show ?thesis
    unfolding afp_enumerateext2_def Let_def u
    by (rule exI, rule conjI [rotated], rule path_command_wire [OF _ _ _ assms(3)])
      (use assms(1) in \<open>simp_all add: paths_room_def path_bytes_def path_len_def wire_path_def path_ok_def\<close>)
qed

lemma enumerateext2_parsed:
  assumes "offset_ok (pr_session pr)" "hdr_error_code h = 0" "fb < 65536" "db < 65536" "length items < 65536"
    "\<forall>i \<in> set items. wf_item (pr_session pr) True (fb, db) i" "wf_listing l" "has_room (length items) l"
  shows "\<exists>l' new. reply_parser (\<lambda>_. True) now pr stale None 68
      (encode_header h @ page_bytes (pr_session pr) True (fb, db) items) (Dest_obj (Obj_listing l)) = (0, Dest_obj (Obj_listing l')) \<and>
    wf_listing l' \<and> listed l' = listed l @ new \<and> list_all2 (shows_item (fb, db)) items new"
  using page_reply_listed [OF assms(1,2) _ _ assms(5-8), of stale] assms(3,4)
  by (auto simp: reply_parser_def afp_reply_def object_reply_def blank_replies_def on_listing_def afp_enumerateext2_reply_def)

section \<open>Properties\<close>

text \<open>C3: a directory's page reaches its caller. A connected session performs \<open>FPEnumerateExt2\<close>: the
  command is built and sent, the server's page for its bitmaps arrives in any pieces, whatever earlier
  frames left in the buffer, and \<open>afp_enumerateext2\<close> returns 0 with the page's entries behind those of
  the caller's listing, each with its members and its name; queue and requests are as before.\<close>
theorem directory_page_exchange:
  assumes "path_ok (vol_path_encoding v) (Some path)" "length path < 65000" "srv_lastrequestid srv < 65536"
    "b = afp_enumerateext2 (\<lambda>_. True) v did fb db n start path srv" "b = Send msg wait 68 s" "wait \<noteq> DSI_DONT_WAIT"
    "ready_for env (srv_lastrequestid s) srv"
    "write_loop (set_frame_length msg) (sn_send env) = (True, set_frame_length msg)"
    "answers_with env renv h (page_bytes (pr_session pr) True (fb, db) items) hs ps"
    "hdr_requestid h = srv_lastrequestid s" "hdr_error_code h = 0" "env_reply renv = reply_parser (\<lambda>_. True) now pr stale"
    "offset_ok (pr_session pr)" "fb < 65536" "db < 65536" "length items < 65536"
    "\<forall>i \<in> set items. wf_item (pr_session pr) True (fb, db) i" "wf_listing l" "has_room (length items) l"
  shows "\<exists>l' new s'. perform env srv (Dest_obj (Obj_listing l)) b = Some (0, Dest_obj (Obj_listing l'), None, s') \<and>
    wf_listing l' \<and> listed l' = listed l @ new \<and> list_all2 (shows_item (fb, db)) items new \<and>
    srv_heap s' = srv_heap srv \<and> srv_queue s' = srv_queue srv"
proof -
  obtain h0 s0 where h0: "setup_header srv DSI_DSICommand = (h0, s0)" by fastforce
  from enumerateext2_wire [OF assms(1,2) h0, of did fb db n start] assms(4,5)
  obtain body where m: "msg = encode_header h0 @ body" "s = s0" by auto
  obtain l' new where l': "env_reply renv None 68 (encode_header h @ page_bytes (pr_session pr) True (fb, db) items) (Dest_obj (Obj_listing l))
      = (0, Dest_obj (Obj_listing l'))" "wf_listing l'" "listed l' = listed l @ new" "list_all2 (shows_item (fb, db)) items new"
    using enumerateext2_parsed [OF assms(13,11,14-19), of now stale] assms(12) by auto
  from perform_exchange [OF h0 assms(3) _ assms(6) _ _ _ _ _ assms(9) _ assms(11) l'(1), of b body] show ?thesis
    using assms(5,7,8,10) m l' by fastforce
qed

text \<open>A session lists a directory of one file, the reply in three pieces.\<close>

definition page_env :: "reply_obj recv_env" where
  "page_env = plain_env\<lparr>env_reply := reply_parser (\<lambda>_. True) 0 plain_state [1, 2, 3]\<rparr>"

definition sample_page :: bytes where
  "sample_page = page_bytes plain_session True (0x2900, 0) [sample_item]"

definition page_pieces :: "bytes list" where
  "page_pieces = [[hd sample_page], tl sample_page]"

definition page_exchange :: "reply_obj send_env" where
  "page_exchange = exchange_env page_env ([encode_header (reply_header 1 0 (length sample_page))] @ page_pieces)"

lemma sample_page_length: "1 < length sample_page" "length sample_page < 300"
  using sample_block by (simp_all add: sample_page_def page_bytes_def length_item_bytes entry_header_def)

lemma two_pieces: "1 < length xs \<Longrightarrow> concat [[hd xs], tl xs] = xs \<and> [] \<notin> set [[hd xs], tl xs]"
  by (cases xs; cases "tl xs") auto

lemma sample_page_answered:
  "answers_with page_exchange page_env (reply_header 1 0 (length sample_page)) sample_page
     [encode_header (reply_header 1 0 (length sample_page))] page_pieces"
proof -
  let ?h = "reply_header 1 0 (length sample_page)"
  have p: "concat page_pieces = sample_page" "[] \<notin> set page_pieces"
    unfolding page_pieces_def using two_pieces [OF sample_page_length(1)] by simp_all
  have h: "wf_header ?h" using sample_page_length(2) by (intro wf_reply_header) simp_all
  have n: "[] \<notin> set [encode_header ?h]" by (simp add: encode_header_def)
  have e: "sn_malloc page_exchange" "sn_release page_exchange = (\<lambda>t. t)"
    "sn_wait page_exchange = (\<lambda>t. case recv_run page_env ([encode_header ?h] @ page_pieces) t of None \<Rightarrow> t | Some t' \<Rightarrow> t')"
    by (simp_all add: page_exchange_def exchange_env_def)
  have f: "hdr_flags ?h = DSI_REPLY" "hdr_command ?h = DSI_DSICommand" "hdr_length ?h = length sample_page"
    by (simp_all add: reply_header_def)
  have "length sample_page \<le> AFP_BUFSIZE - DSI_HEADER_SIZE" using sample_page_length(2) by simp
  then show ?thesis unfolding answers_with_def using p h n e f by simp
qed

lemma idle_ready:
  "ready_for page_exchange 1 (idle_session :: reply_obj afp_server)"
  by (simp add: ready_for_def between_frames_idle idle_session_simps)

lemma idle_header:
  "srv_lastrequestid (snd (setup_header (idle_session :: reply_obj afp_server) DSI_DSICommand)) = 1"
  "srv_lastrequestid (idle_session :: reply_obj afp_server) = 0"
  "transfer_wait (idle_session :: reply_obj afp_server) n m \<noteq> DSI_DONT_WAIT"
  by (simp_all add: setup_header_def Let_def transfer_wait_def idle_session_def server_init_def)

theorem directory_page_exchange_witness:
  "\<exists>l' s'. perform page_exchange idle_session (Dest_obj (Obj_listing empty_listing))
      (afp_enumerateext2 (\<lambda>_. True) sample_volume 2 0x2900 0 10 1 [] idle_session) = Some (0, Dest_obj (Obj_listing l'), None, s') \<and>
    map snd (listed l') = [[0x61]]"
proof -
  let ?i = "idle_session :: reply_obj afp_server"
  obtain h0 s where h0: "setup_header ?i DSI_DSICommand = (h0, s)" by fastforce
  then have s: "srv_lastrequestid s = 1" using idle_header(1) by simp
  have p: "path_ok (vol_path_encoding sample_volume) (Some [])" by (simp add: path_ok_def path_bytes_def sample_volume_def)
  from enumerateext2_wire [OF p _ h0, of 2 "0x2900" 0 10 1] obtain body where
    b: "length body \<le> 29" "afp_enumerateext2 (\<lambda>_. True) sample_volume 2 0x2900 0 10 1 [] ?i =
      Send (encode_header h0 @ body) (transfer_wait ?i (enumerate_max_payload ?i) AFP_ENUMERATE_BYTES_PER_SECOND) 68 s" by auto
  have w: "write_loop (set_frame_length (encode_header h0 @ body)) (sn_send page_exchange) = (True, set_frame_length (encode_header h0 @ body))"
    using b(1) by (simp add: page_exchange_def exchange_env_def set_frame_length_def)
  have r: "has_room (length [sample_item]) empty_listing" by (simp add: has_room_def empty_listing_def)
  have a: "answers_with page_exchange page_env (reply_header 1 0 (length sample_page))
      (page_bytes (pr_session plain_state) True (0x2900, 0) [sample_item]) [encode_header (reply_header 1 0 (length sample_page))] page_pieces"
    using sample_page_answered by (simp add: sample_page_def plain_state_def)
  have l: "\<forall>i \<in> set [sample_item]. wf_item (pr_session plain_state) True (0x2900, 0) i" "offset_ok (pr_session plain_state)"
    using wf_sample_item offset_ok_plain by (simp_all add: plain_state_def)
  have "\<exists>l' new s'. perform page_exchange ?i (Dest_obj (Obj_listing empty_listing))
      (afp_enumerateext2 (\<lambda>_. True) sample_volume 2 0x2900 0 10 1 [] ?i) = Some (0, Dest_obj (Obj_listing l'), None, s') \<and>
    wf_listing l' \<and> listed l' = listed empty_listing @ new \<and> list_all2 (shows_item (0x2900, 0)) [sample_item] new \<and>
    srv_heap s' = srv_heap ?i \<and> srv_queue s' = srv_queue ?i"
    by (rule directory_page_exchange [OF p _ _ refl b(2) idle_header(3) _ w a _ _ _ l(2) _ _ _ l(1) wf_empty_listing(1) r])
      (use idle_ready idle_header s in \<open>simp_all add: reply_header_def page_env_def\<close>)
  then show ?thesis
    by (auto simp: list_all2_Cons1 shows_item_def item_name_def item_bitmap_def sample_item_def sample_entry_def
        no_entry_def has_bit_def Let_def cstr_def)
qed

end
