(* ===== verification/Afp_Desktop.thy ===== *)
theory Afp_Desktop
  imports Exchange
begin

text \<open>
  The commands of extended attributes, of the desktop database and of logins: \<open>lib/proto_attr.c\<close>,
  \<open>lib/proto_desktop.c\<close> and \<open>lib/proto_login.c\<close>.  A message whose buffer is not cleared shows the bytes
  nothing writes as zeros.
\<close>

unbundle bit_operations_syntax

abbreviation (input) DSI_LOGIN_TIMEOUT :: int where "DSI_LOGIN_TIMEOUT \<equiv> 20"
abbreviation (input) AFP_MAX_USERNAME_LEN :: nat where "AFP_MAX_USERNAME_LEN \<equiv> 127"

section \<open>Extended attributes\<close>

definition afp_listextattr ::
  "(nat \<Rightarrow> bool) \<Rightarrow> afp_volume option \<Rightarrow> nat \<Rightarrow> nat \<Rightarrow> bytes \<Rightarrow> data_info \<Rightarrow> 'o afp_server \<Rightarrow> 'o built" where
  "afp_listextattr malloc_ok volume dirid bitmap pathname info srv =
     (case volume of
        None \<Rightarrow> Refuse (-1)
      | Some v \<Rightarrow>
         path_command malloc_ok (vol_path_encoding v) (u32 (36 + path_len v pathname))
           (72 # 0 # be_bytes 2 (vol_volid v) @ be_bytes 4 dirid @ be_bytes 2 bitmap @ be_bytes 2 0 @ be_bytes 4 0 @
            be_bytes 4 (da_maxsize info))
           [Some pathname] DSI_DEFAULT_TIMEOUT 72 srv)"

text \<open>A message with a path and then bytes at the next even offset of it, in a buffer of \<open>len\<close> bytes.\<close>

definition path_tail_command ::
  "(nat \<Rightarrow> bool) \<Rightarrow> nat \<Rightarrow> nat \<Rightarrow> bytes \<Rightarrow> bytes \<Rightarrow> bytes \<Rightarrow> nat \<Rightarrow> 'o afp_server \<Rightarrow> 'o built" where
  "path_tail_command malloc_ok encoding len body pathname tail sub srv =
     (let p = DSI_HEADER_SIZE + length body + sizeof_path_header encoding + length pathname; q = p + p mod 2 in
      if \<not> malloc_ok len then Refuse (-1)
      else case setup_header srv DSI_DSICommand of
        (h, s) \<Rightarrow>
          (case path_message encoding len (encode_header h @ body) [Some pathname] of
             None \<Rightarrow> Overflow
           | Some msg \<Rightarrow>
               if q + length tail > len then Overflow
               else Send (write_at (write_at msg p (replicate (p mod 2) 0)) q tail) DSI_DEFAULT_TIMEOUT sub s))"

text \<open>A name of the caller's length, with it in front.\<close>

definition attr_name :: "bytes \<Rightarrow> bytes" where
  "attr_name name = be_bytes 2 (length name) @ name"

definition afp_getextattr ::
  "(nat \<Rightarrow> bool) \<Rightarrow> afp_volume option \<Rightarrow> nat \<Rightarrow> nat \<Rightarrow> nat \<Rightarrow> bytes \<Rightarrow> bytes \<Rightarrow> 'o afp_server \<Rightarrow> 'o built" where
  "afp_getextattr malloc_ok volume dirid bitmap replysize pathname name srv =
     (case volume of
        None \<Rightarrow> Refuse (-1)
      | Some v \<Rightarrow>
         (let pathlen = path_len v pathname; padding = (46 + pathlen) AND 1 in
          path_tail_command malloc_ok (vol_path_encoding v) (u32 (46 + pathlen + padding + 2 + length name))
            (69 # 0 # be_bytes 2 (vol_volid v) @ be_bytes 4 dirid @ be_bytes 2 bitmap @ be_bytes 8 0 @
             be_bytes 8 (2 ^ 64 - 1) @ be_bytes 4 replysize)
            pathname (attr_name name) 69 srv))"

text \<open>Without attribute data the bytes announced for it are left as they are.\<close>

definition afp_setextattr ::
  "(nat \<Rightarrow> bool) \<Rightarrow> afp_volume option \<Rightarrow> nat \<Rightarrow> nat \<Rightarrow> nat \<Rightarrow> bytes \<Rightarrow> bytes \<Rightarrow> nat \<Rightarrow> bytes option \<Rightarrow> 'o afp_server \<Rightarrow> 'o built" where
  "afp_setextattr malloc_ok volume dirid bitmap offset pathname name attribdatalen attribdata srv =
     (case volume of
        None \<Rightarrow> Refuse (-1)
      | Some v \<Rightarrow>
         (let pathlen = path_len v pathname; padding = (34 + pathlen) AND 1;
              data = (case attribdata of None \<Rightarrow> replicate attribdatalen 0 | Some d \<Rightarrow> take attribdatalen d) in
          if length data < attribdatalen then Overflow
          else path_tail_command malloc_ok (vol_path_encoding v)
            (u32 (34 + pathlen + padding + 2 + length name + 4 + attribdatalen))
            (70 # 0 # be_bytes 2 (vol_volid v) @ be_bytes 4 dirid @ be_bytes 2 bitmap @ be_bytes 8 offset)
            pathname (attr_name name @ be_bytes 4 attribdatalen @ data) 70 srv))"

definition afp_removeextattr ::
  "(nat \<Rightarrow> bool) \<Rightarrow> afp_volume option \<Rightarrow> nat \<Rightarrow> nat \<Rightarrow> bytes \<Rightarrow> bytes \<Rightarrow> 'o afp_server \<Rightarrow> 'o built" where
  "afp_removeextattr malloc_ok volume dirid bitmap pathname name srv =
     (case volume of
        None \<Rightarrow> Refuse (-1)
      | Some v \<Rightarrow>
         (let pathlen = path_len v pathname; padding = (26 + pathlen) AND 1 in
          path_tail_command malloc_ok (vol_path_encoding v) (u32 (26 + pathlen + padding + 2 + length name))
            (71 # 0 # be_bytes 2 (vol_volid v) @ be_bytes 4 dirid @ be_bytes 2 bitmap) pathname (attr_name name) 71 srv))"

section \<open>The desktop database\<close>

definition afp_geticon :: "afp_volume \<Rightarrow> nat \<Rightarrow> nat \<Rightarrow> nat \<Rightarrow> nat \<Rightarrow> 'o afp_server \<Rightarrow> 'o built" where
  "afp_geticon v filecreator filetype icontype len srv =
     plain_command (51 # 0 # be_bytes 2 (vol_dtrefnum v) @ be_bytes 4 filecreator @ be_bytes 4 filetype @
       [of_nat icontype, 0] @ be_bytes 2 len) DSI_DEFAULT_TIMEOUT 51 srv"

abbreviation (input) INT_MAX :: nat where "INT_MAX \<equiv> 2147483647"

definition afp_addcomment_sized ::
  "(nat \<Rightarrow> bool) \<Rightarrow> afp_volume option \<Rightarrow> nat \<Rightarrow> bytes option \<Rightarrow> bytes option \<Rightarrow> nat \<Rightarrow> 'o afp_server \<Rightarrow> 'o built" where
  "afp_addcomment_sized malloc_ok volume did pathname comment comment_size srv =
     (case (volume, pathname) of
        (Some v, Some path) \<Rightarrow>
          if comment = None \<and> comment_size \<noteq> 0 \<or> comment_size > 255 then Refuse (-1)
          else if length path > INT_MAX - 24 - sizeof_path_header (vol_path_encoding v) - 2 - comment_size then Refuse (-1)
          else let len0 = 24 + path_len v path; len = len0 + (len0 AND 1) + 1 + comment_size;
                   data = (case comment of None \<Rightarrow> [] | Some c \<Rightarrow> take comment_size c) in
            if length data < comment_size then Overflow
            else path_tail_command malloc_ok (vol_path_encoding v) len
                   (56 # 0 # be_bytes 2 (vol_dtrefnum v) @ be_bytes 4 did) path (of_nat comment_size # data) 56 srv
      | _ \<Rightarrow> Refuse (-1))"

text \<open>\<open>afp_getcomment\<close> does not check its allocation.\<close>

definition afp_getcomment :: "(nat \<Rightarrow> bool) \<Rightarrow> afp_volume \<Rightarrow> nat \<Rightarrow> bytes \<Rightarrow> 'o afp_server \<Rightarrow> 'o built" where
  "afp_getcomment malloc_ok v did pathname srv =
     (let len = u32 (24 + path_len v pathname) in
      if \<not> malloc_ok len then Overflow
      else path_command malloc_ok (vol_path_encoding v) len
             (58 # 0 # be_bytes 2 (vol_dtrefnum v) @ be_bytes 4 did) [Some pathname] DSI_DEFAULT_TIMEOUT 58 srv)"

definition afp_closedt :: "nat \<Rightarrow> 'o afp_server \<Rightarrow> 'o built" where
  "afp_closedt refnum srv = plain_command (49 # 0 # be_bytes 2 refnum) DSI_DEFAULT_TIMEOUT 49 srv"

definition afp_opendt :: "afp_volume \<Rightarrow> 'o afp_server \<Rightarrow> 'o built" where
  "afp_opendt v srv = plain_command (48 # 0 # be_bytes 2 (vol_volid v)) DSI_DEFAULT_TIMEOUT 48 srv"

definition afp_geticoninfo :: "afp_volume option \<Rightarrow> nat \<Rightarrow> nat \<Rightarrow> bool \<Rightarrow> 'o afp_server \<Rightarrow> 'o built" where
  "afp_geticoninfo volume filecreator index has_info srv =
     (case volume of
        Some v \<Rightarrow>
          if has_info then plain_command (52 # 0 # be_bytes 2 (vol_dtrefnum v) @ be_bytes 4 filecreator @ be_bytes 2 index)
                             DSI_DEFAULT_TIMEOUT 52 srv
          else Refuse (-1)
      | None \<Rightarrow> Refuse (-1))"

definition afp_getappl :: "afp_volume option \<Rightarrow> nat \<Rightarrow> nat \<Rightarrow> nat \<Rightarrow> bool \<Rightarrow> 'o afp_server \<Rightarrow> 'o built" where
  "afp_getappl volume filecreator index bitmap has_appl srv =
     (case volume of
        Some v \<Rightarrow>
          if has_appl then plain_command (55 # 0 # be_bytes 2 (vol_dtrefnum v) @ be_bytes 4 filecreator @ be_bytes 2 index @
                             be_bytes 2 bitmap) DSI_DEFAULT_TIMEOUT 55 srv
          else Refuse (-1)
      | None \<Rightarrow> Refuse (-1))"

section \<open>Logins\<close>

text \<open>A message written from its start: bytes, and C strings as Pascal strings of \<open>copy_to_pascal\<close>.\<close>

datatype piece = Raw bytes | Pascal bytes

fun put_pieces :: "piece list \<Rightarrow> bytes \<Rightarrow> nat \<Rightarrow> bytes option" where
  "put_pieces [] msg off = Some msg"
| "put_pieces (Raw bs # ps) msg off =
     (if off + length bs > length msg then None else put_pieces ps (write_at msg off bs) (off + length bs))"
| "put_pieces (Pascal str # ps) msg off =
     (case copy_to_pascal (drop off msg) str of
        None \<Rightarrow> None
      | Some (n, tail) \<Rightarrow> put_pieces ps (take off msg @ tail) (off + n + 1))"

definition pieces_command ::
  "(nat \<Rightarrow> bool) \<Rightarrow> nat \<Rightarrow> piece list \<Rightarrow> int \<Rightarrow> nat \<Rightarrow> 'o afp_server \<Rightarrow> 'o built" where
  "pieces_command malloc_ok len ps wait sub srv =
     (if \<not> malloc_ok len then Refuse (-1)
      else case setup_header srv DSI_DSICommand of
        (h, s) \<Rightarrow>
          (case put_pieces (Raw (encode_header h) # ps) (replicate len 0) 0 of
             None \<Rightarrow> Overflow
           | Some msg \<Rightarrow> Send msg wait sub s))"

definition afp_logout :: "int \<Rightarrow> 'o afp_server \<Rightarrow> 'o built" where
  "afp_logout wait srv = plain_command [20, 0] wait 20 srv"

text \<open>The length of the method's name is cut to an \<open>unsigned char\<close> here, and only here.\<close>

definition afp_changepassword :: "(nat \<Rightarrow> bool) \<Rightarrow> bytes \<Rightarrow> bytes \<Rightarrow> 'o afp_server \<Rightarrow> 'o built" where
  "afp_changepassword malloc_ok ua_name userauthinfo srv =
     (let ua_pascal_len = u8 (length ua_name) + 1; ua_pad = ua_pascal_len AND 1 in
      pieces_command malloc_ok (u32 (18 + ua_pascal_len + ua_pad + length userauthinfo))
        [Raw [36, 0], Pascal ua_name, Raw (replicate ua_pad 0), Raw userauthinfo] DSI_DEFAULT_TIMEOUT 36 srv)"

definition afp_login :: "(nat \<Rightarrow> bool) \<Rightarrow> bytes \<Rightarrow> bytes \<Rightarrow> bytes \<Rightarrow> 'o afp_server \<Rightarrow> 'o built" where
  "afp_login malloc_ok av_name ua_name userauthinfo srv =
     pieces_command malloc_ok (u32 (17 + (min (length av_name) 255 + 1) + (min (length ua_name) 255 + 1) + length userauthinfo))
       [Raw [18], Pascal av_name, Pascal ua_name, Raw userauthinfo] DSI_LOGIN_TIMEOUT 18 srv"

definition afp_loginext :: "(nat \<Rightarrow> bool) \<Rightarrow> bytes \<Rightarrow> bytes \<Rightarrow> bytes \<Rightarrow> bytes \<Rightarrow> 'o afp_server \<Rightarrow> 'o built" where
  "afp_loginext malloc_ok av_name ua_name username userauthinfo srv =
     (let user_len = min (length username) AFP_MAX_USERNAME_LEN;
          ver_pascal_len = min (length av_name) 255 + 1; uam_pascal_len = min (length ua_name) 255 + 1;
          pre_authinfo_len = 4 + ver_pascal_len + uam_pascal_len + (1 + 2 + user_len) + (1 + 2);
          path_pad = pre_authinfo_len AND 1 in
      pieces_command malloc_ok
        (u32 (20 + ver_pascal_len + uam_pascal_len + (1 + 2 + user_len) + (1 + 2) + path_pad + length userauthinfo))
        [Raw [63, 0, 0, 0], Pascal av_name, Pascal ua_name, Raw (3 # be_bytes 2 user_len @ take user_len username),
         Raw [3, 0, 0], Raw (replicate path_pad 0), Raw userauthinfo] DSI_LOGIN_TIMEOUT 63 srv)"

definition afp_logincont :: "(nat \<Rightarrow> bool) \<Rightarrow> nat \<Rightarrow> bytes \<Rightarrow> 'o afp_server \<Rightarrow> 'o built" where
  "afp_logincont malloc_ok ident userauthinfo srv =
     pieces_command malloc_ok (u32 (20 + length userauthinfo))
       [Raw (19 # 0 # be_bytes 2 ident), Raw userauthinfo] DSI_LOGIN_TIMEOUT 19 srv"

section \<open>Messages fit and say what they should\<close>

fun piece_bytes :: "piece \<Rightarrow> bytes" where
  "piece_bytes (Raw bs) = bs"
| "piece_bytes (Pascal str) = of_nat (min (length str) 255) # take 255 str"

lemma put_pieces_result:
  "off + length (concat (map piece_bytes ps)) \<le> length msg \<Longrightarrow>
    put_pieces ps msg off = Some (take off msg @ concat (map piece_bytes ps) @ drop (off + length (concat (map piece_bytes ps))) msg)"
proof (induction ps msg off rule: put_pieces.induct)
  case (2 bs ps msg off)
  then show ?case by (simp add: write_at_def add_ac)
next
  case (3 str ps msg off)
  let ?n = "min (length str) 255"
  have "copy_to_pascal (drop off msg) str = Some (?n, (of_nat ?n # take 255 str) @ drop (1 + ?n) (drop off msg))"
    using "3.prems" by (simp add: copy_to_pascal_def Let_def write_at_def) (auto simp: min_def split: if_splits)
  then show ?case using "3.IH" [of "(?n, (of_nat ?n # take 255 str) @ drop (1 + ?n) (drop off msg))"] "3.prems"
    by (simp add: add_ac min_def)
qed simp

lemma pieces_command_sends:
  assumes "malloc_ok len" "len = 16 + length (concat (map piece_bytes ps))" "setup_header srv DSI_DSICommand = (h, s)"
  shows "pieces_command malloc_ok len ps wait sub srv = Send (encode_header h @ concat (map piece_bytes ps)) wait sub s"
proof -
  have "put_pieces (Raw (encode_header h) # ps) (replicate len 0) 0 = Some (encode_header h @ concat (map piece_bytes ps))"
    using put_pieces_result [of 0 "Raw (encode_header h) # ps" "replicate len 0"] assms(2) by simp
  then show ?thesis using assms(1,3) by (simp add: pieces_command_def)
qed

lemma and_1_mod_2: "(n AND 1) = n mod (2 :: nat)"
  by (simp add: and_one_eq)

lemma path_tail_command_sends:
  assumes "malloc_ok len" "path_ok encoding (Some path)" "setup_header srv DSI_DSICommand = (h, s)"
    "p = 16 + length body + sizeof_path_header encoding + length path" "len = p + p mod 2 + length tail"
  shows "path_tail_command malloc_ok encoding len body path tail sub srv =
    Send (encode_header h @ body @ wire_path encoding (Some path) @ replicate (p mod 2) 0 @ tail) DSI_DEFAULT_TIMEOUT sub s"
proof -
  let ?w = "wire_path encoding (Some path)" and ?r = "replicate (p mod 2 + length tail) (0 :: byte)"
  let ?x = "encode_header h @ body @ wire_path encoding (Some path)"
  have lw: "length ?w = sizeof_path_header encoding + length path" using length_wire_path [OF assms(2)] by (simp add: path_bytes_def)
  have pm: "path_message encoding len (encode_header h @ body) [Some path] = Some (?x @ ?r)"
    using put_path_wire [OF assms(2), of "16 + length body" "encode_header h @ body @ replicate (len - (16 + length body)) 0"] assms(4,5)
    by (simp add: path_message_def path_bytes_def)
  have "length ?x = p" using lw assms(4) by simp
  then have w: "write_at (write_at (?x @ ?r) p (replicate (p mod 2) 0)) (p + p mod 2) tail = ?x @ replicate (p mod 2) 0 @ tail"
    by (simp add: write_at_def replicate_add)
  have p: "DSI_HEADER_SIZE + length body + sizeof_path_header encoding + length path = p" using assms(4) by simp
  show ?thesis
    unfolding path_tail_command_def Let_def p assms(3) prod.case pm option.case w using assms(1,5) by simp
qed

lemma path_tail_command_fits:
  assumes "16 + length body + sizeof_path_header encoding + length path = p" "len = p + p mod 2 + length tail"
  shows "path_tail_command malloc_ok encoding len body path tail sub srv \<noteq> Overflow"
proof -
  obtain h s where h: "setup_header srv DSI_DSICommand = (h, s)" by fastforce
  have "\<exists>m. path_message encoding len (encode_header h @ body) [Some path] = Some m"
    using put_paths_fit [of "16 + length body" encoding "[Some path]" "encode_header h @ body @ replicate (len - (16 + length body)) 0"]
      assms by (auto simp: path_message_def paths_room_def path_bytes_def simp del: put_paths.simps)
  then show ?thesis using h assms by (auto simp: path_tail_command_def Let_def)
qed

section \<open>Properties\<close>

text \<open>A server reads the requests of attributes back. For a path within its encoding's limit, the
  request to get, set or remove an extended attribute carries its command, volume, directory and bitmap,
  the offset or the size of the reply, its path, then at an even offset of the frame the attribute's name behind its length, and for a set the data behind its length, and nothing
  else; the frame fits its buffer exactly.\<close>
theorem attribute_requests_layout:
  assumes "path_ok (vol_path_encoding v) (Some path)" "length path < 65536" "length name < 65536" "length data < 2 ^ 31"
    "setup_header srv DSI_DSICommand = (h, s)"
    "b1 = 69 # 0 # be_bytes 2 (vol_volid v) @ be_bytes 4 did @ be_bytes 2 bitmap @ be_bytes 8 0 @ be_bytes 8 (2 ^ 64 - 1) @ be_bytes 4 replysize"
    "b2 = 70 # 0 # be_bytes 2 (vol_volid v) @ be_bytes 4 did @ be_bytes 2 bitmap @ be_bytes 8 offset"
    "b3 = 71 # 0 # be_bytes 2 (vol_volid v) @ be_bytes 4 did @ be_bytes 2 bitmap"
  shows "\<exists>n1 n2 n3.
    afp_getextattr (\<lambda>_. True) (Some v) did bitmap replysize path name srv =
      Send (encode_header h @ b1 @ wire_path (vol_path_encoding v) (Some path) @ replicate n1 0 @
        be_bytes 2 (length name) @ name) DSI_DEFAULT_TIMEOUT 69 s \<and>
    even (length (encode_header h @ b1 @ wire_path (vol_path_encoding v) (Some path)) + n1) \<and> n1 < 2 \<and>
    afp_setextattr (\<lambda>_. True) (Some v) did bitmap offset path name (length data) (Some data) srv =
      Send (encode_header h @ b2 @ wire_path (vol_path_encoding v) (Some path) @ replicate n2 0 @
        be_bytes 2 (length name) @ name @ be_bytes 4 (length data) @ data) DSI_DEFAULT_TIMEOUT 70 s \<and>
    even (length (encode_header h @ b2 @ wire_path (vol_path_encoding v) (Some path)) + n2) \<and> n2 < 2 \<and>
    afp_removeextattr (\<lambda>_. True) (Some v) did bitmap path name srv =
      Send (encode_header h @ b3 @ wire_path (vol_path_encoding v) (Some path) @ replicate n3 0 @
        be_bytes 2 (length name) @ name) DSI_DEFAULT_TIMEOUT 71 s \<and>
    even (length (encode_header h @ b3 @ wire_path (vol_path_encoding v) (Some path)) + n3) \<and> n3 < 2"
proof -
  let ?e = "vol_path_encoding v"
  have l: "path_len v path \<le> 7 + length path" by (rule path_len_bound)
  have lw: "length (wire_path ?e (Some path)) = path_len v path"
    using length_wire_path [OF assms(1)] by (simp add: path_bytes_def path_len_def)
  have m: "n mod 2 \<le> (1 :: nat)" for n by simp
  have g1: "afp_getextattr (\<lambda>_. True) (Some v) did bitmap replysize path name srv =
      Send (encode_header h @ b1 @ wire_path ?e (Some path) @ replicate ((46 + path_len v path) mod 2) 0 @ attr_name name)
        DSI_DEFAULT_TIMEOUT 69 s"
    unfolding afp_getextattr_def assms(6) Let_def and_1_mod_2 option.case
    by (rule path_tail_command_sends [OF _ assms(1,5)])
      (use l assms(2,3) m [of "46 + path_len v path"] in \<open>simp_all add: path_len_def attr_name_def\<close>)
  have g2: "afp_setextattr (\<lambda>_. True) (Some v) did bitmap offset path name (length data) (Some data) srv =
      Send (encode_header h @ b2 @ wire_path ?e (Some path) @ replicate ((34 + path_len v path) mod 2) 0 @
        attr_name name @ be_bytes 4 (length data) @ data) DSI_DEFAULT_TIMEOUT 70 s"
  proof -
    have "path_tail_command (\<lambda>_. True) ?e (u32 (34 + path_len v path + (34 + path_len v path) mod 2 + 2 + length name + 4 + length data))
        b2 path (attr_name name @ be_bytes 4 (length data) @ data) 70 srv =
      Send (encode_header h @ b2 @ wire_path ?e (Some path) @ replicate ((34 + path_len v path) mod 2) 0 @
        attr_name name @ be_bytes 4 (length data) @ data) DSI_DEFAULT_TIMEOUT 70 s"
      by (rule path_tail_command_sends [OF _ assms(1,5)])
        (use l assms(2-4,7) m [of "34 + path_len v path"] in \<open>simp_all add: path_len_def attr_name_def\<close>)
    then show ?thesis by (simp add: afp_setextattr_def Let_def and_1_mod_2 assms(7))
  qed
  have g3: "afp_removeextattr (\<lambda>_. True) (Some v) did bitmap path name srv =
      Send (encode_header h @ b3 @ wire_path ?e (Some path) @ replicate ((26 + path_len v path) mod 2) 0 @ attr_name name)
        DSI_DEFAULT_TIMEOUT 71 s"
    unfolding afp_removeextattr_def assms(8) Let_def and_1_mod_2 option.case
    by (rule path_tail_command_sends [OF _ assms(1,5)])
      (use l assms(2,3) m [of "26 + path_len v path"] in \<open>simp_all add: path_len_def attr_name_def\<close>)
  have ev: "even (n + n mod 2 :: nat)" for n by presburger
  have e: "even (length (encode_header h @ b1 @ wire_path ?e (Some path)) + (46 + path_len v path) mod 2)"
    "even (length (encode_header h @ b2 @ wire_path ?e (Some path)) + (34 + path_len v path) mod 2)"
    "even (length (encode_header h @ b3 @ wire_path ?e (Some path)) + (26 + path_len v path) mod 2)"
    using ev [of "46 + path_len v path"] ev [of "34 + path_len v path"] ev [of "26 + path_len v path"] by (simp_all add: lw assms(6-8))
  have lt: "n mod 2 < (2 :: nat)" for n by simp
  show ?thesis
    using g1 g2 g3 e lt unfolding attr_name_def append_assoc by (intro exI conjI)
qed

theorem attribute_requests_layout_witness:
  "\<exists>n. afp_setextattr (\<lambda>_. True) (Some sample_volume) 2 0 0 [0x61] [0x6e] (length [1, 2 :: byte]) (Some [1, 2]) (idle_session :: nat afp_server) =
    Send (encode_header (fst (setup_header (idle_session :: nat afp_server) DSI_DSICommand)) @
      (70 # 0 # be_bytes 2 (vol_volid sample_volume) @ be_bytes 4 2 @ be_bytes 2 0 @ be_bytes 8 0) @ wire_path kFPUTF8Name (Some [0x61]) @
      replicate n 0 @ be_bytes 2 (length [0x6e :: byte]) @ [0x6e] @ be_bytes 4 (length [1, 2 :: byte]) @ [1, 2]) DSI_DEFAULT_TIMEOUT 70
      (snd (setup_header (idle_session :: nat afp_server) DSI_DSICommand))"
proof -
  let ?i = "idle_session :: nat afp_server" and ?e = "vol_path_encoding sample_volume"
  have p: "path_ok ?e (Some [0x61])" "?e = kFPUTF8Name" by (simp_all add: path_ok_def path_bytes_def sample_volume_def)
  have h: "setup_header ?i DSI_DSICommand = (fst (setup_header ?i DSI_DSICommand), snd (setup_header ?i DSI_DSICommand))" by simp
  have l: "length [0x61 :: byte] < 65536" "length [0x6e :: byte] < 65536" "length [1, 2 :: byte] < 2 ^ 31" by simp_all
  show ?thesis using attribute_requests_layout [OF p(1) l h refl refl refl, of 2 0 0 0] unfolding p(2) by blast
qed

text \<open>Logins say what they should. \<open>FPLogin\<close>, \<open>FPLoginExt\<close>, \<open>FPLoginCont\<close> and \<open>FPChangePassword\<close> fill
  buffers of exactly their messages' lengths: the version and the method as Pascal strings, the user's
  name in the protocol's UTF-8 form cut to 127 bytes, the authentication's bytes unchanged at the end,
  and in the commands that require it at an even offset of the command.\<close>
theorem login_messages_layout:
  assumes "length ver \<le> 255" "length uam \<le> 255" "length info < 2 ^ 31" "setup_header srv DSI_DSICommand = (h, s)"
  shows "afp_login (\<lambda>_. True) ver uam info srv =
      Send (encode_header h @ [18] @ (of_nat (length ver) # ver) @ (of_nat (length uam) # uam) @ info) DSI_LOGIN_TIMEOUT 18 s \<and>
    (\<exists>cmd. afp_loginext (\<lambda>_. True) ver uam user info srv = Send (encode_header h @ cmd @ info) DSI_LOGIN_TIMEOUT 63 s \<and>
      even (length cmd) \<and> (\<exists>pad. cmd = [63, 0, 0, 0] @ (of_nat (length ver) # ver) @ (of_nat (length uam) # uam) @
        3 # be_bytes 2 (min (length user) 127) @ take 127 user @ [3, 0, 0] @ pad \<and> pad \<in> {[], [0]})) \<and>
    afp_logincont (\<lambda>_. True) ident info srv = Send (encode_header h @ (19 # 0 # be_bytes 2 ident) @ info) DSI_LOGIN_TIMEOUT 19 s \<and>
    (\<exists>cmd. afp_changepassword (\<lambda>_. True) uam info srv = Send (encode_header h @ cmd @ info) DSI_DEFAULT_TIMEOUT 36 s \<and>
      even (length cmd) \<and> (\<exists>pad. cmd = [36, 0] @ (of_nat (length uam) # uam) @ pad \<and> pad \<in> {[], [0]}))"
proof (intro conjI)
  have m: "min (length ver) 255 = length ver" "min (length uam) 255 = length uam" using assms(1,2) by simp_all
  have u1: "n mod 2 \<le> (1 :: nat)" for n by simp
  have u2: "replicate (n mod 2) x \<in> {[], [x]}" for n and x :: byte by (cases "n mod 2 = 0") simp_all
  show "afp_login (\<lambda>_. True) ver uam info srv =
      Send (encode_header h @ [18] @ (of_nat (length ver) # ver) @ (of_nat (length uam) # uam) @ info) DSI_LOGIN_TIMEOUT 18 s"
    unfolding afp_login_def by (subst pieces_command_sends [OF _ _ assms(4)]) (use assms(1-3) in \<open>simp_all add: min_def\<close>)
  show "afp_logincont (\<lambda>_. True) ident info srv = Send (encode_header h @ (19 # 0 # be_bytes 2 ident) @ info) DSI_LOGIN_TIMEOUT 19 s"
    unfolding afp_logincont_def by (subst pieces_command_sends [OF _ _ assms(4)]) (use assms(3) in simp_all)
  let ?n = "u8 (length uam) + 1"
  let ?c = "[36, 0] @ (of_nat (length uam) # uam) @ replicate (?n mod 2) 0"
  have "afp_changepassword (\<lambda>_. True) uam info srv = Send (encode_header h @ ?c @ info) DSI_DEFAULT_TIMEOUT 36 s"
    unfolding afp_changepassword_def Let_def and_1_mod_2
    by (subst pieces_command_sends [OF _ _ assms(4)]) (use assms(2,3) u1 [of ?n] in \<open>simp_all add: m\<close>)
  moreover have "even (length ?c)" using assms(2) by simp
  ultimately show "\<exists>cmd. afp_changepassword (\<lambda>_. True) uam info srv = Send (encode_header h @ cmd @ info) DSI_DEFAULT_TIMEOUT 36 s \<and>
      even (length cmd) \<and> (\<exists>pad. cmd = [36, 0] @ (of_nat (length uam) # uam) @ pad \<and> pad \<in> {[], [0]})"
    using u2 by blast
  let ?l = "min (length user) 127"
  let ?k = "4 + (length ver + 1) + (length uam + 1) + (1 + 2 + ?l) + (1 + 2)"
  let ?d = "[63, 0, 0, 0] @ (of_nat (length ver) # ver) @ (of_nat (length uam) # uam) @ 3 # be_bytes 2 ?l @ take 127 user @ [3, 0, 0] @
      replicate (?k mod 2) 0"
  have t: "take ?l user = take 127 user" by (simp add: min_def)
  have "afp_loginext (\<lambda>_. True) ver uam user info srv = Send (encode_header h @ ?d @ info) DSI_LOGIN_TIMEOUT 63 s"
    unfolding afp_loginext_def Let_def and_1_mod_2 m t
    by (subst pieces_command_sends [OF _ _ assms(4)]) (use assms(1-3) u1 [of ?k] in \<open>simp_all add: m\<close>)
  moreover have "even (length ?d)" by simp presburger
  ultimately show "\<exists>cmd. afp_loginext (\<lambda>_. True) ver uam user info srv = Send (encode_header h @ cmd @ info) DSI_LOGIN_TIMEOUT 63 s \<and>
      even (length cmd) \<and> (\<exists>pad. cmd = [63, 0, 0, 0] @ (of_nat (length ver) # ver) @ (of_nat (length uam) # uam) @
        3 # be_bytes 2 (min (length user) 127) @ take 127 user @ [3, 0, 0] @ pad \<and> pad \<in> {[], [0]})"
    using u2 by blast
qed

theorem login_messages_layout_witness:
  "\<exists>h s. afp_login (\<lambda>_. True) [0x41] [0x42, 0x43] [9] (idle_session :: nat afp_server) =
     Send (encode_header h @ [18] @ [1, 0x41] @ [2, 0x42, 0x43] @ [9]) DSI_LOGIN_TIMEOUT 18 s"
proof -
  obtain h s where h: "setup_header (idle_session :: nat afp_server) DSI_DSICommand = (h, s)" by fastforce
  show ?thesis
    using login_messages_layout [OF _ _ _ h, of "[0x41]" "[0x42, 0x43]" "[9]"] by auto
qed

end
