(* ===== verification/Cstring.thy ===== *)
theory Cstring
  imports Prelude
begin

text \<open>
  Searches of C strings, given as the list of their characters in front of the NUL: \<open>strchr\<close>,
  \<open>strrchr\<close> and \<open>strstr\<close> as offsets.  Paths are byte strings, URLs character strings.
\<close>

fun strchr :: "'a list \<Rightarrow> 'a \<Rightarrow> nat option" where
  "strchr [] c = None"
| "strchr (d # ds) c = (if d = c then Some 0 else map_option Suc (strchr ds c))"

definition strrchr :: "'a list \<Rightarrow> 'a \<Rightarrow> nat option" where
  "strrchr s c = map_option (\<lambda>k. length s - 1 - k) (strchr (rev s) c)"

fun strstr :: "'a list \<Rightarrow> 'a list \<Rightarrow> nat option" where
  "strstr s pat =
     (if take (length pat) s = pat then Some 0
      else case s of [] \<Rightarrow> None | _ # ds \<Rightarrow> map_option Suc (strstr ds pat))"

declare strstr.simps [simp del]

lemma strchr_None: "c \<notin> set s \<Longrightarrow> strchr s c = None"
  by (induction s) auto

lemma strchr_None_iff: "strchr s c = None \<longleftrightarrow> c \<notin> set s"
  by (induction s) auto

lemma strchr_append: "c \<notin> set a \<Longrightarrow> strchr (a @ c # b) c = Some (length a)"
  by (induction a) auto

lemma strrchr_None: "c \<notin> set s \<Longrightarrow> strrchr s c = None"
  by (simp add: strrchr_def strchr_None)

lemma strrchr_append: "c \<notin> set b \<Longrightarrow> strrchr (a @ c # b) c = Some (length a)"
  using strchr_append [of c "rev b" "rev a"] by (simp add: strrchr_def)

lemma strrchr_Some: "strrchr s c = Some k \<Longrightarrow> k < length s \<and> s ! k = c \<and> c \<notin> set (drop (Suc k) s)"
proof -
  assume k: "strrchr s c = Some k"
  then have "c \<in> set s" using strrchr_None [of c s] by fastforce
  then obtain a b where s: "s = a @ c # b" "c \<notin> set b" by (metis split_list_last)
  then show ?thesis using k strrchr_append [OF s(2), of a] by (auto simp: nth_append)
qed

lemma strchr_Some: "strchr s c = Some k \<Longrightarrow> k < length s \<and> s ! k = c \<and> c \<notin> set (take k s)"
proof (induction s arbitrary: k)
  case (Cons d s)
  then show ?case by (auto split: if_splits)
qed simp

end
