(* ===== verification/Did.thy ===== *)
theory Did
  imports Listing Cstring "HOL-Library.List_Lexorder"
begin

text \<open>
  The cache of directory IDs by path, \<open>lib/did.c\<close>, and the walk that resolves a path with it.  The linked
  list is the list of its entries, newest first.  The clock, and the server's answers to
  \<open>afp_getfiledirparms\<close> with what other threads do to the cache while a request is out, are parameters
  over a state \<open>'w\<close> of the world.  Pointers are offsets of the path's string.
\<close>

unbundle bit_operations_syntax

abbreviation (input) slash :: byte where "slash \<equiv> 0x2f"
abbreviation (input) AFP_ROOT_DID :: nat where "AFP_ROOT_DID \<equiv> 2"
abbreviation (input) kFPNoErr :: int where "kFPNoErr \<equiv> 0"
abbreviation (input) kFPAccessDenied :: int where "kFPAccessDenied \<equiv> -5000"
abbreviation (input) kFPObjectNotFound :: int where "kFPObjectNotFound \<equiv> -5018"
abbreviation (input) kFPDirNotFound :: int where "kFPDirNotFound \<equiv> -5029"
abbreviation (input) kFPVolLocked :: int where "kFPVolLocked \<equiv> -5031"

section \<open>Entries\<close>

record did_cache_entry =
  dc_dirname :: bytes
  dc_did :: nat
  dc_parentdid :: nat
  dc_name :: bytes
  dc_time :: int

record did_stats =
  st_hits :: nat
  st_misses :: nat
  st_expired :: nat
  st_force_removed :: nat

record did_cache =
  cache_base :: "did_cache_entry list"
  cache_stats :: did_stats

definition count_expired :: "did_stats \<Rightarrow> did_stats" where
  "count_expired st = st\<lparr>st_expired := u64 (st_expired st + 1)\<rparr>"

definition count_forced :: "did_stats \<Rightarrow> did_stats" where
  "count_forced st = st\<lparr>st_force_removed := u64 (st_force_removed st + 1)\<rparr>"

definition free_entire_did_cache :: "did_cache \<Rightarrow> did_cache" where
  "free_entire_did_cache c = c\<lparr>cache_base := []\<rparr>"

definition did_entry_expired :: "did_cache_entry \<Rightarrow> int \<Rightarrow> bool" where
  "did_entry_expired p now \<longleftrightarrow> now > dc_time p + 10"

fun path_length_loop :: "bytes \<Rightarrow> nat \<Rightarrow> nat" where
  "path_length_loop path len = (if len > 1 \<and> path ! (len - 1) = slash then path_length_loop path (len - 1) else len)"

declare path_length_loop.simps [simp del]

definition did_path_length :: "bytes \<Rightarrow> nat" where
  "did_path_length path = path_length_loop path (length path)"

definition did_separator :: "nat \<Rightarrow> nat" where
  "did_separator path_len = (if path_len = 1 then 0 else path_len)"

text \<open>\<open>strncmp\<close> of \<open>n\<close> bytes of strings, the second of at least \<open>n\<close>, is equality of their first \<open>n\<close>.\<close>

definition did_child_of :: "bytes \<Rightarrow> bytes \<Rightarrow> nat \<Rightarrow> bool" where
  "did_child_of dirname path path_len \<longleftrightarrow>
     (let sep = did_separator path_len in
      take sep dirname = take sep path \<and> sep < length dirname \<and> dirname ! sep = slash
      \<and> strchr (drop (sep + 1) dirname) slash = None)"

definition walk_start :: "bytes \<Rightarrow> nat \<Rightarrow> nat" where
  "walk_start path path_len = (if path_len < length path \<and> path ! path_len = slash then path_len + 1 else path_len)"

section \<open>Forgetting\<close>

definition on_line :: "bytes \<Rightarrow> bool \<Rightarrow> bytes \<Rightarrow> bool" where
  "on_line path ancestors dirname \<longleftrightarrow>
     (let path_len = did_path_length path; sep = did_separator path_len; len = length dirname;
          common = (if len < path_len then len else path_len) in
      take common dirname = take common path
      \<and> (len = path_len \<or> len > path_len \<and> dirname ! sep = slash \<or> ancestors \<and> len < path_len \<and> path ! len = slash))"

fun forget_loop :: "bytes \<Rightarrow> bool \<Rightarrow> int \<Rightarrow> did_cache_entry list \<Rightarrow> did_stats \<Rightarrow> did_cache_entry list \<times> did_stats" where
  "forget_loop path ancestors now [] st = ([], st)"
| "forget_loop path ancestors now (p # ps) st =
     (if did_entry_expired p now \<or> on_line path ancestors (dc_dirname p)
      then forget_loop path ancestors now ps (if did_entry_expired p now then count_expired st else count_forced st)
      else case forget_loop path ancestors now ps st of (ps', st') \<Rightarrow> (p # ps', st'))"

definition forget_locked :: "bytes \<Rightarrow> bool \<Rightarrow> int \<Rightarrow> did_cache \<Rightarrow> did_cache" where
  "forget_locked path ancestors now c =
     (case forget_loop path ancestors now (cache_base c) (cache_stats c) of
        (ps, st) \<Rightarrow> c\<lparr>cache_base := ps, cache_stats := st\<rparr>)"

definition forget_did_paths :: "('w \<Rightarrow> int \<times> 'w) \<Rightarrow> bytes \<Rightarrow> bool \<Rightarrow> did_cache \<Rightarrow> 'w \<Rightarrow> did_cache \<times> 'w" where
  "forget_did_paths gettimeofday path ancestors c w =
     (case gettimeofday w of (now, w') \<Rightarrow> (forget_locked path ancestors now c, w'))"

definition remove_did_lineage :: "('w \<Rightarrow> int \<times> 'w) \<Rightarrow> bytes \<Rightarrow> did_cache \<Rightarrow> 'w \<Rightarrow> did_cache \<times> 'w" where
  "remove_did_lineage gettimeofday path c w = forget_did_paths gettimeofday path True c w"

definition remove_did_subtree :: "('w \<Rightarrow> int \<times> 'w) \<Rightarrow> bytes \<Rightarrow> did_cache \<Rightarrow> 'w \<Rightarrow> did_cache \<times> 'w" where
  "remove_did_subtree gettimeofday path c w = forget_did_paths gettimeofday path False c w"

fun forget_taken_loop :: "int \<Rightarrow> did_cache_entry list \<Rightarrow> did_cache \<Rightarrow> did_cache" where
  "forget_taken_loop now [] c = c"
| "forget_taken_loop now (p # ps) c =
     (let c1 = forget_locked (dc_dirname p) False now c in
      forget_taken_loop now ps (c1\<lparr>cache_stats := count_forced (cache_stats c1)\<rparr>))"

definition forget_taken :: "('w \<Rightarrow> int \<times> 'w) \<Rightarrow> did_cache_entry list \<Rightarrow> did_cache \<Rightarrow> 'w \<Rightarrow> did_cache \<times> 'w" where
  "forget_taken gettimeofday taken c w =
     (if taken = [] then (c, w)
      else case gettimeofday w of (now, w') \<Rightarrow> (forget_taken_loop now taken c, w'))"

section \<open>A listing's folders\<close>

text \<open>The folders of a listing that carry a node ID, and \<^term>\<open>None\<close> for a name outside the pool.\<close>

fun index_loop :: "afp_listing \<Rightarrow> afp_dirent list \<Rightarrow> (bytes \<times> nat) list option" where
  "index_loop l [] = Some []"
| "index_loop l (e # es) =
     (if de_isdir e \<noteq> 0 \<and> has_bit (de_valid e) kFPNodeIDBit then
        (case dirent_name l e of
           None \<Rightarrow> None
         | Some name \<Rightarrow> map_option (Cons (name, de_cnid e)) (index_loop l es))
      else index_loop l es)"

text \<open>\<open>Some None\<close> is the return without memory; \<open>qsort\<close> by name with the order of \<open>strcmp\<close>.\<close>

definition index_folders :: "(nat \<Rightarrow> bool) \<Rightarrow> afp_listing \<Rightarrow> (bytes \<times> nat) list option option" where
  "index_folders malloc_ok l =
     (if \<not> malloc_ok (ls_count l * 16) then Some None
      else map_option (\<lambda>fs. Some (sort_key fst fs)) (index_loop l (take (ls_count l) (ls_entries l))))"

function bsearch :: "bytes \<Rightarrow> (bytes \<times> nat) list \<Rightarrow> nat \<Rightarrow> nat \<Rightarrow> (bytes \<times> nat) option" where
  "bsearch key xs lo hi =
     (if lo \<ge> hi then None
      else let i = (lo + hi) div 2 in
        if key < fst (xs ! i) then bsearch key xs lo i
        else if fst (xs ! i) < key then bsearch key xs (i + 1) hi
        else Some (xs ! i))"
  by pat_completeness auto
termination
  by (relation "measure (\<lambda>(_, _, lo, hi). hi - lo)") auto

declare bsearch.simps [simp del]

definition listing_holds_folder :: "(bytes \<times> nat) list \<Rightarrow> bytes \<Rightarrow> nat \<Rightarrow> bool" where
  "listing_holds_folder folders name did =
     (case bsearch name folders 0 (length folders) of None \<Rightarrow> False | Some f \<Rightarrow> snd f = did)"

definition has_cached_child :: "did_cache \<Rightarrow> bytes \<Rightarrow> nat \<Rightarrow> bool" where
  "has_cached_child c path path_len = list_ex (\<lambda>p. did_child_of (dc_dirname p) path path_len) (cache_base c)"

section \<open>Checking entries against the server\<close>

definition did_stale :: "bytes \<Rightarrow> nat \<Rightarrow> (bytes \<times> nat) list option \<Rightarrow> did_cache_entry \<Rightarrow> bool" where
  "did_stale path did folders p =
     (let path_len = did_path_length path in
      if did \<noteq> 0 \<and> dc_dirname p = take path_len path then dc_did p \<noteq> did
      else if did_child_of (dc_dirname p) path path_len then
        did \<noteq> 0 \<and> dc_parentdid p \<noteq> did
        \<or> (case folders of None \<Rightarrow> False | Some fs \<Rightarrow> \<not> listing_holds_folder fs (dc_name p) (dc_did p))
      else False)"

fun take_stale :: "(did_cache_entry \<Rightarrow> bool) \<Rightarrow> did_cache_entry list \<Rightarrow> did_cache_entry list
    \<Rightarrow> did_cache_entry list \<times> did_cache_entry list" where
  "take_stale stale [] taken = ([], taken)"
| "take_stale stale (p # ps) taken =
     (if stale p then take_stale stale ps (p # taken)
      else case take_stale stale ps taken of (kept, taken') \<Rightarrow> (p # kept, taken'))"

text \<open>The part under the lock, with the index of a complete listing or without.\<close>

definition check_did_indexed ::
  "('w \<Rightarrow> int \<times> 'w) \<Rightarrow> bytes \<Rightarrow> nat \<Rightarrow> (bytes \<times> nat) list option \<Rightarrow> did_cache \<Rightarrow> 'w \<Rightarrow> did_cache \<times> 'w" where
  "check_did_indexed gettimeofday path did folders c w =
     (case take_stale (did_stale path did folders) (cache_base c) [] of
        (kept, taken) \<Rightarrow> forget_taken gettimeofday taken (c\<lparr>cache_base := kept\<rparr>) w)"

definition check_did_entry ::
  "(nat \<Rightarrow> bool) \<Rightarrow> ('w \<Rightarrow> int \<times> 'w) \<Rightarrow> bytes \<Rightarrow> nat \<Rightarrow> afp_listing option \<Rightarrow> did_cache \<Rightarrow> 'w \<Rightarrow> (did_cache \<times> 'w) option" where
  "check_did_entry malloc_ok gettimeofday path did l c w =
     map_option (\<lambda>folders. check_did_indexed gettimeofday path did folders c w)
       (case l of
          None \<Rightarrow> Some None
        | Some l \<Rightarrow>
            if ls_count l > 0 then
              (if \<not> has_cached_child c path (did_path_length path) then Some None else index_folders malloc_ok l)
            else Some (Some []))"

section \<open>Adding and finding\<close>

definition add_did_cache_entry ::
  "(nat \<Rightarrow> bool) \<Rightarrow> ('w \<Rightarrow> int \<times> 'w) \<Rightarrow> nat \<Rightarrow> nat \<Rightarrow> nat \<Rightarrow> bytes \<Rightarrow> bytes \<Rightarrow> did_cache \<Rightarrow> 'w
     \<Rightarrow> (int \<times> did_cache \<times> 'w) option" where
  "add_did_cache_entry malloc_ok gettimeofday path_encoding parentdid new_did path name c w =
     (if \<not> malloc_ok 48 \<or> \<not> malloc_ok (length path + 1) then Some (-1, c, w)
      else case convert_name_to_unix malloc_ok path_encoding name AFPC_MAX_NAME_BYTES of
          None \<Rightarrow> None
        | Some (r, unix_name) \<Rightarrow>
            if r \<noteq> 0 \<or> \<not> malloc_ok (length unix_name + 1) then Some (-1, c, w)
            else case gettimeofday w of
              (now, w') \<Rightarrow>
                Some (0, c\<lparr>cache_base := \<lparr>dc_dirname = path, dc_did = new_did, dc_parentdid = parentdid, dc_name = unix_name,
                  dc_time = now\<rparr> # cache_base c\<rparr>, w'))"

fun find_loop :: "int \<Rightarrow> bytes \<Rightarrow> did_cache_entry list \<Rightarrow> did_stats \<Rightarrow> nat \<times> did_cache_entry list \<times> did_stats" where
  "find_loop now path [] st = (0, [], st)"
| "find_loop now path (p # ps) st =
     (if did_entry_expired p now then
        (if dc_dirname p = path then (0, ps, count_expired st) else find_loop now path ps (count_expired st))
      else if dc_dirname p = path then (dc_did p, p # ps, st\<lparr>st_hits := u64 (st_hits st + 1)\<rparr>)
      else case find_loop now path ps st of (did, ps', st') \<Rightarrow> (did, p # ps', st'))"

definition find_dirid_by_fullname :: "('w \<Rightarrow> int \<times> 'w) \<Rightarrow> bytes \<Rightarrow> did_cache \<Rightarrow> 'w \<Rightarrow> nat \<times> did_cache \<times> 'w" where
  "find_dirid_by_fullname gettimeofday path c w =
     (case gettimeofday w of
        (now, w') \<Rightarrow>
          (case find_loop now path (cache_base c) (cache_stats c) of
             (did, ps, st) \<Rightarrow> (did, c\<lparr>cache_base := ps, cache_stats := st\<rparr>, w')))"

section \<open>Resolving a path\<close>

definition ll_answer_errno :: "int \<Rightarrow> int" where
  "ll_answer_errno rc =
     (if rc = kFPNoErr then 0 else if rc = kFPAccessDenied then EACCES else if rc = kFPObjectNotFound then ENOENT
      else if rc = kFPVolLocked then EROFS else EIO)"

text \<open>\<open>gettimeofday\<close>, and a request for the parameters of a name in a directory, with its return code, the entry
  it fills and the cache as other threads leave it.\<close>

record 'w did_env =
  de_time :: "'w \<Rightarrow> int \<times> 'w"
  de_parms :: "'w \<Rightarrow> did_cache \<Rightarrow> nat \<Rightarrow> bytes \<Rightarrow> int \<times> afp_dirent \<times> did_cache \<times> 'w"

text \<open>The loop over the path's parents: the nearest one cached, with the length of its path.\<close>

function nearest_parent :: "('w \<Rightarrow> int \<times> 'w) \<Rightarrow> bytes \<Rightarrow> nat \<Rightarrow> did_cache \<Rightarrow> 'w \<Rightarrow> nat \<times> nat \<times> did_cache \<times> 'w" where
  "nearest_parent gettimeofday known_parent parent_did c w =
     (case strrchr known_parent slash of
        None \<Rightarrow> (parent_did, 0, c, w)
      | Some k \<Rightarrow>
          if k = 0 then (AFP_ROOT_DID, 1, c, w)
          else case find_dirid_by_fullname gettimeofday (take k known_parent) c w of
            (did, c', w') \<Rightarrow>
              if did \<noteq> 0 then (did, k, c', w') else nearest_parent gettimeofday (take k known_parent) did c' w')"
  by pat_completeness auto
termination
  by (relation "measure (\<lambda>(_, known, _). length known)") (auto dest: strrchr_Some)

declare nearest_parent.simps [simp del]

text \<open>The walk from a component on: the return value, the directory's ID, the cache and the world.\<close>

function dirid_walk ::
  "(nat \<Rightarrow> bool) \<Rightarrow> 'w did_env \<Rightarrow> nat \<Rightarrow> bytes \<Rightarrow> nat \<Rightarrow> nat \<Rightarrow> nat \<Rightarrow> did_cache \<Rightarrow> 'w
     \<Rightarrow> (int \<times> nat \<times> did_cache \<times> 'w) option" where
  "dirid_walk malloc_ok env path_encoding path known_parent_len parent_did component c w =
     (case strchr (drop component path) slash of
        None \<Rightarrow> Some (0, parent_did, c, w)
      | Some component_len \<Rightarrow>
          let name = take component_len (drop component path); component_end = component + component_len in
          if \<not> malloc_ok (component_len + 1) then Some (- ENOMEM, parent_did, c, w)
          else case de_parms env w (c\<lparr>cache_stats := (cache_stats c)\<lparr>st_misses := u64 (st_misses (cache_stats c) + 1)\<rparr>\<rparr>)
                      parent_did name of
            (rc, fi, c1, w1) \<Rightarrow>
              if (rc = kFPDirNotFound \<or> rc = kFPObjectNotFound) \<and> known_parent_len > 1 then
                (case remove_did_lineage (de_time env) path c1 w1 of
                   (c2, w2) \<Rightarrow> dirid_walk malloc_ok env path_encoding path 1 AFP_ROOT_DID (walk_start path 1) c2 w2)
              else if ll_answer_errno rc \<noteq> 0 then Some (- ll_answer_errno rc, parent_did, c1, w1)
              else if \<not> has_bit (de_valid fi) kFPNodeIDBit then Some (- EIO, parent_did, c1, w1)
              else if de_isdir fi = 0 then Some (- ENOTDIR, parent_did, c1, w1)
              else if \<not> malloc_ok (component_end + 1) then Some (- ENOMEM, parent_did, c1, w1)
              else case check_did_indexed (de_time env) (take component_end path) (de_cnid fi) None c1 w1 of
                (c2, w2) \<Rightarrow>
                  (case add_did_cache_entry malloc_ok (de_time env) path_encoding parent_did (de_cnid fi)
                          (take component_end path) name c2 w2 of
                     None \<Rightarrow> None
                   | Some (_, c3, w3) \<Rightarrow>
                       dirid_walk malloc_ok env path_encoding path known_parent_len (de_cnid fi) (component_end + 1) c3 w3))"
  by pat_completeness auto
termination
  by (relation "measures [\<lambda>(_, _, _, _, known, _). if known > 1 then 1 else 0, \<lambda>(_, _, _, path, _, _, component, _). length path - component]")
    (auto dest!: strchr_Some)

declare dirid_walk.simps [simp del]

text \<open>The return value, \<open>*dirid\<close> and \<open>basename\<close> where they are set, the cache and the world.\<close>

definition get_dirid ::
  "(nat \<Rightarrow> bool) \<Rightarrow> 'w did_env \<Rightarrow> nat \<Rightarrow> bytes option \<Rightarrow> bool \<Rightarrow> did_cache \<Rightarrow> 'w
     \<Rightarrow> ((int \<times> nat option \<times> bytes option) \<times> did_cache \<times> 'w) option" where
  "get_dirid malloc_ok env path_encoding path has_dirid c w =
     (case path of
        None \<Rightarrow> Some ((- EINVAL, None, None), c, w)
      | Some path \<Rightarrow>
          (case strrchr path slash of
             None \<Rightarrow> Some ((- EINVAL, None, None), c, w)
           | Some last_slash \<Rightarrow>
               let basename = drop (last_slash + 1) path in
               if \<not> has_dirid then Some ((- EINVAL, None, None), c, w)
               else if length basename \<ge> AFPC_MAX_NAME_BYTES then Some ((- ENAMETOOLONG, None, None), c, w)
               else if last_slash = 0 then Some ((0, Some AFP_ROOT_DID, Some basename), c, w)
               else if \<not> malloc_ok (last_slash + 1) then Some ((- ENOMEM, None, Some basename), c, w)
               else case find_dirid_by_fullname (de_time env) (take last_slash path) c w of
                 (newdid, c1, w1) \<Rightarrow>
                   if newdid \<noteq> 0 then Some ((0, Some newdid, Some basename), c1, w1)
                   else case nearest_parent (de_time env) (take last_slash path) AFP_ROOT_DID c1 w1 of
                     (parent_did, known_parent_len, c2, w2) \<Rightarrow>
                       map_option (\<lambda>(ret, did, c3, w3). ((ret, if ret = 0 then Some did else None, Some basename), c3, w3))
                         (dirid_walk malloc_ok env path_encoding path known_parent_len parent_did
                            (walk_start path known_parent_len) c2 w2)))"

section \<open>Operations that only forget\<close>

text \<open>What a client of the cache relies on: an operation drops entries and changes none, in their order.\<close>

locale forgetting =
  fixes forget :: "'a \<Rightarrow> did_cache \<Rightarrow> did_cache"
  assumes only_drops: "subseq (cache_base (forget a c)) (cache_base c)"
begin

lemma kept_from: "set (cache_base (forget a c)) \<subseteq> set (cache_base c)"
  using list_emb_set [OF only_drops] by blast

lemma keeps_all: "\<forall>e \<in> set (cache_base c). P e \<Longrightarrow> \<forall>e \<in> set (cache_base (forget a c)). P e"
  using kept_from by blast

lemma keeps_pairs:
  "\<forall>e \<in> set (cache_base c). \<forall>e' \<in> set (cache_base c). P e e' \<Longrightarrow>
    \<forall>e \<in> set (cache_base (forget a c)). \<forall>e' \<in> set (cache_base (forget a c)). P e e'"
  using kept_from by blast

end

lemma forget_loop_filter:
  "fst (forget_loop path ancestors now ps st) =
    filter (\<lambda>p. \<not> (did_entry_expired p now \<or> on_line path ancestors (dc_dirname p))) ps"
  by (induction ps arbitrary: st) (simp_all add: case_prod_beta)

lemma forget_locked_base:
  "cache_base (forget_locked path ancestors now c) =
    filter (\<lambda>p. \<not> (did_entry_expired p now \<or> on_line path ancestors (dc_dirname p))) (cache_base c)"
  using forget_loop_filter [of path ancestors now "cache_base c" "cache_stats c"]
  by (simp add: forget_locked_def case_prod_beta)

lemma forget_taken_loop_base:
  "cache_base (forget_taken_loop now taken c) =
    filter (\<lambda>p. \<forall>r \<in> set taken. \<not> (did_entry_expired p now \<or> on_line (dc_dirname r) False (dc_dirname p))) (cache_base c)"
proof (induction taken arbitrary: c)
  case (Cons p ps)
  then show ?case by (simp add: Let_def forget_locked_base)
qed simp

lemma take_stale_split:
  "take_stale stale ps taken = (filter (\<lambda>p. \<not> stale p) ps, rev (filter stale ps) @ taken)"
  by (induction ps arbitrary: taken) auto

lemma find_loop_base:
  "find_loop now path ps st = (d, ps', st') \<Longrightarrow> subseq ps' ps \<and> (d \<noteq> 0 \<longrightarrow> (\<exists>e \<in> set ps. dc_dirname e = path \<and> dc_did e = d))"
  by (induction ps arbitrary: st d ps' st') (auto split: if_splits prod.splits intro: list_emb_Cons)

interpretation forgetting_paths: forgetting "\<lambda>(path, ancestors, now). forget_locked path ancestors now"
  by unfold_locales (simp add: forget_locked_base subseq_filter_left split: prod.split)

interpretation forgetting_search: forgetting "\<lambda>(gettimeofday, path, w) c. fst (snd (find_dirid_by_fullname gettimeofday path c w))"
  by unfold_locales (auto simp: find_dirid_by_fullname_def split: prod.split dest: find_loop_base)

interpretation forgetting_check: forgetting
  "\<lambda>(gettimeofday, path, did, folders, w) c. fst (check_did_indexed gettimeofday path did folders c w)"
  by unfold_locales
    (auto simp: check_did_indexed_def take_stale_split forget_taken_def forget_taken_loop_base split: prod.split
      intro: subseq_order.trans [OF subseq_filter_left])

section \<open>The tree the server keeps\<close>

text \<open>The names a walk resolves: the components that a slash ends.\<close>

function names :: "bytes \<Rightarrow> bytes list" where
  "names s = (case strchr s slash of None \<Rightarrow> [] | Some k \<Rightarrow> take k s # names (drop (k + 1) s))"
  by pat_completeness auto
termination
  by (relation "measure length") (auto dest: strchr_Some)

declare names.simps [simp del]

lemma names_Nil [simp]: "names [] = []"
  by (simp add: names.simps)

lemma names_first: "slash \<notin> set x \<Longrightarrow> names (x @ slash # z) = x # names z"
  by (subst names.simps) (simp add: strchr_append)

lemma names_append: "a = [] \<or> last a = slash \<Longrightarrow> names (a @ b) = names a @ names b"
proof (induction "length a" arbitrary: a rule: less_induct)
  case less
  show ?case
  proof (cases "a = []")
    case False
    then have "slash \<in> set a" using less.prems by (metis last_in_set)
    then obtain x y where a: "a = x @ slash # y" "slash \<notin> set x" by (metis split_list_first)
    note n = names_first [OF a(2)]
    have "names (y @ b) = names y @ names b"
      using less a False by (intro less) (auto split: if_splits)
    then show ?thesis by (simp add: a n)
  qed simp
qed

text \<open>Directories by ID, each a map from names to whether it is a directory, and an ID.\<close>

type_synonym dir_tree = "nat \<Rightarrow> (bytes \<Rightarrow> (bool \<times> nat) option) option"

fun resolve :: "dir_tree \<Rightarrow> nat \<Rightarrow> bytes list \<Rightarrow> int + nat" where
  "resolve t d [] = Inr d"
| "resolve t d (n # ns) =
     (case t d of
        None \<Rightarrow> Inl (- EIO)
      | Some m \<Rightarrow>
          (case m n of
             None \<Rightarrow> Inl (- ENOENT)
           | Some (isdir, i) \<Rightarrow> if isdir then resolve t i ns else Inl (- ENOTDIR)))"

lemma resolve_append:
  "resolve t d (xs @ ys) = (case resolve t d xs of Inl e \<Rightarrow> Inl e | Inr d' \<Rightarrow> resolve t d' ys)"
  by (induction xs arbitrary: d) (auto split: option.split)

definition wf_tree :: "dir_tree \<Rightarrow> bool" where
  "wf_tree t \<longleftrightarrow> t AFP_ROOT_DID \<noteq> None \<and> (\<forall>d m n i. t d = Some m \<and> m n = Some (True, i) \<longrightarrow> t i \<noteq> None)"

lemma resolve_exists: "wf_tree t \<Longrightarrow> t d \<noteq> None \<Longrightarrow> resolve t d ns = Inr i \<Longrightarrow> t i \<noteq> None"
proof (induction ns arbitrary: d)
  case (Cons n ns)
  then obtain m j where m: "t d = Some m" "m n = Some (True, j)" "resolve t j ns = Inr i"
    by (auto split: option.splits if_splits)
  then show ?case using Cons.IH [OF Cons.prems(1) _ m(3)] Cons.prems(1) by (auto simp: wf_tree_def)
qed simp

lemma resolve_error: "resolve t d ns = Inl e \<Longrightarrow> e \<in> {- EIO, - ENOENT, - ENOTDIR}"
  by (induction ns arbitrary: d) (auto split: option.splits if_splits)

text \<open>An entry is right, or its directory is gone.\<close>

definition entry_sane :: "dir_tree \<Rightarrow> did_cache_entry \<Rightarrow> bool" where
  "entry_sane t e \<longleftrightarrow> resolve t AFP_ROOT_DID (names (tl (dc_dirname e) @ [slash])) = Inr (dc_did e) \<or> t (dc_did e) = None"

definition cache_sane :: "dir_tree \<Rightarrow> did_cache \<Rightarrow> bool" where
  "cache_sane t c \<longleftrightarrow> (\<forall>e \<in> set (cache_base c). entry_sane t e)"

text \<open>The server answers from the tree, and other threads leave the cache sane.\<close>

definition answers_from :: "dir_tree \<Rightarrow> 'w did_env \<Rightarrow> bool" where
  "answers_from t env \<longleftrightarrow>
     (\<forall>w c d n rc fi c' w'. de_parms env w c d n = (rc, fi, c', w') \<longrightarrow>
        (cache_sane t c \<longrightarrow> cache_sane t c') \<and>
        (case t d of
           None \<Rightarrow> rc = kFPDirNotFound \<or> rc = kFPObjectNotFound
         | Some m \<Rightarrow>
             (case m n of
                None \<Rightarrow> rc = kFPObjectNotFound
              | Some (isdir, i) \<Rightarrow>
                  rc = kFPNoErr \<and> has_bit (de_valid fi) kFPNodeIDBit \<and> de_cnid fi = i \<and> (de_isdir fi \<noteq> 0 \<longleftrightarrow> isdir))))"

section \<open>The walk resolves the path\<close>

lemma cache_sane_ops:
  assumes "cache_sane t c"
  shows "cache_sane t (fst (remove_did_lineage gettimeofday path c w))"
    and "cache_sane t (fst (check_did_indexed gettimeofday path did folders c w))"
    and "cache_sane t (fst (snd (find_dirid_by_fullname gettimeofday path c w)))"
proof -
  show "cache_sane t (fst (remove_did_lineage gettimeofday path c w))"
    using assms forgetting_paths.keeps_all [of c "entry_sane t" "(path, True, fst (gettimeofday w))"]
    by (simp add: cache_sane_def remove_did_lineage_def forget_did_paths_def split: prod.split)
  show "cache_sane t (fst (check_did_indexed gettimeofday path did folders c w))"
    using assms forgetting_check.keeps_all [of c "entry_sane t" "(gettimeofday, path, did, folders, w)"]
    by (simp only: cache_sane_def prod.case)
  show "cache_sane t (fst (snd (find_dirid_by_fullname gettimeofday path c w)))"
    using assms forgetting_search.keeps_all [of c "entry_sane t" "(gettimeofday, path, w)"]
    by (simp only: cache_sane_def prod.case)
qed

lemma add_entry_cases:
  "\<exists>r c' w'. add_did_cache_entry malloc_ok gettimeofday enc parent did path name c w = Some (r, c', w') \<and>
    (cache_base c' = cache_base c \<or>
      (\<exists>e. cache_base c' = e # cache_base c \<and> dc_dirname e = path \<and> dc_did e = did \<and> dc_parentdid e = parent))"
proof -
  obtain r d where "convert_name_to_unix malloc_ok enc name AFPC_MAX_NAME_BYTES = Some (r, d)"
    using convert_name_to_unix_in_bounds [of AFPC_MAX_NAME_BYTES malloc_ok enc name] by auto
  then show ?thesis by (auto simp: add_did_cache_entry_def split: prod.split)
qed

lemma find_dirid_entry:
  assumes "find_dirid_by_fullname gettimeofday path c w = (d, c', w')" "d \<noteq> 0"
  shows "\<exists>e \<in> set (cache_base c). dc_dirname e = path \<and> dc_did e = d"
  using assms by (auto simp: find_dirid_by_fullname_def split: prod.splits dest: find_loop_base)

text \<open>Where the walk stands: at a component behind a slash, in the directory of the names before it, or in one
  that is gone, which the next answer tells.\<close>

definition walk_at :: "dir_tree \<Rightarrow> bytes \<Rightarrow> nat \<Rightarrow> nat \<Rightarrow> nat \<Rightarrow> bool" where
  "walk_at t path known did pos \<longleftrightarrow>
     0 < pos \<and> pos \<le> length path \<and> path ! (pos - 1) = slash \<and>
     (resolve t AFP_ROOT_DID (names (tl (take pos path))) = Inr did \<or>
      t did = None \<and> 1 < known \<and> slash \<in> set (drop pos path))"

lemma names_at:
  assumes "0 < pos" "pos \<le> length path" "path ! (pos - 1) = slash"
  shows "names (tl path) = names (tl (take pos path)) @ names (drop pos path)"
proof -
  have "tl path = tl (take pos path) @ drop pos path"
    using assms by (cases path) (auto simp: take_Cons' drop_Cons')
  moreover have "last (take pos path) = slash" using assms by (subst last_conv_nth) auto
  then have "tl (take pos path) = [] \<or> last (tl (take pos path)) = slash" by (metis last_tl)
  ultimately show ?thesis using names_append by metis
qed

lemma names_next:
  assumes "strchr (drop pos path) slash = Some k"
  shows "names (drop pos path) = take k (drop pos path) # names (drop (pos + k + 1) path)"
  using assms by (subst names.simps) (simp add: add_ac)

definition walk_result :: "(nat \<Rightarrow> bool) \<Rightarrow> dir_tree \<Rightarrow> bytes \<Rightarrow> int \<Rightarrow> nat \<Rightarrow> bool" where
  "walk_result malloc_ok t path ret did \<longleftrightarrow>
     ret = - ENOMEM \<and> (\<exists>n. \<not> malloc_ok n) \<or>
     (case resolve t AFP_ROOT_DID (names (tl path)) of Inl e \<Rightarrow> ret = e | Inr i \<Rightarrow> ret = 0 \<and> did = i)"

lemma walk_at_root:
  assumes "path = slash # r" "r = [] \<or> hd r \<noteq> slash"
  shows "walk_at t path known AFP_ROOT_DID (walk_start path 1)"
  using assms by (cases r) (auto simp: walk_at_def walk_start_def)

lemma walk_step:
  assumes "walk_at t path known did pos" "strchr (drop pos path) slash = Some k" "t did = Some m"
    "m (take k (drop pos path)) = Some (True, i)" "wf_tree t"
  shows "walk_at t path known i (pos + k + 1)"
    and "resolve t AFP_ROOT_DID (names (tl (take (pos + k) path) @ [slash])) = Inr i"
proof -
  have w: "0 < pos" "pos \<le> length path" "path ! (pos - 1) = slash" using assms(1) by (simp_all add: walk_at_def)
  have k: "pos + k < length path" "path ! (pos + k) = slash" "slash \<notin> set (take k (drop pos path))"
    using strchr_Some [OF assms(2)] w by auto
  have s: "take (pos + k + 1) path = take (pos + k) path @ [slash]"
    using k take_Suc_conv_app_nth [of "pos + k" path] by simp
  have tl: "tl (take (pos + k + 1) path) = tl (take (pos + k) path) @ [slash]"
    unfolding s using w by (intro tl_append2) auto
  have t1: "take (pos + k + 1) path ! (pos - 1) = slash" "take pos (take (pos + k + 1) path) = take pos path"
    using w by simp_all
  have d: "drop pos (take (pos + k + 1) path) = take k (drop pos path) @ [slash]"
  proof -
    have "pos \<le> length (take (pos + k) path)" using k(1) by simp
    then have "drop pos (take (pos + k) path @ [slash]) = drop pos (take (pos + k) path) @ [slash]"
      by (simp only: drop_append diff_is_0_eq' drop_0)
    then show ?thesis unfolding s by (simp only: take_drop add.commute [of k pos])
  qed
  have "names (take k (drop pos path) @ [slash]) = [take k (drop pos path)]"
    using names_first [OF k(3), of "[]"] by simp
  then have n: "names (tl (take (pos + k + 1) path)) = names (tl (take pos path)) @ [take k (drop pos path)]"
    using names_at [OF w(1) _ t1(1)] w k unfolding t1(2) d by simp
  have "resolve t AFP_ROOT_DID (names (tl (take pos path))) = Inr did" using assms(1,3) by (auto simp: walk_at_def)
  then have r: "resolve t AFP_ROOT_DID (names (tl (take (pos + k + 1) path))) = Inr i"
    unfolding n resolve_append using assms(3,4) by simp
  show "resolve t AFP_ROOT_DID (names (tl (take (pos + k) path) @ [slash])) = Inr i" using r tl by simp
  show "walk_at t path known i (pos + k + 1)" using r w k by (auto simp: walk_at_def)
qed

lemma answers_fromD:
  assumes "answers_from t env" "de_parms env w c d n = (rc, fi, c', w')"
  shows "cache_sane t c \<Longrightarrow> cache_sane t c'"
    and "t d = None \<Longrightarrow> rc = kFPDirNotFound \<or> rc = kFPObjectNotFound"
    and "t d = Some m \<Longrightarrow> m n = None \<Longrightarrow> rc = kFPObjectNotFound"
    and "t d = Some m \<Longrightarrow> m n = Some (isdir, i) \<Longrightarrow>
      rc = kFPNoErr \<and> has_bit (de_valid fi) kFPNodeIDBit \<and> de_cnid fi = i \<and> (de_isdir fi \<noteq> 0 \<longleftrightarrow> isdir)"
proof -
  have h: "(cache_sane t c \<longrightarrow> cache_sane t c') \<and>
      (case t d of None \<Rightarrow> rc = kFPDirNotFound \<or> rc = kFPObjectNotFound
       | Some m \<Rightarrow> (case m n of None \<Rightarrow> rc = kFPObjectNotFound
            | Some (isdir, i) \<Rightarrow> rc = kFPNoErr \<and> has_bit (de_valid fi) kFPNodeIDBit \<and> de_cnid fi = i \<and> (de_isdir fi \<noteq> 0 \<longleftrightarrow> isdir)))"
    using assms(1) [unfolded answers_from_def] assms(2) by blast
  show "cache_sane t c \<Longrightarrow> cache_sane t c'" using h by blast
  show "t d = None \<Longrightarrow> rc = kFPDirNotFound \<or> rc = kFPObjectNotFound" using h by simp
  show "t d = Some m \<Longrightarrow> m n = None \<Longrightarrow> rc = kFPObjectNotFound" using h by simp
  show "t d = Some m \<Longrightarrow> m n = Some (isdir, i) \<Longrightarrow>
      rc = kFPNoErr \<and> has_bit (de_valid fi) kFPNodeIDBit \<and> de_cnid fi = i \<and> (de_isdir fi \<noteq> 0 \<longleftrightarrow> isdir)" using h by simp
qed

lemma sane_stats: "cache_sane t (c\<lparr>cache_stats := st\<rparr>) = cache_sane t c"
  by (simp add: cache_sane_def)

text \<open>What a call of the walk yields.\<close>

definition walks :: "(nat \<Rightarrow> bool) \<Rightarrow> dir_tree \<Rightarrow> bytes \<Rightarrow> (int \<times> nat \<times> did_cache \<times> 'w) option \<Rightarrow> bool" where
  "walks malloc_ok t path r \<longleftrightarrow> (\<exists>ret d c w. r = Some (ret, d, c, w) \<and> cache_sane t c \<and> walk_result malloc_ok t path ret d)"

lemma walk_error:
  assumes "walk_at t path known did pos" "strchr (drop pos path) slash = Some k" "t did = Some m"
  shows "m (take k (drop pos path)) = None \<Longrightarrow> resolve t AFP_ROOT_DID (names (tl path)) = Inl (- ENOENT)"
    and "m (take k (drop pos path)) = Some (False, i) \<Longrightarrow> resolve t AFP_ROOT_DID (names (tl path)) = Inl (- ENOTDIR)"
  using assms(1,3) names_at [of pos path] names_next [OF assms(2)]
  by (auto simp: walk_at_def resolve_append)

lemma dirid_walk_resolves:
  assumes "wf_tree t" "answers_from t env"
    and restart: "\<And>c w. known > 1 \<Longrightarrow> cache_sane t c \<Longrightarrow>
      walks malloc_ok t path (dirid_walk malloc_ok env enc path 1 AFP_ROOT_DID (walk_start path 1) c w)"
  shows "cache_sane t c \<Longrightarrow> walk_at t path known did pos \<Longrightarrow>
    walks malloc_ok t path (dirid_walk malloc_ok env enc path known did pos c w)"
proof (induction "length path - pos" arbitrary: did pos c w rule: less_induct)
  case less
  note p = less.prems(2) [unfolded walk_at_def]
  show ?case
  proof (cases "strchr (drop pos path) slash")
    case None
    have n: "names (tl path) = names (tl (take pos path)) @ names (drop pos path)" using p names_at by blast
    from None have "slash \<notin> set (drop pos path)" by (simp add: strchr_None_iff)
    then show ?thesis using None less.prems(1) p n
      by (subst dirid_walk.simps) (simp add: walk_result_def walks_def names.simps [of "drop pos path"])
  next
    case (Some k)
    let ?n = "take k (drop pos path)"
    let ?c = "c\<lparr>cache_stats := (cache_stats c)\<lparr>st_misses := u64 (st_misses (cache_stats c) + 1)\<rparr>\<rparr>"
    obtain rc fi c1 w1 where q: "de_parms env w ?c did ?n = (rc, fi, c1, w1)" by (metis prod_cases4)
    note a = answers_fromD [OF assms(2) q]
    have c1: "cache_sane t c1" using a(1) less.prems(1) by (simp add: sane_stats)
    obtain c2 w2 where l: "remove_did_lineage (de_time env) path c1 w1 = (c2, w2)" by fastforce
    have c2: "cache_sane t c2" using cache_sane_ops(1) [OF c1, of "de_time env" path w1] l by simp
    note step = dirid_walk.simps [of malloc_ok env enc path known did pos c w, unfolded Some option.case Let_def q prod.case l]
    show ?thesis
    proof (cases "malloc_ok (k + 1)")
      case False
      then show ?thesis using less.prems(1) unfolding step by (auto simp: walks_def walk_result_def)
    next
      case malloc: True
      show ?thesis
      proof (cases "(rc = kFPDirNotFound \<or> rc = kFPObjectNotFound) \<and> known > 1")
        case True
        then show ?thesis using malloc restart [OF _ c2, of w2] unfolding step by simp
      next
        case False
        then obtain m where m: "t did = Some m" using a(2) p resolve_exists [OF assms(1), of AFP_ROOT_DID "names (tl (take pos path))" did] assms(1)
          by (cases "t did") (auto simp: wf_tree_def)
        have pe: "pos + k + 1 \<le> length path" using strchr_Some [OF Some] by (auto simp: less_diff_conv)
        show ?thesis
        proof (cases "m ?n")
          case None
          then have "rc = kFPObjectNotFound" "walk_result malloc_ok t path (- ENOENT) did"
            using a(3) [OF m] walk_error(1) [OF less.prems(2) Some m] by (simp_all add: walk_result_def)
          then show ?thesis using malloc False c1 unfolding step by (simp add: walks_def ll_answer_errno_def)
        next
          case found: (Some e)
          obtain isdir i where e: "e = (isdir, i)" by fastforce
          note b = a(4) [OF m found [unfolded e]]
          show ?thesis
          proof (cases isdir)
            case False
            then have "walk_result malloc_ok t path (- ENOTDIR) did"
              using walk_error(2) [OF less.prems(2) Some m] found e by (simp add: walk_result_def)
            then show ?thesis using malloc b False c1 unfolding step by (simp add: walks_def ll_answer_errno_def)
          next
            case True
            then have f: "m ?n = Some (True, i)" using found e by simp
            note next_at = walk_step [OF less.prems(2) Some m f assms(1)]
            obtain c3 w3 where c3: "check_did_indexed (de_time env) (take (pos + k) path) i None c1 w1 = (c3, w3)" by fastforce
            obtain x c4 w4 where c4: "add_did_cache_entry malloc_ok (de_time env) enc did i (take (pos + k) path) ?n c3 w3 = Some (x, c4, w4)"
              and base: "cache_base c4 = cache_base c3 \<or>
                (\<exists>e. cache_base c4 = e # cache_base c3 \<and> dc_dirname e = take (pos + k) path \<and> dc_did e = i \<and> dc_parentdid e = did)"
              using add_entry_cases [of malloc_ok "de_time env" enc did i "take (pos + k) path" ?n c3 w3] by blast
            have "cache_sane t c3" using cache_sane_ops(2) [OF c1, of "de_time env" "take (pos + k) path" i None w1] c3 by simp
            then have "cache_sane t c4" using base next_at(2) by (auto simp: cache_sane_def entry_sane_def)
            then have "walks malloc_ok t path (dirid_walk malloc_ok env enc path known i (pos + k + 1) c4 w4)"
              by (rule less.hyps [rotated]) (use next_at(1) pe in auto)
            then show ?thesis using malloc b True c3 c4 c1 unfolding step
              by (simp add: ll_answer_errno_def) (auto simp: walks_def walk_result_def)
          qed
        qed
      qed
    qed
  qed
qed

lemma walk_at_parent:
  assumes "0 < n" "n < q" "q < length path" "path ! n = slash" "path ! q = slash" "1 < n"
    "resolve t AFP_ROOT_DID (names (tl (take n path) @ [slash])) = Inr did \<or> t did = None"
  shows "walk_at t path n did (walk_start path n)"
proof -
  have "tl (take (n + 1) path) = tl (take n path) @ [slash]"
    using assms take_Suc_conv_app_nth [of n path] by (simp, intro tl_append2) auto
  moreover have "slash \<in> set (drop (n + 1) path)"
    using assms nth_mem [of "q - (n + 1)" "drop (n + 1) path"] by simp
  ultimately show ?thesis using assms by (auto simp: walk_at_def walk_start_def)
qed

lemma nearest_parent_at:
  assumes "path = slash # r" "r = [] \<or> hd r \<noteq> slash"
  shows "cache_sane t c \<Longrightarrow> 0 < q \<Longrightarrow> q < length path \<Longrightarrow> path ! q = slash \<Longrightarrow>
    \<exists>d n c' w'. nearest_parent gettimeofday (take q path) d0 c w = (d, n, c', w') \<and> cache_sane t c' \<and>
      walk_at t path n d (walk_start path n)"
proof (induction q arbitrary: d0 c w rule: less_induct)
  case (less q)
  have p0: "path ! 0 = slash" using assms(1) by simp
  have "slash \<in> set (take q path)" using assms(1) less.prems(2) by (cases q) auto
  then obtain a b where ab: "take q path = a @ slash # b" "slash \<notin> set b" by (metis split_list_last)
  let ?k = "length a"
  have r: "strrchr (take q path) slash = Some ?k" using strrchr_append [OF ab(2)] ab(1) by simp
  have kq: "?k < q" using arg_cong [OF ab(1), of length] less.prems(3) by simp
  have pk: "path ! ?k = slash" using arg_cong [OF ab(1), of "\<lambda>x. x ! ?k"] kq by simp
  have tk: "take ?k (take q path) = take ?k path" using kq by simp
  show ?case
  proof (cases "?k = 0")
    case True
    then show ?thesis using less.prems(1) r walk_at_root [OF assms, of t 1]
      by (subst nearest_parent.simps) simp
  next
    case False
    have k1: "?k \<noteq> 1" using pk kq less.prems(3) assms by (cases r) auto
    obtain d c1 w1 where f: "find_dirid_by_fullname gettimeofday (take ?k path) c w = (d, c1, w1)" by (metis prod_cases3)
    have c1: "cache_sane t c1" using cache_sane_ops(3) [OF less.prems(1), of gettimeofday "take ?k path" w] f by simp
    show ?thesis
    proof (cases "d = 0")
      case True
      then show ?thesis using less.IH [OF kq c1 _ _ pk, of d w1] False kq less.prems(3) r f tk
        by (subst nearest_parent.simps) simp
    next
      case d: False
      from find_dirid_entry [OF f d] less.prems(1)
      have "resolve t AFP_ROOT_DID (names (tl (take ?k path) @ [slash])) = Inr d \<or> t d = None"
        by (auto simp: cache_sane_def entry_sane_def)
      from walk_at_parent [OF _ kq less.prems(3) pk less.prems(4) _ this] False k1
      show ?thesis using c1 d False r f tk by (subst nearest_parent.simps) simp
    qed
  qed
qed

section \<open>Properties\<close>


text \<open>A server that answers from a tree and leaves the cache alone.\<close>

definition tree_env :: "dir_tree \<Rightarrow> unit did_env" where
  "tree_env t = \<lparr>de_time = \<lambda>w. (0, w), de_parms = \<lambda>w c d n.
     (case t d of
        None \<Rightarrow> (kFPDirNotFound, no_entry, c, w)
      | Some m \<Rightarrow>
          (case m n of
             None \<Rightarrow> (kFPObjectNotFound, no_entry, c, w)
           | Some (isdir, i) \<Rightarrow>
               (kFPNoErr, no_entry\<lparr>de_valid := kFPNodeIDBit, de_cnid := i, de_isdir := (if isdir then 1 else 0)\<rparr>, c, w)))\<rparr>"

lemma tree_env_answers: "answers_from t (tree_env t)"
  by (auto simp: answers_from_def tree_env_def has_bit_def split: option.split prod.split)

text \<open>\<open>/a/b\<close> in the tree, and a stale ID of \<open>/a\<close> in the cache.\<close>

definition sample_tree :: dir_tree where
  "sample_tree = [2 \<mapsto> [[0x61] \<mapsto> (True, 5)], 5 \<mapsto> [[0x62] \<mapsto> (True, 7)], 7 \<mapsto> Map.empty]"

definition stale_cache :: did_cache where
  "stale_cache = \<lparr>cache_base = [\<lparr>dc_dirname = [slash, 0x61], dc_did = 9, dc_parentdid = 2, dc_name = [0x61], dc_time = 0\<rparr>],
     cache_stats = \<lparr>st_hits = 0, st_misses = 0, st_expired = 0, st_force_removed = 0\<rparr>\<rparr>"


end
