(* ===== verification/Did_Check.thy ===== *)
theory Did_Check
  imports Did
begin

text \<open>
  What a listing tells the directory cache: \<open>check_did_entry\<close> of \<open>lib/did.c\<close> against its meaning on paths.
  The search of the sorted index is membership, the byte comparisons of \<open>forget_locked\<close> are the relation
  \<open>beneath\<close> of paths, and the two walks over the linked list are one filter.
\<close>

section \<open>The index of a listing\<close>

definition folders_of :: "afp_listing \<Rightarrow> (bytes \<times> nat) list" where
  "folders_of l = map (\<lambda>(e, name). (name, de_cnid e))
     (filter (\<lambda>(e, name). de_isdir e \<noteq> 0 \<and> has_bit (de_valid e) kFPNodeIDBit) (listed l))"

lemma index_loop_named:
  assumes "\<forall>e \<in> set es. name_ends (take (ls_pool_used l) (ls_pool l)) e"
  shows "index_loop l es = Some (map (\<lambda>(e, name). (name, de_cnid e))
    (filter (\<lambda>(e, name). de_isdir e \<noteq> 0 \<and> has_bit (de_valid e) kFPNodeIDBit)
      (map (named (take (ls_pool_used l) (ls_pool l))) es)))"
  using assms by (induction es) (auto simp: dirent_name_def named_def dest: name_ends_pool)

lemma index_loop_listed: "wf_listing l \<Longrightarrow> index_loop l (take (ls_count l) (ls_entries l)) = Some (folders_of l)"
  unfolding folders_of_def listed_def by (rule index_loop_named) (simp add: wf_listing_def)

lemma bsearch_cases:
  assumes "i = (lo + hi) div 2"
  shows "hi \<le> lo \<Longrightarrow> bsearch key xs lo hi = None"
    and "lo < hi \<Longrightarrow> key < fst (xs ! i) \<Longrightarrow> bsearch key xs lo hi = bsearch key xs lo i"
    and "lo < hi \<Longrightarrow> fst (xs ! i) < key \<Longrightarrow> bsearch key xs lo hi = bsearch key xs (i + 1) hi"
    and "lo < hi \<Longrightarrow> fst (xs ! i) = key \<Longrightarrow> bsearch key xs lo hi = Some (xs ! i)"
proof -
  have asym: "\<not> key < fst (xs ! i)" if "fst (xs ! i) < key" using that by (metis order_less_asym)
  show "hi \<le> lo \<Longrightarrow> bsearch key xs lo hi = None" by (simp add: bsearch.simps [of key xs lo hi])
  show "lo < hi \<Longrightarrow> key < fst (xs ! i) \<Longrightarrow> bsearch key xs lo hi = bsearch key xs lo i"
    by (simp add: bsearch.simps [of key xs lo hi] assms Let_def)
  show "lo < hi \<Longrightarrow> fst (xs ! i) < key \<Longrightarrow> bsearch key xs lo hi = bsearch key xs (i + 1) hi"
    using asym by (simp add: bsearch.simps [of key xs lo hi] assms Let_def)
  show "lo < hi \<Longrightarrow> fst (xs ! i) = key \<Longrightarrow> bsearch key xs lo hi = Some (xs ! i)"
    by (simp add: bsearch.simps [of key xs lo hi] assms Let_def)
qed

text \<open>The search finds an entry of the key between its bounds, or there is none.\<close>

lemma bsearch_finds:
  assumes "sorted (map fst xs)"
  shows "hi \<le> length xs \<Longrightarrow>
    (case bsearch key xs lo hi of
       None \<Rightarrow> \<forall>j. lo \<le> j \<and> j < hi \<longrightarrow> fst (xs ! j) \<noteq> key
     | Some f \<Rightarrow> \<exists>j. lo \<le> j \<and> j < hi \<and> f = xs ! j \<and> fst f = key)"
proof (induction "hi - lo" arbitrary: lo hi rule: less_induct)
  case less
  define i where "i = (lo + hi) div 2"
  have mono: "fst (xs ! j) \<le> fst (xs ! k)" if "j \<le> k" "k < length xs" for j k
    using sorted_nth_mono [OF assms, of j k] that by simp
  show ?case
  proof (cases "lo < hi")
    case False
    then show ?thesis by (auto simp: bsearch_cases(1) [OF refl])
  next
    case True
    then have i: "lo \<le> i" "i < hi" by (auto simp: i_def)
    consider (lt) "key < fst (xs ! i)" | (gt) "fst (xs ! i) < key" | (eq) "fst (xs ! i) = key" by (metis linorder_neqE)
    then show ?thesis
    proof cases
      case lt
      have "fst (xs ! j) \<noteq> key" if "i \<le> j" "j < hi" for j
        using mono [of i j] that less.prems lt by auto
      then have out: "fst (xs ! j) \<noteq> key" if "j < hi" "\<not> j < i" for j using that by simp
      have "i - lo < hi - lo" "i \<le> length xs" using i less.prems by simp_all
      from less.hyps [OF this] show ?thesis
        unfolding bsearch_cases(2) [OF i_def True lt] using out i by (cases "bsearch key xs lo i") (auto intro: less_trans)
    next
      case gt
      have "fst (xs ! j) \<noteq> key" if "j \<le> i" for j
        using mono [of j i] that i less.prems gt by auto
      then have out: "fst (xs ! j) \<noteq> key" if "\<not> i + 1 \<le> j" for j using that by simp
      have "hi - (i + 1) < hi - lo" using i by simp
      from less.hyps [OF this less.prems] show ?thesis
        unfolding bsearch_cases(3) [OF i_def True gt] using out i by (cases "bsearch key xs (i + 1) hi") (simp_all, metis, metis Suc_leD le_trans)
    next
      case eq
      then show ?thesis using i by (auto simp: bsearch_cases(4) [OF i_def True eq])
    qed
  qed
qed

lemma holds_folder_iff:
  assumes "sorted (map fst fs)" "distinct (map fst fs)"
  shows "listing_holds_folder fs name did \<longleftrightarrow> (name, did) \<in> set fs"
proof (cases "bsearch name fs 0 (length fs)")
  case None
  then have "fst (fs ! j) \<noteq> name" if "j < length fs" for j
    using bsearch_finds [OF assms(1), of "length fs" 0 name] that by simp
  then have "(name, did) \<notin> set fs" by (metis fst_conv in_set_conv_nth)
  then show ?thesis using None by (simp add: listing_holds_folder_def)
next
  case (Some f)
  then have "f \<in> set fs" "fst f = name"
    using bsearch_finds [OF assms(1), of "length fs" 0 name] by auto
  then have "(name, did) \<in> set fs \<longleftrightarrow> snd f = did"
    using eq_key_imp_eq_value [OF assms(2)] by (metis prod.collapse)
  then show ?thesis using Some by (simp add: listing_holds_folder_def)
qed

section \<open>Paths\<close>

definition beneath :: "bytes \<Rightarrow> bytes \<Rightarrow> bool" where
  "beneath path d \<longleftrightarrow> d = path \<or> prefix (path @ [slash]) d"

text \<open>A directory's path as the cache has it: absolute, not the root, and no slash at its end.\<close>

definition plain_path :: "bytes \<Rightarrow> bool" where
  "plain_path p \<longleftrightarrow> 1 < length p \<and> hd p = slash \<and> last p \<noteq> slash"

lemma plain_path_length: "plain_path p \<Longrightarrow> did_path_length p = length p"
  by (subst did_path_length_def, subst path_length_loop.simps) (auto simp: plain_path_def last_conv_nth [of p] simp flip: length_greater_0_conv)

lemma prefix_slash: "prefix (p @ [slash]) d \<longleftrightarrow> length p < length d \<and> take (length p) d = p \<and> d ! length p = slash"
proof
  assume "prefix (p @ [slash]) d"
  then show "length p < length d \<and> take (length p) d = p \<and> d ! length p = slash" by (auto simp: prefix_def nth_append)
next
  assume h: "length p < length d \<and> take (length p) d = p \<and> d ! length p = slash"
  then have "take (Suc (length p)) d = p @ [slash]" by (simp add: take_Suc_conv_app_nth)
  then show "prefix (p @ [slash]) d" by (metis take_is_prefix)
qed

lemma on_line_beneath:
  assumes "plain_path p"
  shows "on_line p False d \<longleftrightarrow> beneath p d"
  using assms unfolding on_line_def beneath_def prefix_slash plain_path_length [OF assms] did_separator_def Let_def
  by (auto simp: plain_path_def)

lemma on_line_lineage:
  assumes "plain_path p"
  shows "on_line p True d \<longleftrightarrow> beneath p d \<or> beneath d p"
proof -
  have "prefix (d @ [slash]) p \<longleftrightarrow> length d < length p \<and> take (length d) p = d \<and> p ! length d = slash"
    by (rule prefix_slash)
  then show ?thesis
    using assms unfolding on_line_def beneath_def prefix_slash [of p] plain_path_length [OF assms] did_separator_def Let_def
    by (auto simp: plain_path_def)
qed

section \<open>Entries a folder's listing contradicts\<close>

definition contradicted :: "bytes \<Rightarrow> nat \<Rightarrow> afp_listing \<Rightarrow> did_cache_entry \<Rightarrow> bool" where
  "contradicted path did l e \<longleftrightarrow>
     (if dc_dirname e = path then dc_did e \<noteq> did
      else (\<exists>n. slash \<notin> set n \<and> dc_dirname e = path @ slash # n) \<and>
        (dc_parentdid e \<noteq> did \<or> (dc_name e, dc_did e) \<notin> set (folders_of l)))"

lemma child_of_iff:
  assumes "plain_path p"
  shows "did_child_of d p (length p) \<longleftrightarrow> (\<exists>n. slash \<notin> set n \<and> d = p @ slash # n)"
proof -
  have "length p \<noteq> 1" using assms by (simp add: plain_path_def)
  then have "did_child_of d p (length p) \<longleftrightarrow> prefix (p @ [slash]) d \<and> slash \<notin> set (drop (length p + 1) d)"
    unfolding did_child_of_def did_separator_def Let_def prefix_slash strchr_None_iff by auto
  also have "\<dots> \<longleftrightarrow> (\<exists>n. slash \<notin> set n \<and> d = p @ slash # n)" by (auto simp: prefix_def)
  finally show ?thesis .
qed

lemma forget_taken_base:
  assumes "gettimeofday w = (now, w1)"
  shows "cache_base (fst (forget_taken gettimeofday taken c w)) =
    filter (\<lambda>p. \<forall>r \<in> set taken. \<not> did_entry_expired p now \<and> \<not> on_line (dc_dirname r) False (dc_dirname p)) (cache_base c)"
  using assms by (simp add: forget_taken_def forget_taken_loop_base)

section \<open>Properties\<close>

text \<open>C18: a folder's complete listing corrects the cache. With the ID the server gave the folder and its complete
  listing, \<open>check_did_entry\<close> drops exactly the folder's entries under another ID, the children cached under another
  parent's ID or not listed with their ID, everything beneath those, and with them what has expired; every other
  entry stays, in its order.\<close>

theorem check_did_entry_corrects:
  assumes "wf_listing l" "distinct (map fst (folders_of l))" "did \<noteq> 0" "plain_path path" "malloc_ok (ls_count l * 16)"
    "\<forall>e \<in> set (cache_base c). plain_path (dc_dirname e)" "gettimeofday w = (now, w1)"
  shows "\<exists>c' w'. check_did_entry malloc_ok gettimeofday path did (Some l) c w = Some (c', w') \<and>
    cache_base c' = filter (\<lambda>e. \<not> contradicted path did l e \<and>
      (\<forall>r \<in> set (cache_base c). contradicted path did l r \<longrightarrow>
         \<not> did_entry_expired e now \<and> \<not> beneath (dc_dirname r) (dc_dirname e))) (cache_base c)"
proof -
  define folders where "folders =
    (if ls_count l > 0 \<and> \<not> has_cached_child c path (did_path_length path) then None else Some (sort_key fst (folders_of l)))"
  note n = plain_path_length [OF assms(4)]
  have empty: "folders_of l = []" if "ls_count l = 0" using that by (simp add: folders_of_def listed_def)
  have run: "check_did_entry malloc_ok gettimeofday path did (Some l) c w = Some (check_did_indexed gettimeofday path did folders c w)"
    using assms(5) index_loop_listed [OF assms(1)] empty
    by (simp add: check_did_entry_def folders_def index_folders_def)
  have holds: "listing_holds_folder (sort_key fst (folders_of l)) nm i \<longleftrightarrow> (nm, i) \<in> set (folders_of l)" for nm i
    using holds_folder_iff [of "sort_key fst (folders_of l)" nm i] assms(2) by (simp add: distinct_map)
  have stale: "did_stale path did folders e \<longleftrightarrow> contradicted path did l e" if "e \<in> set (cache_base c)" for e
    using that assms(3) unfolding did_stale_def contradicted_def n Let_def child_of_iff [OF assms(4), symmetric]
    by (auto simp: folders_def holds has_cached_child_def list_ex_iff n)
  let ?base = "cache_base c"
  let ?kept = "filter (\<lambda>e. \<not> contradicted path did l e) ?base" and ?taken = "rev (filter (contradicted path did l) ?base)"
  have split: "take_stale (did_stale path did folders) ?base [] = (?kept, ?taken)"
    unfolding take_stale_split using stale by (simp cong: filter_cong)
  obtain c' w' where c': "check_did_indexed gettimeofday path did folders c w = (c', w')" by fastforce
  have "cache_base c' = filter (\<lambda>e. \<forall>r \<in> set ?taken. \<not> did_entry_expired e now \<and> \<not> on_line (dc_dirname r) False (dc_dirname e)) ?kept"
    using c' forget_taken_base [of gettimeofday w now w1 ?taken "c\<lparr>cache_base := ?kept\<rparr>"] assms(7)
    by (simp add: check_did_indexed_def split)
  also have "\<dots> = filter (\<lambda>e. \<forall>r \<in> set ?taken. \<not> did_entry_expired e now \<and> \<not> beneath (dc_dirname r) (dc_dirname e)) ?kept"
    using assms(6) by (intro filter_cong) (auto simp: on_line_beneath)
  also have "\<dots> = filter (\<lambda>e. \<not> contradicted path did l e \<and>
      (\<forall>r \<in> set ?base. contradicted path did l r \<longrightarrow> \<not> did_entry_expired e now \<and> \<not> beneath (dc_dirname r) (dc_dirname e))) ?base"
    by (auto intro!: filter_cong)
  finally show ?thesis using run c' by simp
qed

text \<open>\<open>/a\<close> has the ID 5 and holds the folder \<open>b\<close> with the ID 7: the entry of \<open>/a/b\<close> under 8 goes, with \<open>/a/b/c\<close>.\<close>

definition listed_b :: afp_listing where
  "listed_b = \<lparr>ls_entries = [no_entry\<lparr>de_valid := kFPNodeIDBit, de_cnid := 7, de_isdir := 1\<rparr>], ls_count = 1, ls_pool = [0x62, 0],
     ls_pool_used = 2\<rparr>"

definition cached_at :: "bytes \<Rightarrow> nat \<Rightarrow> nat \<Rightarrow> bytes \<Rightarrow> did_cache_entry" where
  "cached_at path did parent name = \<lparr>dc_dirname = path, dc_did = did, dc_parentdid = parent, dc_name = name, dc_time = 0\<rparr>"

definition cache_b :: did_cache where
  "cache_b = stale_cache\<lparr>cache_base := [cached_at [slash, 0x61, slash, 0x62, slash, 0x63] 3 8 [0x63],
     cached_at [slash, 0x61, slash, 0x62] 8 5 [0x62], cached_at [slash, 0x61] 5 2 [0x61]]\<rparr>"

theorem check_did_entry_corrects_witness:
  "\<exists>c' w'. check_did_entry (\<lambda>_. True) (\<lambda>w :: unit. (0, w)) [slash, 0x61] 5 (Some listed_b) cache_b () = Some (c', w') \<and>
    cache_base c' = [cached_at [slash, 0x61] 5 2 [0x61]]"
proof -
  have f: "folders_of listed_b = [([0x62], 7)]"
    by (simp add: folders_of_def listed_def named_def listed_b_def has_bit_def cstr_def no_entry_def)
  have "wf_listing listed_b" by (simp add: wf_listing_def listed_b_def name_ends_def no_entry_def)
  moreover have "\<forall>e \<in> set (cache_base cache_b). plain_path (dc_dirname e)"
    by (simp add: cache_b_def cached_at_def plain_path_def)
  ultimately obtain c' w' where c': "check_did_entry (\<lambda>_. True) (\<lambda>w :: unit. (0, w)) [slash, 0x61] 5 (Some listed_b) cache_b () = Some (c', w')"
    "cache_base c' = filter (\<lambda>e. \<not> contradicted [slash, 0x61] 5 listed_b e \<and>
      (\<forall>r \<in> set (cache_base cache_b). contradicted [slash, 0x61] 5 listed_b r \<longrightarrow>
         \<not> did_entry_expired e 0 \<and> \<not> beneath (dc_dirname r) (dc_dirname e))) (cache_base cache_b)"
    using check_did_entry_corrects [of listed_b 5 "[slash, 0x61]" "\<lambda>_. True" cache_b "\<lambda>w :: unit. (0, w)" "()" 0 "()"] f
    by (auto simp: plain_path_def)
  have "cache_base c' = [cached_at [slash, 0x61] 5 2 [0x61]]"
    unfolding c'(2) by (simp add: cache_b_def cached_at_def contradicted_def f beneath_def did_entry_expired_def)
  then show ?thesis using c'(1) by blast
qed

end
