(* ===== verification/Paths.thy ===== *)
theory Paths
  imports Prelude
begin

text \<open>
  Owned paths, \<open>lib/path.c\<close>: their validation, their copy and their join.  A C string is the list of its
  characters; a null pointer is \<^term>\<open>None\<close>.
\<close>

abbreviation (input) SIZE_MAX :: nat where "SIZE_MAX \<equiv> 18446744073709551615"
abbreviation (input) AFPC_PATH_UNBOUNDED :: nat where "AFPC_PATH_UNBOUNDED \<equiv> SIZE_MAX"
abbreviation (input) AFPC_MAX_UTF8_PATH_BYTES :: nat where "AFPC_MAX_UTF8_PATH_BYTES \<equiv> 65535"
abbreviation (input) ENAMETOOLONG :: int where "ENAMETOOLONG \<equiv> 36"
abbreviation (input) EINVAL :: int where "EINVAL \<equiv> 22"

record afpc_path =
  path_data :: "string option"
  path_len :: nat

definition path_validate :: "string option \<Rightarrow> nat \<Rightarrow> int \<times> nat" where
  "path_validate data max_len =
     (case data of
        None \<Rightarrow> (- EINVAL, 0)
      | Some s \<Rightarrow>
          if max_len = AFPC_PATH_UNBOUNDED then (0, length s)
          else let measured = min (length s) (max_len + 1) in
            if measured > max_len then (- ENAMETOOLONG, 0) else (0, measured))"

definition path_clear :: "afpc_path \<Rightarrow> afpc_path" where
  "path_clear path = path\<lparr>path_data := None, path_len := 0\<rparr>"

definition path_set :: "(nat \<Rightarrow> bool) \<Rightarrow> afpc_path option \<Rightarrow> string option \<Rightarrow> nat \<Rightarrow> int \<times> afpc_path option" where
  "path_set malloc_ok path data max_len =
     (case (path, data) of
        (None, _) \<Rightarrow> (- EINVAL, path)
      | (Some p, None) \<Rightarrow> (0, Some (path_clear p))
      | (Some p, Some s) \<Rightarrow>
          (case path_validate data max_len of
             (ret, len) \<Rightarrow>
               if ret \<noteq> 0 then (ret, path)
               else if \<not> malloc_ok (len + 1) then (- ENOMEM, path)
               else (0, Some ((path_clear p)\<lparr>path_data := Some (take len s), path_len := len\<rparr>))))"

definition path_copy :: "(nat \<Rightarrow> bool) \<Rightarrow> afpc_path option \<Rightarrow> afpc_path option \<Rightarrow> nat \<Rightarrow> int \<times> afpc_path option" where
  "path_copy malloc_ok dest src max_len =
     (case (dest, src) of
        (Some d, Some s) \<Rightarrow> path_set malloc_ok dest (path_data s) max_len
      | _ \<Rightarrow> (- EINVAL, dest))"

definition path_join ::
  "(nat \<Rightarrow> bool) \<Rightarrow> afpc_path option \<Rightarrow> string option \<Rightarrow> string option \<Rightarrow> nat \<Rightarrow> int \<times> afpc_path option" where
  "path_join malloc_ok dest parent name max_len =
     (case (dest, parent, name) of
        (Some d, Some ps, Some ns) \<Rightarrow>
          (case path_validate parent max_len of
             (ret, parent_len) \<Rightarrow>
               if ret \<noteq> 0 then (ret, dest)
               else case path_validate name max_len of
                 (ret, name_len) \<Rightarrow>
                   if ret \<noteq> 0 then (ret, dest)
                   else let separator_len = (if parent_len > 0 \<and> ps ! (parent_len - 1) \<noteq> CHR ''/'' \<and> name_len > 0 then 1 else 0) in
                     if parent_len > SIZE_MAX - separator_len then (- ENAMETOOLONG, dest)
                     else let total_len = parent_len + separator_len in
                       if total_len > SIZE_MAX - name_len then (- ENAMETOOLONG, dest)
                       else let total_len = total_len + name_len in
                         if total_len = SIZE_MAX then (- ENAMETOOLONG, dest)
                         else if max_len \<noteq> AFPC_PATH_UNBOUNDED \<and> total_len > max_len then (- ENAMETOOLONG, dest)
                         else if \<not> malloc_ok (total_len + 1) then (- ENOMEM, dest)
                         else (0, Some ((path_clear d)\<lparr>path_data := Some (take parent_len ps @
                                  replicate separator_len (CHR ''/'') @ take name_len ns), path_len := total_len\<rparr>)))
      | _ \<Rightarrow> (- EINVAL, dest))"

section \<open>What the operations do\<close>

definition wf_path :: "nat \<Rightarrow> afpc_path \<Rightarrow> bool" where
  "wf_path max_len p \<longleftrightarrow> path_len p \<le> max_len \<and> path_len p = (case path_data p of None \<Rightarrow> 0 | Some s \<Rightarrow> length s)"

text \<open>A C string in memory is shorter than \<open>SIZE_MAX\<close>.\<close>

lemma path_validate_string:
  "length s < SIZE_MAX \<Longrightarrow>
    path_validate (Some s) max_len = (if length s \<le> max_len then (0, length s) else (- ENAMETOOLONG, 0))"
  by (auto simp: path_validate_def Let_def min_def)

definition with_separator :: "string \<Rightarrow> string \<Rightarrow> string" where
  "with_separator parent name =
     (if parent = [] \<or> name = [] \<or> last parent = CHR ''/'' then parent @ name else parent @ ''/'' @ name)"

lemma path_join_strings:
  assumes "length parent < SIZE_MAX" "length name < SIZE_MAX"
  shows "path_join malloc_ok (Some d) (Some parent) (Some name) max_len =
    (if length parent > max_len \<or> length name > max_len \<or> length (with_separator parent name) > max_len
        \<or> length (with_separator parent name) \<ge> SIZE_MAX then (- ENAMETOOLONG, Some d)
     else if malloc_ok (length (with_separator parent name) + 1)
     then (0, Some \<lparr>path_data = Some (with_separator parent name), path_len = length (with_separator parent name)\<rparr>)
     else (- ENOMEM, Some d))"
proof (cases "length parent \<le> max_len \<and> length name \<le> max_len")
  case True
  define k :: nat where
    "k = (if length parent > 0 \<and> parent ! (length parent - 1) \<noteq> CHR ''/'' \<and> length name > 0 then 1 else 0)"
  have w: "with_separator parent name = parent @ replicate k (CHR ''/'') @ name"
    by (auto simp: with_separator_def k_def last_conv_nth)
  have k: "k \<le> 1" by (simp add: k_def)
  have v: "path_validate (Some parent) max_len = (0, length parent)" "path_validate (Some name) max_len = (0, length name)"
    using True by (simp_all add: path_validate_string assms)
  show ?thesis
    unfolding path_join_def option.case prod.case v Let_def k_def [symmetric] w
    using k assms by (simp add: path_clear_def add_ac) linarith
next
  case False
  then show ?thesis
    unfolding path_join_def option.case prod.case path_validate_string [OF assms(1)] path_validate_string [OF assms(2)] by auto
qed

end
