(* ===== verification/Identify.thy ===== *)
theory Identify
  imports Url
begin

text \<open>
  What a server is, from the machine type it reports, \<open>lib/identify.c\<close>: its kind, the version a Netatalk
  server appends, and the decisions the library takes from them.
\<close>

section \<open>Kinds and versions\<close>

datatype server_type = Type_unknown | Type_netatalk | Type_airport | Type_macintosh | Type_timecapsule | Type_windows

definition mac_models :: "string list" where
  "mac_models = [''Mac'', ''iMac'', ''eMac'', ''iBook'', ''PowerBook'', ''PowerMac'', ''RackMac'', ''Xserve'', ''VMware'']"

text \<open>\<open>strncmp\<close> with the length of the second string is the test for a prefix.\<close>

definition is_mac_model :: "string \<Rightarrow> bool" where
  "is_mac_model machine_type = list_ex (\<lambda>m. prefix m machine_type) mac_models"

definition identify_machine_type :: "string option \<Rightarrow> server_type" where
  "identify_machine_type machine_type =
     (case machine_type of
        None \<Rightarrow> Type_unknown
      | Some m \<Rightarrow>
          if prefix ''Netatalk'' m then Type_netatalk
          else if prefix ''AirPort'' m then Type_airport
          else if is_mac_model m then Type_macintosh
          else if prefix ''TimeCapsule'' m then Type_timecapsule
          else if prefix ''Windows'' m then Type_windows
          else Type_unknown)"

record server_version =
  sv_major :: nat
  sv_minor :: nat
  sv_patch :: nat

abbreviation (input) UINT_MAX :: nat where "UINT_MAX \<equiv> 4294967295"

text \<open>The loop over the parts; \<open>strtoul\<close> saturates above what \<open>UINT_MAX\<close> cuts.\<close>

fun version_parts :: "nat \<Rightarrow> string \<Rightarrow> nat list" where
  "version_parts 0 p = []"
| "version_parts (Suc n) p =
     (if p = [] \<or> \<not> is_digit (hd p) then []
      else let number = nat (foldl (\<lambda>a c. a * 10 + digit_value c) 0 (takeWhile is_digit p));
               tail = dropWhile is_digit p; part = min number UINT_MAX in
        if tail = [] \<or> hd tail \<noteq> CHR ''.'' then [part] else part # version_parts n (tl tail))"

definition server_version_parse :: "string \<Rightarrow> int \<times> server_version" where
  "server_version_parse txt =
     (let parts = version_parts 3 txt; part = (\<lambda>i. if i < length parts then parts ! i else 0) in
      (if parts = [] then -1 else 0, \<lparr>sv_major = part 0, sv_minor = part 1, sv_patch = part 2\<rparr>))"

definition server_version_at_least :: "server_version \<Rightarrow> nat \<Rightarrow> nat \<Rightarrow> nat \<Rightarrow> bool" where
  "server_version_at_least v major minor patch =
     (if sv_major v \<noteq> major then sv_major v > major
      else if sv_minor v \<noteq> minor then sv_minor v > minor
      else sv_patch v \<ge> patch)"

section \<open>Identification\<close>

text \<open>What \<open>afp_server_identify\<close> sets, and the version of AFP in use.\<close>

record server_ident =
  id_type :: server_type
  id_version :: server_version
  id_timeout :: nat
  id_using :: nat

definition server_identify :: "string \<Rightarrow> server_ident \<Rightarrow> server_ident" where
  "server_identify machine_type s =
     (let t = identify_machine_type (Some machine_type);
          s1 = s\<lparr>id_timeout := 5, id_type := t, id_version := \<lparr>sv_major = 0, sv_minor = 0, sv_patch = 0\<rparr>\<rparr> in
      case t of
        Type_netatalk \<Rightarrow> s1\<lparr>id_version := snd (server_version_parse (drop 8 machine_type))\<rparr>
      | Type_timecapsule \<Rightarrow> s1\<lparr>id_timeout := 30\<rparr>
      | _ \<Rightarrow> s1)"

definition server_is_apple :: "server_ident \<Rightarrow> bool" where
  "server_is_apple s \<longleftrightarrow> id_type s = Type_timecapsule \<or> id_type s = Type_airport \<or> id_type s = Type_macintosh"

definition server_reports_fork_length :: "server_ident \<Rightarrow> bool" where
  "server_reports_fork_length s \<longleftrightarrow> id_type s = Type_netatalk \<and> id_using s \<ge> 30"

definition server_copies_files :: "server_ident \<Rightarrow> bool" where
  "server_copies_files s \<longleftrightarrow> id_type s = Type_netatalk \<and> id_using s \<ge> 34"

definition server_drops_long_commands :: "server_ident \<Rightarrow> bool" where
  "server_drops_long_commands s \<longleftrightarrow> id_type s = Type_netatalk \<and> \<not> server_version_at_least (id_version s) 4 5 0"

definition server_gives_directory_ids_to_files :: "server_ident \<Rightarrow> bool" where
  "server_gives_directory_ids_to_files s \<longleftrightarrow> id_type s = Type_netatalk \<and> \<not> server_version_at_least (id_version s) 3 0 0"

definition server_keeps_unset_ids :: "server_ident \<Rightarrow> bool" where
  "server_keeps_unset_ids s \<longleftrightarrow> id_type s = Type_netatalk"

definition server_keeps_directory_modes :: "server_ident \<Rightarrow> bool" where
  "server_keeps_directory_modes s \<longleftrightarrow> id_type s = Type_netatalk \<and> \<not> server_version_at_least (id_version s) 3 0 0"

section \<open>Versions as servers write them\<close>

lemma digits_then:
  assumes "r = [] \<or> \<not> is_digit (hd r)"
  shows "takeWhile is_digit (decimal n @ r) = decimal n" "dropWhile is_digit (decimal n @ r) = r"
  using decimal_digits [of n] assms by (cases r; simp add: takeWhile_append2 dropWhile_append2)+

lemma version_parts_decimal:
  assumes "r = [] \<or> \<not> is_digit (hd r)" "n \<le> UINT_MAX"
  shows "version_parts (Suc k) (decimal n @ r) =
    n # (if r = [] \<or> hd r \<noteq> CHR ''.'' then [] else version_parts k (tl r))"
proof -
  obtain d ds where d: "decimal n = d # ds" "is_digit d"
    using decimal_nonempty [of n] decimal_digits [of n] by (cases "decimal n") auto
  have "decimal n @ r \<noteq> []" "is_digit (hd (decimal n @ r))" using d by simp_all
  then show ?thesis using assms(2) by (simp add: digits_then [OF assms(1)] decimal_value Let_def)
qed

lemma version_parts_end: "r = [] \<or> \<not> is_digit (hd r) \<Longrightarrow> version_parts k r = []"
  by (cases k) auto

section \<open>Properties\<close>

text \<open>C31: A Netatalk server's version is read from its machine type whatever follows it, and the decisions the
  library takes from it are the comparisons of versions they stand for: commands past the idle limit drop the
  session before 4.5, directories give their ids to files before 3.\<close>

theorem netatalk_identified:
  assumes "a \<le> UINT_MAX" "b \<le> UINT_MAX" "c \<le> UINT_MAX" "suff = [] \<or> \<not> is_digit (hd suff)"
    "s' = server_identify (''Netatalk'' @ decimal a @ ''.'' @ decimal b @ ''.'' @ decimal c @ suff) s"
  shows "id_type s' = Type_netatalk \<and> id_version s' = \<lparr>sv_major = a, sv_minor = b, sv_patch = c\<rparr> \<and> id_timeout s' = 5 \<and>
    (server_drops_long_commands s' \<longleftrightarrow> a < 4 \<or> a = 4 \<and> b < 5) \<and>
    (server_gives_directory_ids_to_files s' \<longleftrightarrow> a < 3) \<and> \<not> server_is_apple s'"
proof -
  have dot: "\<not> is_digit (CHR ''.'')" by (simp add: is_digit_def)
  have "version_parts 3 (decimal a @ ''.'' @ decimal b @ ''.'' @ decimal c @ suff) = [a, b, c]"
    using assms(1-4) dot by (simp add: numeral_3_eq_3 version_parts_decimal del: version_parts.simps(2))
  then have "snd (server_version_parse (decimal a @ ''.'' @ decimal b @ ''.'' @ decimal c @ suff)) =
      \<lparr>sv_major = a, sv_minor = b, sv_patch = c\<rparr>"
    by (simp add: server_version_parse_def)
  moreover have "identify_machine_type (Some (''Netatalk'' @ x)) = Type_netatalk" for x
    by (simp add: identify_machine_type_def)
  ultimately show ?thesis using assms(5)
    by (auto simp: server_identify_def Let_def server_drops_long_commands_def server_gives_directory_ids_to_files_def
        server_is_apple_def server_version_at_least_def)
qed

theorem netatalk_identified_witness:
  "server_drops_long_commands (server_identify ''Netatalk4.2.3dev'' \<lparr>id_type = Type_unknown,
     id_version = \<lparr>sv_major = 0, sv_minor = 0, sv_patch = 0\<rparr>, id_timeout = 0, id_using = 34\<rparr>)"
proof -
  have "decimal 4 = ''4''" "decimal 2 = ''2''" "decimal 3 = ''3''" by (simp_all add: decimal.simps; code_simp)+
  then show ?thesis
    using netatalk_identified [of 4 2 3 "''dev''", OF _ _ _ _ refl] by (simp add: is_digit_def)
qed

end
