(* ===== verification/Forks.thy ===== *)
theory Forks
  imports Did_Check Identify Afp_Replies
begin

text \<open>
  A volume's open forks, \<open>lib/forklist.c\<close>, with the flushes of \<open>lib/midlevel.c\<close> they use.  The records live in
  memory at addresses; the volume's list holds the addresses of those open.  The AFP commands are the
  operations of a record over a state \<open>'w\<close> of the session and its server, with the values the commands of
  \<open>lib/proto_*.c\<close> return: a return code, and what the reply's parser leaves in the caller's object.
\<close>

unbundle bit_operations_syntax

section \<open>The commands and the volume\<close>

record 'w afp_ops =
  op_byterangelock :: "nat \<Rightarrow> nat \<Rightarrow> nat \<Rightarrow> nat \<Rightarrow> 'w \<Rightarrow> int \<times> 'w"
  op_byterangelockext :: "nat \<Rightarrow> nat \<Rightarrow> nat \<Rightarrow> nat \<Rightarrow> 'w \<Rightarrow> int \<times> 'w"
  op_read :: "nat \<Rightarrow> nat \<Rightarrow> nat \<Rightarrow> 'w \<Rightarrow> int \<times> bytes \<times> 'w"
  op_readext :: "nat \<Rightarrow> nat \<Rightarrow> nat \<Rightarrow> 'w \<Rightarrow> int \<times> bytes \<times> 'w"
  op_write :: "nat \<Rightarrow> nat \<Rightarrow> bytes \<Rightarrow> 'w \<Rightarrow> int \<times> nat \<times> 'w"
  op_writeext :: "nat \<Rightarrow> nat \<Rightarrow> bytes \<Rightarrow> 'w \<Rightarrow> int \<times> nat \<times> 'w"
  op_setforkparms :: "nat \<Rightarrow> nat \<Rightarrow> nat \<Rightarrow> 'w \<Rightarrow> int \<times> 'w"
  op_createfile :: "nat \<Rightarrow> nat \<Rightarrow> bytes \<Rightarrow> 'w \<Rightarrow> int \<times> 'w"
  op_delete :: "nat \<Rightarrow> bytes \<Rightarrow> 'w \<Rightarrow> int \<times> 'w"
  op_openfork :: "nat \<Rightarrow> nat \<Rightarrow> nat \<Rightarrow> nat \<Rightarrow> bytes \<Rightarrow> afp_file_info \<Rightarrow> 'w \<Rightarrow> int \<times> afp_file_info \<times> 'w"
  op_closefork :: "nat \<Rightarrow> 'w \<Rightarrow> int \<times> 'w"
  op_flushfork :: "nat \<Rightarrow> int \<Rightarrow> 'w \<Rightarrow> int \<times> 'w"
  op_syncfork :: "nat \<Rightarrow> int \<Rightarrow> 'w \<Rightarrow> int \<times> 'w"
  op_getfiledirparms :: "nat \<Rightarrow> nat \<Rightarrow> nat \<Rightarrow> bytes \<Rightarrow> 'w \<Rightarrow> int \<times> afp_dirent \<times> 'w"
  op_enumerate :: "nat \<Rightarrow> nat \<Rightarrow> nat \<Rightarrow> nat \<Rightarrow> nat \<Rightarrow> bytes \<Rightarrow> afp_listing \<Rightarrow> 'w \<Rightarrow> int \<times> afp_listing \<times> 'w"
  op_enumerateext :: "nat \<Rightarrow> nat \<Rightarrow> nat \<Rightarrow> nat \<Rightarrow> nat \<Rightarrow> bytes \<Rightarrow> afp_listing \<Rightarrow> 'w \<Rightarrow> int \<times> afp_listing \<times> 'w"
  op_enumerateext2 :: "nat \<Rightarrow> nat \<Rightarrow> nat \<Rightarrow> nat \<Rightarrow> nat \<Rightarrow> bytes \<Rightarrow> afp_listing \<Rightarrow> 'w \<Rightarrow> int \<times> afp_listing \<times> 'w"
  op_setfiledirparms :: "nat \<Rightarrow> bytes \<Rightarrow> nat \<Rightarrow> afp_dirent \<Rightarrow> 'w \<Rightarrow> int \<times> 'w"
  op_setdirparms :: "nat \<Rightarrow> bytes \<Rightarrow> nat \<Rightarrow> afp_dirent \<Rightarrow> 'w \<Rightarrow> int \<times> 'w"
  op_createdir :: "nat \<Rightarrow> bytes \<Rightarrow> 'w \<Rightarrow> int \<times> 'w"
  op_copyfile :: "nat \<Rightarrow> bytes \<Rightarrow> nat \<Rightarrow> bytes \<Rightarrow> int \<Rightarrow> 'w \<Rightarrow> int \<times> 'w"
  op_moveandrename :: "nat \<Rightarrow> nat \<Rightarrow> bytes \<Rightarrow> bytes option \<Rightarrow> bytes \<Rightarrow> 'w \<Rightarrow> int \<times> 'w"
  op_exchangefiles :: "nat \<Rightarrow> nat \<Rightarrow> bytes \<Rightarrow> bytes \<Rightarrow> 'w \<Rightarrow> int \<times> 'w"
  op_opendt :: "nat \<Rightarrow> 'w \<Rightarrow> int \<times> nat \<times> 'w"
  op_getcomment :: "nat \<Rightarrow> bytes \<Rightarrow> 'w \<Rightarrow> int \<times> bytes \<times> 'w"
  op_addcomment :: "nat \<Rightarrow> bytes \<Rightarrow> bytes \<Rightarrow> 'w \<Rightarrow> int \<times> 'w"
  op_getextattr :: "nat \<Rightarrow> nat \<Rightarrow> bytes \<Rightarrow> bytes \<Rightarrow> 'w \<Rightarrow> int \<times> (nat \<times> bytes) \<times> 'w"
  op_setextattr :: "nat \<Rightarrow> nat \<Rightarrow> bytes \<Rightarrow> bytes \<Rightarrow> bytes \<Rightarrow> 'w \<Rightarrow> int \<times> 'w"
  op_listextattr :: "nat \<Rightarrow> nat \<Rightarrow> bytes \<Rightarrow> 'w \<Rightarrow> int \<times> (nat \<times> bytes) \<times> 'w"
  op_removeextattr :: "nat \<Rightarrow> bytes \<Rightarrow> bytes \<Rightarrow> 'w \<Rightarrow> int \<times> 'w"
  op_transfer_wait :: "nat \<Rightarrow> nat \<Rightarrow> 'w \<Rightarrow> int"
  op_time :: "'w \<Rightarrow> int \<times> 'w"
  op_sleep :: "'w \<Rightarrow> 'w"

text \<open>What the operations read of the volume and its server.\<close>

record file_volume =
  fv_volume :: afp_volume
  fv_server :: server_ident
  fv_quantum :: nat
  fv_ids :: volume_ids
  fv_mount_time :: int
  fv_icon :: bytes

abbreviation (input) av_number :: "file_volume \<Rightarrow> nat" where "av_number v \<equiv> id_using (fv_server v)"

abbreviation (input) VOLUME_EXTRA_FLAGS_VOL_SUPPORTS_UNIX :: nat where "VOLUME_EXTRA_FLAGS_VOL_SUPPORTS_UNIX \<equiv> 0x8"
abbreviation (input) VOLUME_EXTRA_FLAGS_NO_LOCKING :: nat where "VOLUME_EXTRA_FLAGS_NO_LOCKING \<equiv> 0x10"
abbreviation (input) VOLUME_EXTRA_FLAGS_READONLY :: nat where "VOLUME_EXTRA_FLAGS_READONLY \<equiv> 0x40"
abbreviation (input) VOLUME_EXTRA_FLAGS_FLUSH_ON_CLOSE :: nat where "VOLUME_EXTRA_FLAGS_FLUSH_ON_CLOSE \<equiv> 0x80"
abbreviation (input) kReadOnly :: nat where "kReadOnly \<equiv> 1"

definition volume_is_readonly :: "file_volume \<Rightarrow> bool" where
  "volume_is_readonly v \<longleftrightarrow> has_bit (vol_attributes (fv_volume v)) kReadOnly
     \<or> has_bit (vol_extra_flags (fv_volume v)) VOLUME_EXTRA_FLAGS_READONLY"

record 'w vol_state =
  vs_records :: "nat \<Rightarrow> afp_file_info option"
  vs_open_forks :: "nat list"
  vs_cache :: did_cache
  vs_dtrefnum :: nat
  vs_no_desktop :: bool
  vs_world :: 'w

definition set_record :: "nat \<Rightarrow> afp_file_info \<Rightarrow> 'w vol_state \<Rightarrow> 'w vol_state" where
  "set_record p f s = s\<lparr>vs_records := (vs_records s)(p \<mapsto> f)\<rparr>"

section \<open>The list of open forks\<close>

definition names_file :: "afp_file_info \<Rightarrow> nat \<Rightarrow> bytes \<Rightarrow> bool" where
  "names_file p did basename \<longleftrightarrow> fi_did p = did \<and> fi_basename p = basename"

definition add_opened_fork :: "nat \<Rightarrow> 'w vol_state \<Rightarrow> 'w vol_state" where
  "add_opened_fork fp s = s\<lparr>vs_open_forks := fp # vs_open_forks s\<rparr>"

definition remove_opened_fork :: "nat \<Rightarrow> 'w vol_state \<Rightarrow> 'w vol_state" where
  "remove_opened_fork fp s = s\<lparr>vs_open_forks := remove1 fp (vs_open_forks s)\<rparr>"

text \<open>\<^term>\<open>None\<close> is a record freed while it is listed.\<close>

fun other_fork_loop :: "(nat \<Rightarrow> afp_file_info option) \<Rightarrow> nat \<Rightarrow> afp_file_info \<Rightarrow> nat list \<Rightarrow> bool option" where
  "other_fork_loop m fp f [] = Some False"
| "other_fork_loop m fp f (p # ps) =
     (if p = fp then other_fork_loop m fp f ps
      else case m p of
          None \<Rightarrow> None
        | Some g \<Rightarrow> if names_file g (fi_did f) (fi_basename f) then Some True else other_fork_loop m fp f ps)"

definition other_fork_open :: "nat \<Rightarrow> 'w vol_state \<Rightarrow> bool option" where
  "other_fork_open fp s =
     (case vs_records s fp of None \<Rightarrow> None | Some f \<Rightarrow> other_fork_loop (vs_records s) fp f (vs_open_forks s))"

record dirty_fork_record =
  dr_forkid :: nat
  dr_did :: nat
  dr_resource :: nat
  dr_basename :: bytes

text \<open>The walk that collects the dirty forks; the array doubles, and a fork it has no room for stays dirty.\<close>

fun collect_dirty ::
  "(nat \<Rightarrow> bool) \<Rightarrow> nat \<Rightarrow> afp_file_info \<Rightarrow> nat list \<Rightarrow> dirty_fork_record list \<Rightarrow> nat \<Rightarrow> (nat \<Rightarrow> afp_file_info option)
     \<Rightarrow> (dirty_fork_record list \<times> (nat \<Rightarrow> afp_file_info option)) option" where
  "collect_dirty malloc_ok fp f [] records capacity m = Some (records, m)"
| "collect_dirty malloc_ok fp f (p # ps) records capacity m =
     (if p = fp then collect_dirty malloc_ok fp f ps records capacity m
      else case m p of
          None \<Rightarrow> None
        | Some g \<Rightarrow>
            if fi_writable g = 0 \<or> fi_dirty g = 0 \<or> fi_resource g \<noteq> fi_resource f
               \<or> \<not> names_file g (fi_did f) (fi_basename f)
            then collect_dirty malloc_ok fp f ps records capacity m
            else let new_capacity = (if capacity \<noteq> 0 then capacity * 2 else 4) in
              if length records = capacity \<and> \<not> malloc_ok (new_capacity * 1036)
              then collect_dirty malloc_ok fp f ps records capacity m
              else collect_dirty malloc_ok fp f ps
                (records @ [\<lparr>dr_forkid = fi_forkid g, dr_did = fi_did g, dr_resource = fi_resource g, dr_basename = fi_basename g\<rparr>])
                (if length records = capacity then new_capacity else capacity) (m(p \<mapsto> g\<lparr>fi_dirty := 0\<rparr>)))"

text \<open>A fork whose flush failed is dirty again, if its record is still listed.\<close>

fun mark_dirty :: "dirty_fork_record \<Rightarrow> nat list \<Rightarrow> (nat \<Rightarrow> afp_file_info option) \<Rightarrow> (nat \<Rightarrow> afp_file_info option) option" where
  "mark_dirty r [] m = Some m"
| "mark_dirty r (p # ps) m =
     (case m p of
        None \<Rightarrow> None
      | Some g \<Rightarrow>
          if fi_forkid g = dr_forkid r \<and> fi_resource g = dr_resource r \<and> names_file g (dr_did r) (dr_basename r)
          then Some (m(p \<mapsto> g\<lparr>fi_dirty := 1\<rparr>)) else mark_dirty r ps m)"

fun flush_records :: "'w afp_ops \<Rightarrow> dirty_fork_record list \<Rightarrow> 'w vol_state \<Rightarrow> 'w vol_state option" where
  "flush_records ops [] s = Some s"
| "flush_records ops (r # rs) s =
     (case op_flushfork ops (dr_forkid r) DSI_DEFAULT_TIMEOUT (vs_world s) of
        (rc, w) \<Rightarrow>
          (case (if rc = kFPNoErr then Some (vs_records s) else mark_dirty r (vs_open_forks s) (vs_records s)) of
             None \<Rightarrow> None
           | Some m \<Rightarrow> flush_records ops rs (s\<lparr>vs_records := m, vs_world := w\<rparr>)))"

definition flush_dirty_forks_for_file :: "(nat \<Rightarrow> bool) \<Rightarrow> 'w afp_ops \<Rightarrow> nat \<Rightarrow> 'w vol_state \<Rightarrow> 'w vol_state option" where
  "flush_dirty_forks_for_file malloc_ok ops fp s =
     (case vs_records s fp of
        None \<Rightarrow> None
      | Some f \<Rightarrow>
          (case collect_dirty malloc_ok fp f (vs_open_forks s) [] 0 (vs_records s) of
             None \<Rightarrow> None
           | Some (records, m) \<Rightarrow> flush_records ops records (s\<lparr>vs_records := m\<rparr>)))"

section \<open>Flushing and closing\<close>

abbreviation (input) AFP_DISK_BYTES_PER_SECOND :: nat where "AFP_DISK_BYTES_PER_SECOND \<equiv> 1048576"
abbreviation (input) kFPCallNotSupported :: int where "kFPCallNotSupported \<equiv> -5024"

definition ml_fsync :: "file_volume \<Rightarrow> 'w afp_ops \<Rightarrow> nat \<Rightarrow> 'w vol_state \<Rightarrow> (int \<times> 'w vol_state) option" where
  "ml_fsync v ops fp s =
     (case vs_records s fp of
        None \<Rightarrow> None
      | Some f \<Rightarrow>
          if fi_resource f > AFP_META_RESOURCE then Some (0, s)
          else if fi_forkid f = 0 then Some (- EIO, s)
          else let w0 = vs_world s; wait = op_transfer_wait ops (fi_size f) AFP_DISK_BYTES_PER_SECOND w0 in
            case (if av_number v \<ge> 31 then op_syncfork ops (fi_forkid f) wait w0 else (kFPCallNotSupported, w0)) of
              (rc1, w1) \<Rightarrow>
                (case (if rc1 = kFPCallNotSupported then op_flushfork ops (fi_forkid f) wait w1 else (rc1, w1)) of
                   (rc, w) \<Rightarrow>
                     let s1 = s\<lparr>vs_world := w\<rparr> in
                     if rc = kFPNoErr then Some (0, set_record fp (f\<lparr>fi_dirty := 0\<rparr>) s1)
                     else Some (if rc = kFPAccessDenied then - EACCES else - EIO,
                       set_record fp (f\<lparr>fi_dirty := (if fi_dirty f \<noteq> 0 then 1 else 0)\<rparr>) s1)))"

definition ml_close_flush :: "file_volume \<Rightarrow> 'w afp_ops \<Rightarrow> nat \<Rightarrow> 'w vol_state \<Rightarrow> (int \<times> 'w vol_state) option" where
  "ml_close_flush v ops fp s =
     (case vs_records s fp of
        None \<Rightarrow> None
      | Some f \<Rightarrow>
          if fi_dirty f = 0 \<or> \<not> has_bit (vol_extra_flags (fv_volume v)) VOLUME_EXTRA_FLAGS_FLUSH_ON_CLOSE then Some (0, s)
          else ml_fsync v ops fp s)"

fun remove_fork_loop :: "file_volume \<Rightarrow> 'w afp_ops \<Rightarrow> nat list \<Rightarrow> 'w vol_state \<Rightarrow> 'w vol_state option" where
  "remove_fork_loop v ops [] s = Some s"
| "remove_fork_loop v ops (p # ps) s =
     (case ml_close_flush v ops p s of
        None \<Rightarrow> None
      | Some (_, s1) \<Rightarrow>
          (case vs_records s1 p of
             None \<Rightarrow> None
           | Some f \<Rightarrow>
               (case op_closefork ops (fi_forkid f) (vs_world s1) of
                  (_, w) \<Rightarrow> remove_fork_loop v ops ps
                    (s1\<lparr>vs_world := w, vs_open_forks := ps, vs_records := (vs_records s1)(p := None)\<rparr>))))"

definition remove_fork_list :: "file_volume \<Rightarrow> 'w afp_ops \<Rightarrow> 'w vol_state \<Rightarrow> 'w vol_state option" where
  "remove_fork_list v ops s = remove_fork_loop v ops (vs_open_forks s) s"

section \<open>The list's invariant\<close>

text \<open>The open forks are distinct records in memory.\<close>

definition wf_forks :: "'w vol_state \<Rightarrow> bool" where
  "wf_forks s \<longleftrightarrow> distinct (vs_open_forks s) \<and> set (vs_open_forks s) \<subseteq> dom (vs_records s)"

text \<open>What changes only flags: the same records, with the same members but the dirty flag.\<close>

definition clean :: "afp_file_info \<Rightarrow> afp_file_info" where
  "clean f = f\<lparr>fi_dirty := 0\<rparr>"

definition same_but_dirty :: "(nat \<Rightarrow> afp_file_info option) \<Rightarrow> (nat \<Rightarrow> afp_file_info option) \<Rightarrow> bool" where
  "same_but_dirty m m' \<longleftrightarrow> map_option clean \<circ> m = map_option clean \<circ> m'"

lemma same_but_dirty_upd: "m p = Some f \<Longrightarrow> same_but_dirty m (m(p \<mapsto> f\<lparr>fi_dirty := d\<rparr>))"
  by (auto simp: same_but_dirty_def clean_def)

lemma same_but_dirty_refl [simp]: "same_but_dirty m m"
  by (simp add: same_but_dirty_def)

lemma same_but_dirty_trans: "same_but_dirty m m' \<Longrightarrow> same_but_dirty m' m'' \<Longrightarrow> same_but_dirty m m''"
  by (simp add: same_but_dirty_def)

lemma same_but_dirty_dom: "same_but_dirty m m' \<Longrightarrow> dom m' = dom m"
  by (auto simp: same_but_dirty_def fun_eq_iff dom_def) (metis option.map_disc_iff not_None_eq)+

lemma same_but_dirty_fields:
  assumes "same_but_dirty m m'" "m p = Some f"
  shows "\<exists>g. m' p = Some g \<and> clean g = clean f \<and> fi_forkid g = fi_forkid f \<and> fi_resource g = fi_resource f \<and>
    fi_did g = fi_did f \<and> fi_basename g = fi_basename f \<and> fi_size g = fi_size f"
proof -
  have "map_option clean (m' p) = Some (clean f)" using assms by (metis comp_apply option.map(2) same_but_dirty_def)
  then obtain g where g: "m' p = Some g" "clean g = clean f" by auto
  then show ?thesis
    by (metis (no_types, lifting) clean_def afp_file_info.select_convs afp_file_info.surjective afp_file_info.update_convs(8))
qed

text \<open>What the layers above rely on of an operation on an open fork: it returns, and leaves the list and every
  record's members but the dirty flags.\<close>

locale flag_step =
  fixes step :: "nat \<Rightarrow> 'w vol_state \<Rightarrow> 'w vol_state option"
  assumes returns: "wf_forks s \<Longrightarrow> fp \<in> dom (vs_records s) \<Longrightarrow>
    \<exists>s'. step fp s = Some s' \<and> vs_open_forks s' = vs_open_forks s \<and> vs_cache s' = vs_cache s \<and>
      same_but_dirty (vs_records s) (vs_records s')"
begin

lemma keeps_wf: "wf_forks s \<Longrightarrow> fp \<in> dom (vs_records s) \<Longrightarrow> \<exists>s'. step fp s = Some s' \<and> wf_forks s' \<and> dom (vs_records s') = dom (vs_records s)"
  using returns [of s fp] same_but_dirty_dom by (fastforce simp: wf_forks_def)

lemma keeps_record:
  assumes "wf_forks s" "vs_records s fp = Some f" "step fp s = Some s'"
  shows "\<exists>g. vs_records s' fp = Some g \<and> clean g = clean f \<and> fi_forkid g = fi_forkid f"
  using returns [of s fp] assms same_but_dirty_fields [of "vs_records s" "vs_records s'" fp f] by auto

end

lemma collect_dirty_keeps:
  "set ps \<subseteq> dom m \<Longrightarrow> \<exists>rs' m'. collect_dirty malloc_ok fp f ps rs k m = Some (rs', m') \<and> same_but_dirty m m'"
proof (induction ps arbitrary: rs k m)
  case (Cons p ps)
  then obtain g where g: "m p = Some g" by auto
  let ?m = "m(p \<mapsto> g\<lparr>fi_dirty := 0\<rparr>)"
  have d: "set ps \<subseteq> dom m" "set ps \<subseteq> dom ?m" using Cons.prems by auto
  have "\<exists>rs' m'. collect_dirty malloc_ok fp f ps rs1 k1 ?m = Some (rs', m') \<and> same_but_dirty m m'" for rs1 k1
    using Cons.IH [OF d(2)] same_but_dirty_upd [of m p g 0, OF g] by (meson same_but_dirty_trans)
  then show ?case using Cons.IH [OF d(1)] g by (simp add: Let_def)
qed simp

lemma mark_dirty_keeps: "set ps \<subseteq> dom m \<Longrightarrow> \<exists>m'. mark_dirty r ps m = Some m' \<and> same_but_dirty m m'"
  by (induction r ps m rule: mark_dirty.induct) (auto intro: same_but_dirty_upd)

lemma flush_records_keeps:
  "set (vs_open_forks s) \<subseteq> dom (vs_records s) \<Longrightarrow>
    \<exists>s'. flush_records ops rs s = Some s' \<and> vs_open_forks s' = vs_open_forks s \<and> vs_cache s' = vs_cache s \<and>
      same_but_dirty (vs_records s) (vs_records s')"
proof (induction rs arbitrary: s)
  case Nil
  then show ?case by simp
next
  case (Cons r rs)
  obtain rc w where w: "op_flushfork ops (dr_forkid r) DSI_DEFAULT_TIMEOUT (vs_world s) = (rc, w)" by fastforce
  obtain m where m: "(if rc = kFPNoErr then Some (vs_records s) else mark_dirty r (vs_open_forks s) (vs_records s)) = Some m"
    and sm: "same_but_dirty (vs_records s) m"
    using mark_dirty_keeps [OF Cons.prems, of r] by (cases "rc = kFPNoErr") auto
  have "set (vs_open_forks s) \<subseteq> dom m" using Cons.prems same_but_dirty_dom [OF sm] by simp
  with Cons.IH [of "s\<lparr>vs_records := m, vs_world := w\<rparr>"] sm show ?case using w m by (auto intro: same_but_dirty_trans)
qed

interpretation flush_others: flag_step "flush_dirty_forks_for_file malloc_ok ops" for malloc_ok and ops :: "'w afp_ops"
proof
  fix s :: "'w vol_state" and fp
  assume s: "wf_forks s" and "fp \<in> dom (vs_records s)"
  then obtain f where f: "vs_records s fp = Some f" by auto
  have d: "set (vs_open_forks s) \<subseteq> dom (vs_records s)" using s by (simp add: wf_forks_def)
  obtain rs m where m: "collect_dirty malloc_ok fp f (vs_open_forks s) [] 0 (vs_records s) = Some (rs, m)"
    "same_but_dirty (vs_records s) m"
    using collect_dirty_keeps [OF d] by blast
  have "set (vs_open_forks s) \<subseteq> dom m" using d same_but_dirty_dom [OF m(2)] by simp
  with flush_records_keeps [of "s\<lparr>vs_records := m\<rparr>" ops rs] m f
  show "\<exists>s'. flush_dirty_forks_for_file malloc_ok ops fp s = Some s' \<and> vs_open_forks s' = vs_open_forks s \<and>
      vs_cache s' = vs_cache s \<and> same_but_dirty (vs_records s) (vs_records s')"
    by (auto simp: flush_dirty_forks_for_file_def intro: same_but_dirty_trans)
qed

lemma ml_fsync_result:
  assumes "vs_records s fp = Some f"
  shows "\<exists>rc d w. ml_fsync v ops fp s = Some (rc, set_record fp (f\<lparr>fi_dirty := d\<rparr>) (s\<lparr>vs_world := w\<rparr>))"
proof -
  let ?wait = "op_transfer_wait ops (fi_size f) AFP_DISK_BYTES_PER_SECOND (vs_world s)"
  obtain rc1 w1 where 1: "(if av_number v \<ge> 31 then op_syncfork ops (fi_forkid f) ?wait (vs_world s)
      else (kFPCallNotSupported, vs_world s)) = (rc1, w1)" by fastforce
  obtain rc w where 2: "(if rc1 = kFPCallNotSupported then op_flushfork ops (fi_forkid f) ?wait w1 else (rc1, w1)) = (rc, w)"
    by fastforce
  have id: "set_record fp (f\<lparr>fi_dirty := fi_dirty f\<rparr>) (s\<lparr>vs_world := vs_world s\<rparr>) = s"
    using assms by (simp add: set_record_def fun_upd_idem)
  consider "fi_resource f > AFP_META_RESOURCE" | "fi_resource f \<le> AFP_META_RESOURCE" "fi_forkid f = 0"
    | "fi_resource f \<le> AFP_META_RESOURCE" "fi_forkid f \<noteq> 0" by linarith
  then show ?thesis
  proof cases
    case 1
    then have "ml_fsync v ops fp s = Some (0, s)" using assms by (simp add: ml_fsync_def)
    then show ?thesis using id by metis
  next
    case 2
    then have "ml_fsync v ops fp s = Some (- EIO, s)" using assms by (simp add: ml_fsync_def)
    then show ?thesis using id by metis
  next
    case 3
    show ?thesis
      using 3 assms by (simp add: ml_fsync_def Let_def 1 2) blast
  qed
qed

interpretation sync_fork: flag_step "\<lambda>fp s. map_option snd (ml_fsync v ops fp s)" for v and ops :: "'w afp_ops"
proof
  fix s :: "'w vol_state" and fp
  assume "fp \<in> dom (vs_records s)"
  then obtain f where f: "vs_records s fp = Some f" by auto
  from ml_fsync_result [OF f, of v ops] same_but_dirty_upd [of "vs_records s", OF f]
  show "\<exists>s'. map_option snd (ml_fsync v ops fp s) = Some s' \<and> vs_open_forks s' = vs_open_forks s \<and>
      vs_cache s' = vs_cache s \<and> same_but_dirty (vs_records s) (vs_records s')"
    by (auto simp: set_record_def)
qed

interpretation close_flush: flag_step "\<lambda>fp s. map_option snd (ml_close_flush v ops fp s)" for v and ops :: "'w afp_ops"
proof
  fix s :: "'w vol_state" and fp
  assume s: "wf_forks s" "fp \<in> dom (vs_records s)"
  from sync_fork.returns [OF s, of v ops] s(2)
  show "\<exists>s'. map_option snd (ml_close_flush v ops fp s) = Some s' \<and> vs_open_forks s' = vs_open_forks s \<and>
      vs_cache s' = vs_cache s \<and> same_but_dirty (vs_records s) (vs_records s')"
    by (auto simp: ml_close_flush_def)
qed

section \<open>Flushes that fail\<close>

definition is_dirty :: "(nat \<Rightarrow> afp_file_info option) \<Rightarrow> nat \<Rightarrow> bool" where
  "is_dirty m p \<longleftrightarrow> (\<exists>g. m p = Some g \<and> fi_dirty g \<noteq> 0)"

definition record_of :: "afp_file_info \<Rightarrow> dirty_fork_record" where
  "record_of g = \<lparr>dr_forkid = fi_forkid g, dr_did = fi_did g, dr_resource = fi_resource g, dr_basename = fi_basename g\<rparr>"

lemma record_of_clean: "clean g = clean f \<Longrightarrow> record_of g = record_of f"
  by (metis (no_types, lifting) clean_def record_of_def afp_file_info.select_convs afp_file_info.surjective afp_file_info.update_convs(8))

text \<open>The fork with an identifier, in records that differ in their dirty flags.\<close>

definition sole_fork :: "(nat \<Rightarrow> afp_file_info option) \<Rightarrow> nat list \<Rightarrow> nat \<Rightarrow> nat \<Rightarrow> bool" where
  "sole_fork m ps k p \<longleftrightarrow> (\<forall>q \<in> set ps. \<forall>h. m q = Some h \<and> fi_forkid h = k \<longrightarrow> q = p)"

lemma sole_fork_kept:
  assumes "same_but_dirty m m'" "set ps \<subseteq> dom m" "sole_fork m ps k p"
  shows "sole_fork m' ps k p"
  unfolding sole_fork_def
proof (intro ballI allI impI)
  fix q h
  assume q: "q \<in> set ps" and h: "m' q = Some h \<and> fi_forkid h = k"
  then obtain h' where h': "m q = Some h'" using assms(2) by auto
  then have "fi_forkid h' = k" using same_but_dirty_fields [OF assms(1) h'] h by auto
  then show "q = p" using assms(3) q h' by (auto simp: sole_fork_def)
qed

lemma collect_dirty_records:
  assumes "collect_dirty malloc_ok fp f ps rs k m = Some (rs', m')" "m p = Some g"
  shows "set rs \<subseteq> set rs' \<and> (fi_dirty g \<noteq> 0 \<longrightarrow> is_dirty m' p \<or> record_of g \<in> set rs')"
  using assms
proof (induction ps arbitrary: rs k m g)
  case (Cons q ps)
  show ?case
  proof (cases "q = fp")
    case True
    then show ?thesis using Cons by simp
  next
    case False
    then obtain h where h: "m q = Some h" using Cons.prems(1) by (auto split: option.splits)
    show ?thesis
    proof (cases "\<exists>k1. collect_dirty malloc_ok fp f ps (rs @ [record_of h]) k1 (m(q \<mapsto> h\<lparr>fi_dirty := 0\<rparr>)) = Some (rs', m')")
      case True
      then obtain k1 where "collect_dirty malloc_ok fp f ps (rs @ [record_of h]) k1 (m(q \<mapsto> h\<lparr>fi_dirty := 0\<rparr>)) = Some (rs', m')" by blast
      from Cons.IH [OF this] show ?thesis using Cons.prems(2) h by (cases "p = q") auto
    next
      case no: False
      then have "collect_dirty malloc_ok fp f ps rs k m = Some (rs', m')"
        using Cons.prems(1) False h by (auto simp: Let_def record_of_def split: if_splits)
      then show ?thesis using Cons.IH Cons.prems(2) by blast
    qed
  qed
qed (auto simp: is_dirty_def)

lemma mark_dirty_mono: "mark_dirty r ps m = Some m' \<Longrightarrow> is_dirty m p \<Longrightarrow> is_dirty m' p"
  by (induction ps) (auto simp: is_dirty_def split: option.splits if_splits)

lemma mark_dirty_marks:
  assumes "mark_dirty r ps m = Some m'" "p \<in> set ps" "m p = Some g" "record_of g = r"
    "sole_fork m ps (fi_forkid g) p"
  shows "is_dirty m' p"
  using assms(1,2,5)
proof (induction ps)
  case (Cons q ps)
  then obtain h where h: "m q = Some h" by (auto split: option.splits)
  show ?case
  proof (cases "q = p")
    case True
    then have "m' = m(p \<mapsto> g\<lparr>fi_dirty := 1\<rparr>)" using Cons.prems(1) assms(3,4) by (auto simp: record_of_def names_file_def)
    then show ?thesis by (simp add: is_dirty_def)
  next
    case False
    then have "fi_forkid h \<noteq> dr_forkid r" using Cons.prems(3) h assms(4) by (auto simp: record_of_def sole_fork_def)
    then have "mark_dirty r ps m = Some m'" using Cons.prems(1) h by simp
    then show ?thesis using Cons.IH Cons.prems False by (simp add: sole_fork_def)
  qed
qed simp

lemma flush_records_dirty:
  assumes "flush_records ops rs s = Some s'" "set (vs_open_forks s) \<subseteq> dom (vs_records s)" "p \<in> set (vs_open_forks s)"
    "vs_records s p = Some g" "sole_fork (vs_records s) (vs_open_forks s) (fi_forkid g) p"
    "\<forall>w. fst (op_flushfork ops (fi_forkid g) DSI_DEFAULT_TIMEOUT w) \<noteq> kFPNoErr"
    "is_dirty (vs_records s) p \<or> record_of g \<in> set rs"
  shows "is_dirty (vs_records s') p"
  using assms
proof (induction rs arbitrary: s g)
  case (Cons r rs)
  obtain rc w where w: "op_flushfork ops (dr_forkid r) DSI_DEFAULT_TIMEOUT (vs_world s) = (rc, w)" by fastforce
  obtain m where m: "(if rc = kFPNoErr then Some (vs_records s) else mark_dirty r (vs_open_forks s) (vs_records s)) = Some m"
    and run: "flush_records ops rs (s\<lparr>vs_records := m, vs_world := w\<rparr>) = Some s'"
    using Cons.prems(1) w by (auto split: option.splits)
  have sm: "same_but_dirty (vs_records s) m"
    using m mark_dirty_keeps [OF Cons.prems(2), of r] by (auto split: if_splits)
  obtain g' where g': "m p = Some g'" "clean g' = clean g" "fi_forkid g' = fi_forkid g"
    using same_but_dirty_fields [OF sm Cons.prems(4)] by blast
  have "is_dirty m p \<or> record_of g' \<in> set rs"
  proof (cases "r = record_of g")
    case True
    then have "rc \<noteq> kFPNoErr" using Cons.prems(6) [rule_format, of "vs_world s"] w by (simp add: record_of_def)
    then have "mark_dirty r (vs_open_forks s) (vs_records s) = Some m" using m by simp
    from mark_dirty_marks [OF this Cons.prems(3,4) True [symmetric] Cons.prems(5)] show ?thesis by blast
  next
    case False
    then show ?thesis using Cons.prems(7) mark_dirty_mono m record_of_clean [OF g'(2)] by (auto split: if_splits)
  qed
  moreover note sole_fork_kept [OF sm Cons.prems(2,5)]
  ultimately show ?case
    using Cons.IH [OF run] Cons.prems(2,3,6) g' same_but_dirty_dom [OF sm] by simp
qed simp

section \<open>A server with one file\<close>

text \<open>Bytes put at an offset of a file; a gap before them reads as zeros.\<close>

definition file_put :: "bytes \<Rightarrow> nat \<Rightarrow> bytes \<Rightarrow> bytes" where
  "file_put f off bs = take off (f @ replicate (off - length f) 0) @ bs @ drop (off + length bs) f"

abbreviation (input) kFPEOFErr :: int where "kFPEOFErr \<equiv> -5009"

text \<open>A reply carries at most \<open>cap\<close> bytes, and the end of the file is an error when the request reaches past it.\<close>

definition serve_read :: "nat \<Rightarrow> nat \<Rightarrow> nat \<Rightarrow> nat \<Rightarrow> bytes \<Rightarrow> int \<times> bytes \<times> bytes" where
  "serve_read cap fork off n f =
     (if off + min n cap \<le> length f then (kFPNoErr, take (min n cap) (drop off f), f) else (kFPEOFErr, drop off f, f))"

definition serve_write :: "nat \<Rightarrow> nat \<Rightarrow> nat \<Rightarrow> bytes \<Rightarrow> bytes \<Rightarrow> int \<times> nat \<times> bytes" where
  "serve_write cap fork off bs f = (kFPNoErr, off + min (length bs) cap, file_put f off (take cap bs))"

definition file_server :: "nat \<Rightarrow> bytes afp_ops" where
  "file_server cap = \<lparr>
     op_byterangelock = \<lambda>flag fork off n f. (kFPNoErr, f), op_byterangelockext = \<lambda>flag fork off n f. (kFPNoErr, f),
     op_read = serve_read cap, op_readext = serve_read cap, op_write = serve_write cap, op_writeext = serve_write cap,
     op_setforkparms = \<lambda>fork bitmap n f. (kFPNoErr, take n f @ replicate (n - length f) 0),
     op_createfile = \<lambda>flag did name f. (-5017, f), op_delete = \<lambda>did name f. (kFPNoErr, []),
     op_openfork = \<lambda>fork did aflags bitmap name fp f. (kFPNoErr, fp\<lparr>fi_forkid := 1\<rparr>, f),
     op_closefork = \<lambda>fork f. (kFPNoErr, f), op_flushfork = \<lambda>fork wait f. (kFPNoErr, f),
     op_syncfork = \<lambda>fork wait f. (kFPNoErr, f),
     op_getfiledirparms = \<lambda>did fb db name f. (kFPNoErr, no_entry\<lparr>de_size := length f\<rparr>, f),
     op_enumerate = \<lambda>did fb db n start name l f. (kFPObjectNotFound, l, f),
     op_enumerateext = \<lambda>did fb db n start name l f. (kFPObjectNotFound, l, f),
     op_enumerateext2 = \<lambda>did fb db n start name l f. (kFPObjectNotFound, l, f),
     op_setfiledirparms = \<lambda>did name bitmap e f. (kFPNoErr, f), op_setdirparms = \<lambda>did name bitmap e f. (kFPNoErr, f),
     op_createdir = \<lambda>did name f. (-5017, f), op_copyfile = \<lambda>did name did' name' wait f. (kFPNoErr, f),
     op_moveandrename = \<lambda>did did' name path name' f. (kFPNoErr, f),
     op_exchangefiles = \<lambda>did did' name name' f. (kFPNoErr, f),
     op_opendt = \<lambda>ref f. (-5024, ref, f), op_getcomment = \<lambda>did name f. (-5012, [], f),
     op_addcomment = \<lambda>did name c f. (-5024, f), op_getextattr = \<lambda>did max name attr f. (-5012, (0, []), f),
     op_setextattr = \<lambda>did bitmap name attr c f. (-5024, f), op_listextattr = \<lambda>did max name f. (kFPNoErr, (0, []), f),
     op_removeextattr = \<lambda>did name attr f. (-5012, f),
     op_transfer_wait = \<lambda>n rate f. 5, op_time = \<lambda>f. (0, f), op_sleep = \<lambda>f. f\<rparr>"

definition open_file :: "nat \<Rightarrow> nat \<Rightarrow> afp_file_info" where
  "open_file fork dirty = \<lparr>fi_size = 0, fi_did = 2, fi_cnid = 0, fi_resource = 0, fi_forkid = fork, fi_sync = 0, fi_writable = 1,
     fi_dirty = dirty, fi_created = 0, fi_basename = [0x61]\<rparr>"

definition two_forks :: "bytes vol_state" where
  "two_forks = \<lparr>vs_records = [1 \<mapsto> open_file 1 1, 2 \<mapsto> open_file 2 1], vs_open_forks = [2, 1], vs_cache = stale_cache, vs_dtrefnum = 0,
     vs_no_desktop = False, vs_world = [1, 2, 3]\<rparr>"

section \<open>Properties\<close>

text \<open>C17: A failed flush forgets no written data. Before a read on an Apple server the file's other dirty forks are
  flushed; whatever the list holds, the walk touches only records in memory, changes nothing but dirty flags, and
  a fork whose flush the server refuses is dirty afterwards as before.\<close>

theorem failed_flush_stays_dirty:
  assumes "wf_forks s" "fp \<in> dom (vs_records s)" "p \<in> set (vs_open_forks s)" "vs_records s p = Some g" "fi_dirty g \<noteq> 0"
    "sole_fork (vs_records s) (vs_open_forks s) (fi_forkid g) p"
    "\<forall>w. fst (op_flushfork ops (fi_forkid g) DSI_DEFAULT_TIMEOUT w) \<noteq> kFPNoErr"
  shows "\<exists>s'. flush_dirty_forks_for_file malloc_ok ops fp s = Some s' \<and> wf_forks s' \<and>
    same_but_dirty (vs_records s) (vs_records s') \<and> is_dirty (vs_records s') p"
proof -
  obtain s' where s': "flush_dirty_forks_for_file malloc_ok ops fp s = Some s'" "same_but_dirty (vs_records s) (vs_records s')"
    using flush_others.returns [OF assms(1,2), of malloc_ok ops] by blast
  have wf': "wf_forks s'" using flush_others.keeps_wf [OF assms(1,2), of malloc_ok ops] s'(1) by auto
  obtain f where f: "vs_records s fp = Some f" using assms(2) by auto
  obtain rs m where c: "collect_dirty malloc_ok fp f (vs_open_forks s) [] 0 (vs_records s) = Some (rs, m)"
    and run: "flush_records ops rs (s\<lparr>vs_records := m\<rparr>) = Some s'"
    using s'(1) f by (auto simp: flush_dirty_forks_for_file_def split: option.splits)
  have d: "set (vs_open_forks s) \<subseteq> dom (vs_records s)" using assms(1) by (simp add: wf_forks_def)
  have sm: "same_but_dirty (vs_records s) m" using collect_dirty_keeps [OF d, of malloc_ok fp f "[]" 0] c by auto
  obtain g' where g': "m p = Some g'" "clean g' = clean g" "fi_forkid g' = fi_forkid g"
    using same_but_dirty_fields [OF sm assms(4)] by blast
  have "is_dirty m p \<or> record_of g' \<in> set rs"
    using collect_dirty_records [OF c assms(4)] assms(5) record_of_clean [OF g'(2)] by auto
  moreover note sole_fork_kept [OF sm d assms(6)]
  ultimately have "is_dirty (vs_records s') p"
    using flush_records_dirty [OF run, of p g'] g' assms(3,7) d same_but_dirty_dom [OF sm] by simp
  then show ?thesis using s' wf' by blast
qed

theorem failed_flush_stays_dirty_witness:
  "\<exists>s'. flush_dirty_forks_for_file (\<lambda>_. True) ((file_server 4)\<lparr>op_flushfork := \<lambda>fork wait f. (-5014, f)\<rparr>) 1 two_forks = Some s' \<and>
    is_dirty (vs_records s') 2"
proof -
  have "wf_forks two_forks" "1 \<in> dom (vs_records two_forks)" "2 \<in> set (vs_open_forks two_forks)"
    "vs_records two_forks 2 = Some (open_file 2 1)" "fi_dirty (open_file 2 1) \<noteq> 0"
    "sole_fork (vs_records two_forks) (vs_open_forks two_forks) (fi_forkid (open_file 2 1)) 2"
    by (auto simp: wf_forks_def two_forks_def open_file_def sole_fork_def)
  from failed_flush_stays_dirty [OF this, of "(file_server 4)\<lparr>op_flushfork := \<lambda>fork wait f. (-5014, f)\<rparr>" "\<lambda>_. True"]
  show ?thesis by auto
qed

end
