(* ===== verification/Lowlevel.thy ===== *)
theory Lowlevel
  imports Forks
begin

text \<open>
  The operations on forks and directories, \<open>lib/lowlevel.c\<close>: byte-range locks, opening, reading and writing a
  quantum per request, listing a directory a page per request, and the attributes of a path.  Each command is an
  operation of the record \<open>afp_ops\<close>; \<^term>\<open>None\<close> is an access to a record that is not in memory, or a listing
  that does not end.
\<close>

unbundle bit_operations_syntax

abbreviation (input) kFPDenyConflict :: int where "kFPDenyConflict \<equiv> -5006"
abbreviation (input) kFPDiskFull :: int where "kFPDiskFull \<equiv> -5008"
abbreviation (input) kFPFileBusy :: int where "kFPFileBusy \<equiv> -5010"
abbreviation (input) kFPLockErr :: int where "kFPLockErr \<equiv> -5013"
abbreviation (input) kFPNoMoreLocks :: int where "kFPNoMoreLocks \<equiv> -5015"
abbreviation (input) kFPObjectExists :: int where "kFPObjectExists \<equiv> -5017"
abbreviation (input) kFPObjectTypeErr :: int where "kFPObjectTypeErr \<equiv> -5025"
abbreviation (input) kFPTooManyFilesOpen :: int where "kFPTooManyFilesOpen \<equiv> -5026"
abbreviation (input) kFPObjectLocked :: int where "kFPObjectLocked \<equiv> -5032"
abbreviation (input) AFP_MAX_AFP2_FILESIZE :: nat where "AFP_MAX_AFP2_FILESIZE \<equiv> 2147483647"

abbreviation (input) EPERM :: int where "EPERM \<equiv> 1"

section \<open>Lengths and locks\<close>

definition fork_length_bit :: "file_volume \<Rightarrow> bool \<Rightarrow> nat" where
  "fork_length_bit v resource =
     (if av_number v < 30 then (if resource then kFPRsrcForkLenBit else kFPDataForkLenBit)
      else if resource then kFPExtRsrcForkLenBit else kFPExtDataForkLenBit)"

definition range_lock :: "file_volume \<Rightarrow> 'w afp_ops \<Rightarrow> nat \<Rightarrow> nat \<Rightarrow> nat \<Rightarrow> nat \<Rightarrow> 'w \<Rightarrow> int \<times> 'w" where
  "range_lock v ops flag forkid offset n w =
     (if av_number v < 30 then op_byterangelock ops flag forkid (u32 offset) (u32 n) w
      else op_byterangelockext ops flag forkid offset n w)"

definition ll_handle_unlocking :: "file_volume \<Rightarrow> 'w afp_ops \<Rightarrow> nat \<Rightarrow> nat \<Rightarrow> nat \<Rightarrow> 'w \<Rightarrow> int \<times> 'w" where
  "ll_handle_unlocking v ops forkid offset sizetorequest w =
     (if has_bit (vol_extra_flags (fv_volume v)) VOLUME_EXTRA_FLAGS_NO_LOCKING then (0, w)
      else case range_lock v ops 1 forkid offset sizetorequest w of (rc, w') \<Rightarrow> (if rc = kFPNoErr then 0 else -1, w'))"

fun lock_tries :: "nat \<Rightarrow> file_volume \<Rightarrow> 'w afp_ops \<Rightarrow> nat \<Rightarrow> nat \<Rightarrow> nat \<Rightarrow> 'w \<Rightarrow> int \<times> 'w" where
  "lock_tries 0 v ops forkid offset n w = (0, w)"
| "lock_tries (Suc k) v ops forkid offset n w =
     (case range_lock v ops 0 forkid offset n w of
        (rc, w') \<Rightarrow>
          if rc = kFPNoErr then (0, w')
          else if rc = kFPNoMoreLocks \<or> rc = kFPLockErr then lock_tries k v ops forkid offset n (op_sleep ops w')
          else (-1, w'))"

definition ll_handle_locking :: "file_volume \<Rightarrow> 'w afp_ops \<Rightarrow> nat \<Rightarrow> nat \<Rightarrow> nat \<Rightarrow> 'w \<Rightarrow> int \<times> 'w" where
  "ll_handle_locking v ops forkid offset sizetorequest w =
     (if has_bit (vol_extra_flags (fv_volume v)) VOLUME_EXTRA_FLAGS_NO_LOCKING then (0, w)
      else lock_tries 10 v ops forkid offset sizetorequest w)"

section \<open>Creating, truncating and opening\<close>

definition ll_setfork_size :: "file_volume \<Rightarrow> 'w afp_ops \<Rightarrow> nat \<Rightarrow> bool \<Rightarrow> nat \<Rightarrow> 'w \<Rightarrow> int \<times> 'w" where
  "ll_setfork_size v ops forkid resource sz w =
     (if av_number v < 30 \<and> sz > AFP_MAX_AFP2_FILESIZE then (EFBIG, w)
      else case op_setforkparms ops forkid (fork_length_bit v resource) sz w of
        (ret, w') \<Rightarrow>
          (if ret = kFPNoErr then 0 else if ret = kFPAccessDenied then EACCES else if ret = kFPVolLocked then EROFS
           else if ret = kFPLockErr then EBUSY else if ret = kFPDiskFull then ENOSPC else EIO, w'))"

definition ll_createfile :: "'w afp_ops \<Rightarrow> nat \<Rightarrow> bytes \<Rightarrow> 'w \<Rightarrow> int \<times> 'w" where
  "ll_createfile ops did basename w =
     (case op_createfile ops 0 did basename w of
        (rc, w') \<Rightarrow>
          (if rc = kFPObjectExists \<or> rc = kFPObjectTypeErr then - EEXIST
           else if rc = kFPDiskFull then - ENOSPC
           else if rc = kFPFileBusy then - EBUSY
           else - ll_answer_errno rc, w'))"

definition ll_openfork_errno :: "int \<Rightarrow> int" where
  "ll_openfork_errno rc =
     (if rc = kFPNoErr then 0
      else if rc = kFPAccessDenied \<or> rc = kFPLockErr then EACCES
      else if rc = kFPObjectNotFound then ENOENT
      else if rc = kFPObjectLocked then EPERM
      else if rc = kFPVolLocked then EROFS
      else if rc = kFPObjectTypeErr then EISDIR
      else if rc = kFPTooManyFilesOpen then EMFILE
      else if rc = kFPDenyConflict then EBUSY
      else if rc = ETIMEDOUT then ETIMEDOUT
      else EIO)"

text \<open>The flags of \<open>open(2)\<close> the code reads: the access mode of its low two bits, and these.\<close>

record open_flags =
  of_access :: nat
  of_creat :: bool
  of_excl :: bool
  of_trunc :: bool
  of_append :: bool
  of_sync :: bool

abbreviation (input) O_RDONLY :: nat where "O_RDONLY \<equiv> 0"
abbreviation (input) O_WRONLY :: nat where "O_WRONLY \<equiv> 1"
abbreviation (input) O_RDWR :: nat where "O_RDWR \<equiv> 2"

definition open_aflags :: "open_flags \<Rightarrow> nat" where
  "open_aflags flags =
     (if of_access flags = O_RDONLY then 1 else if of_access flags = O_WRONLY then 3
      else if of_access flags = O_RDWR then 3 else 0)"

text \<open>The error exit: the file this open made is removed.\<close>

definition open_error :: "'w afp_ops \<Rightarrow> nat \<Rightarrow> bool \<Rightarrow> int \<Rightarrow> 'w vol_state \<Rightarrow> (int \<times> 'w vol_state) option" where
  "open_error ops fp created ret s =
     (if created then
        (case vs_records s fp of
           None \<Rightarrow> None
         | Some f \<Rightarrow> (case op_delete ops (fi_did f) (fi_basename f) (vs_world s) of (_, w) \<Rightarrow> Some (- ret, s\<lparr>vs_world := w\<rparr>)))
      else Some (- ret, s))"

text \<open>The steps of \<open>ll_open\<close>: AFP 2's query, the open of the fork, and the truncation of a file found.\<close>

definition open_query :: "file_volume \<Rightarrow> 'w afp_ops \<Rightarrow> afp_file_info \<Rightarrow> 'w \<Rightarrow> int \<times> afp_file_info \<times> 'w" where
  "open_query v ops f w =
     (if av_number v < 30 then
        (case op_getfiledirparms ops (fi_did f) (kFPNodeIDBit OR fork_length_bit v (fi_resource f \<noteq> 0)) 0 (fi_basename f) w of
           (rc, entry, w') \<Rightarrow>
             let ret = (if ll_answer_errno rc = 0 \<and> de_isdir entry \<noteq> 0 then EISDIR else ll_answer_errno rc) in
             if ret \<noteq> 0 then (ret, f, w')
             else (0, f\<lparr>fi_size := (if fi_resource f \<noteq> 0 then de_resourcesize entry else de_size entry), fi_cnid := de_cnid entry\<rparr>, w'))
      else (0, f, w))"

definition open_truncate ::
  "file_volume \<Rightarrow> 'w afp_ops \<Rightarrow> open_flags \<Rightarrow> nat \<Rightarrow> bool \<Rightarrow> 'w vol_state \<Rightarrow> (int \<times> 'w vol_state) option" where
  "open_truncate v ops flags fp created s =
     (if of_trunc flags \<and> \<not> created then
        (case vs_records s fp of
           None \<Rightarrow> None
         | Some f \<Rightarrow>
             (case ll_setfork_size v ops (fi_forkid f) (fi_resource f \<noteq> 0) 0 (vs_world s) of
                (ret, w) \<Rightarrow>
                  if ret \<noteq> 0 then
                    (case op_closefork ops (fi_forkid f) w of
                       (_, w') \<Rightarrow> open_error ops fp created ret (remove_opened_fork fp (s\<lparr>vs_world := w'\<rparr>)))
                  else Some (0, set_record fp (f\<lparr>fi_size := 0, fi_dirty := 1\<rparr>) (s\<lparr>vs_world := w\<rparr>))))
      else Some (0, s))"

definition open_fork ::
  "file_volume \<Rightarrow> 'w afp_ops \<Rightarrow> open_flags \<Rightarrow> nat \<Rightarrow> bool \<Rightarrow> 'w vol_state \<Rightarrow> (int \<times> 'w vol_state) option" where
  "open_fork v ops flags fp created s =
     (case vs_records s fp of
        None \<Rightarrow> None
      | Some f0 \<Rightarrow>
          (case open_query v ops f0 (vs_world s) of
             (ret, f1, w1) \<Rightarrow>
               if ret \<noteq> 0 then open_error ops fp created ret (s\<lparr>vs_world := w1\<rparr>)
               else
                 let aflags = open_aflags flags;
                     f2 = f1\<lparr>fi_sync := (if of_sync flags then 1 else 0), fi_writable := (if has_bit aflags 2 then 1 else 0), fi_dirty := 0\<rparr>;
                     bitmap = (if fi_resource f2 = 0 \<and> server_reports_fork_length (fv_server v)
                               then kFPExtDataForkLenBit OR (if server_copies_files (fv_server v) then kFPNodeIDBit else 0) else 0)
                 in case op_openfork ops (if fi_resource f2 \<noteq> 0 then 1 else 0) (fi_did f2) aflags bitmap (fi_basename f2) f2 w1 of
                      (dsi_ret, f3, w2) \<Rightarrow>
                        let s2 = set_record fp f3 (s\<lparr>vs_world := w2\<rparr>);
                            s3 = (if dsi_ret = kFPNoErr then add_opened_fork fp s2 else s2);
                            ret = ll_openfork_errno dsi_ret;
                            created' = (created \<and> ret \<noteq> ETIMEDOUT)
                        in if ret \<noteq> 0 then open_error ops fp created' ret s3
                           else open_truncate v ops flags fp created' s3))"

definition ll_open :: "file_volume \<Rightarrow> 'w afp_ops \<Rightarrow> open_flags \<Rightarrow> nat \<Rightarrow> 'w vol_state \<Rightarrow> (int \<times> 'w vol_state) option" where
  "ll_open v ops flags fp s =
     (case vs_records s fp of
        None \<Rightarrow> None
      | Some f \<Rightarrow>
          if has_bit (open_aflags flags) 2 \<and> volume_is_readonly v then open_error ops fp False EROFS s
          else if of_creat flags then
            (case ll_createfile ops (fi_did f) (fi_basename f) (vs_world s) of
               (rc, w) \<Rightarrow>
                 let s1 = s\<lparr>vs_world := w\<rparr> in
                 if rc = 0 then open_fork v ops flags fp True s1
                 else if rc \<noteq> - EEXIST \<or> of_excl flags then open_error ops fp False (- rc) s1
                 else open_fork v ops flags fp False s1)
          else open_fork v ops flags fp False s)"

section \<open>Reading\<close>

definition afp2_fork_reaches :: "file_volume \<Rightarrow> 'w afp_ops \<Rightarrow> afp_file_info \<Rightarrow> nat \<Rightarrow> 'w \<Rightarrow> int \<times> 'w" where
  "afp2_fork_reaches v ops f offset w =
     (if fi_size f \<le> offset \<and> fi_size f < UINT32_MAX then
        (case op_getfiledirparms ops (fi_did f) (fork_length_bit v (fi_resource f \<noteq> 0)) 0 (fi_basename f) w of
           (ret, entry, w') \<Rightarrow>
             if ret \<noteq> kFPNoErr then (- ll_answer_errno ret, w')
             else let len = (if fi_resource f \<noteq> 0 then de_resourcesize entry else de_size entry) in
               (if len > offset \<or> len \<ge> UINT32_MAX then 1 else 0, w'))
      else (if fi_size f > offset \<or> fi_size f \<ge> UINT32_MAX then 1 else 0, w))"

text \<open>The transfer loop with the bytes read so far: an error, the bytes, whether the end was reached.\<close>

function fork_read_loop ::
  "file_volume \<Rightarrow> 'w afp_ops \<Rightarrow> nat \<Rightarrow> nat \<Rightarrow> nat \<Rightarrow> bytes \<Rightarrow> 'w \<Rightarrow> int \<times> bytes \<times> bool \<times> 'w" where
  "fork_read_loop v ops forkid offset sz acc w =
     (if length acc \<ge> sz then (0, acc, False, w)
      else
        let chunksize = min (fv_quantum v) (sz - length acc); read_offset = u64 (offset + length acc) in
        case (if av_number v < 30 then op_read ops forkid (u32 read_offset) (u32 chunksize) w
              else op_readext ops forkid read_offset chunksize w) of
          (rc, bs, w') \<Rightarrow>
            if rc = kFPAccessDenied then (EACCES, acc @ bs, False, w')
            else if rc = kFPLockErr then (EBUSY, acc @ bs, False, w')
            else if rc = kFPEOFErr then (0, acc @ bs, True, w')
            else if rc \<noteq> kFPNoErr then (EIO, acc @ bs, False, w')
            else if bs = [] then (0, acc, False, w')
            else fork_read_loop v ops forkid offset sz (acc @ bs) w')"
  by pat_completeness auto
termination
  by (relation "measure (\<lambda>(_, _, _, _, sz, acc, _). sz - length acc)") (auto intro!: diff_less_mono2)

declare fork_read_loop.simps [simp del]

text \<open>The return value, \<open>*eof\<close> and the bytes put into the caller's buffer.\<close>

record ll_read_result =
  rr_ret :: int
  rr_eof :: bool
  rr_bytes :: bytes

definition ll_read ::
  "(nat \<Rightarrow> bool) \<Rightarrow> file_volume \<Rightarrow> 'w afp_ops \<Rightarrow> nat \<Rightarrow> int \<Rightarrow> nat option \<Rightarrow> 'w vol_state
     \<Rightarrow> (ll_read_result \<times> 'w vol_state) option" where
  "ll_read malloc_ok v ops size0 offset fp s =
     (let fail = (\<lambda>ret s. Some (\<lparr>rr_ret = ret, rr_eof = False, rr_bytes = []\<rparr>, s)) in
      case fp of
        None \<Rightarrow> fail (- EBADF) s
      | Some p \<Rightarrow>
          (case vs_records s p of
             None \<Rightarrow> None
           | Some f \<Rightarrow>
               if fi_forkid f = 0 then fail (- EIO) s
               else if size0 = 0 then fail 0 s
               else if offset < 0 then fail (- EINVAL) s
               else case (if server_is_apple (fv_server v) then flush_dirty_forks_for_file malloc_ok ops p s else Some s) of
                   None \<Rightarrow> None
                 | Some s1 \<Rightarrow>
                     let off = nat offset; size1 = min size0 (nat INT_MAX) in
                     if fv_quantum v = 0 then fail (- EIO) s1
                     else if av_number v < 30 \<and> off > AFP_MAX_AFP2_FILESIZE then
                       (case afp2_fork_reaches v ops f off (vs_world s1) of
                          (ret, w) \<Rightarrow>
                            if ret < 0 then fail ret (s1\<lparr>vs_world := w\<rparr>)
                            else Some (\<lparr>rr_ret = (if ret \<noteq> 0 then - EOVERFLOW else 0), rr_eof = (ret = 0), rr_bytes = []\<rparr>, s1\<lparr>vs_world := w\<rparr>))
                     else
                       let sz = (if av_number v < 30 then min size1 (AFP_MAX_AFP2_FILESIZE - off + 1) else size1) in
                       case ll_handle_locking v ops (fi_forkid f) off sz (vs_world s1) of
                         (rc, w1) \<Rightarrow>
                           if rc \<noteq> 0 then fail (- EBUSY) (s1\<lparr>vs_world := w1\<rparr>)
                           else case fork_read_loop v ops (fi_forkid f) off sz [] w1 of
                             (err, bs, eof, w2) \<Rightarrow>
                               (case ll_handle_unlocking v ops (fi_forkid f) off sz w2 of
                                  (u, w3) \<Rightarrow>
                                    if err \<noteq> 0 then Some (\<lparr>rr_ret = - err, rr_eof = eof, rr_bytes = bs\<rparr>, s1\<lparr>vs_world := w3\<rparr>)
                                    else if u \<noteq> 0 then
                                      (case ll_handle_unlocking v ops (fi_forkid f) off sz w3 of
                                         (_, w4) \<Rightarrow> Some (\<lparr>rr_ret = - EIO, rr_eof = eof, rr_bytes = bs\<rparr>, s1\<lparr>vs_world := w4\<rparr>))
                                    else Some (\<lparr>rr_ret = int (length bs), rr_eof = eof, rr_bytes = bs\<rparr>, s1\<lparr>vs_world := w3\<rparr>))))"

section \<open>Writing\<close>

text \<open>The transfer loop with the bytes written so far: an error, the bytes written, whether the fork became dirty.\<close>

function fork_write_loop ::
  "file_volume \<Rightarrow> 'w afp_ops \<Rightarrow> nat \<Rightarrow> bytes \<Rightarrow> int \<Rightarrow> nat \<Rightarrow> bool \<Rightarrow> 'w \<Rightarrow> int \<times> nat \<times> bool \<times> 'w" where
  "fork_write_loop v ops forkid data offset written dirty w =
     (if written \<ge> length data then (0, written, dirty, w)
      else
        let sizetowrite = min (fv_quantum v) (length data - written); write_offset = nat ((offset + int written) mod 2 ^ 64);
            chunk = take sizetowrite (drop written data) in
        if sizetowrite = 0 then (EIO, written, dirty, w)
        else case (if av_number v < 30 then op_write ops forkid (u32 write_offset) chunk w
                   else op_writeext ops forkid write_offset chunk w) of
          (ret, reply_offset, w') \<Rightarrow>
            if ret = kFPAccessDenied then (EACCES, written, dirty, w')
            else if ret = kFPDiskFull then (ENOSPC, written, dirty, w')
            else if ret = kFPLockErr then (EBUSY, written, dirty, w')
            else if ret \<noteq> kFPNoErr then (EIO, written, dirty, w')
            else if reply_offset < write_offset then (EIO, written, dirty, w')
            else let n = reply_offset - write_offset in
              if n = 0 \<or> n > sizetowrite then (EIO, written, dirty, w')
              else fork_write_loop v ops forkid data offset (written + n) True w')"
  by pat_completeness auto
termination
  by (relation "measure (\<lambda>(_, _, _, data, _, written, _, _). length data - written)") (auto, arith)

declare fork_write_loop.simps [simp del]

definition ll_write ::
  "file_volume \<Rightarrow> 'w afp_ops \<Rightarrow> bytes \<Rightarrow> int \<Rightarrow> nat option \<Rightarrow> 'w vol_state \<Rightarrow> (int \<times> nat \<times> 'w vol_state) option" where
  "ll_write v ops data offset fp s =
     (case fp of
        None \<Rightarrow> Some (- EBADF, 0, s)
      | Some p \<Rightarrow>
          (case vs_records s p of
             None \<Rightarrow> None
           | Some f \<Rightarrow>
               if fi_forkid f = 0 then Some (- EIO, 0, s)
               else if fv_quantum v = 0 then Some (- EIO, 0, s)
               else if av_number v < 30 \<and> (offset + int (length data)) mod 2 ^ 64 > int AFP_MAX_AFP2_FILESIZE then Some (- EFBIG, 0, s)
               else let off = nat (offset mod 2 ^ 64) in
                 case ll_handle_locking v ops (fi_forkid f) off (length data) (vs_world s) of
                   (rc, w1) \<Rightarrow>
                     if rc \<noteq> 0 then Some (- EBUSY, 0, s\<lparr>vs_world := w1\<rparr>)
                     else case fork_write_loop v ops (fi_forkid f) data offset 0 False w1 of
                       (err, written, dirty, w2) \<Rightarrow>
                         let s2 = (if dirty then set_record p (f\<lparr>fi_dirty := 1\<rparr>) s else s) in
                         (case ll_handle_unlocking v ops (fi_forkid f) off (length data) w2 of
                            (u, w3) \<Rightarrow>
                              if err \<noteq> 0 then Some (- err, written, s2\<lparr>vs_world := w3\<rparr>)
                              else if u \<noteq> 0 then
                                (case ll_handle_unlocking v ops (fi_forkid f) off (length data) w3 of
                                   (_, w4) \<Rightarrow> Some (- EIO, written, s2\<lparr>vs_world := w4\<rparr>))
                              else Some (0, written, s2\<lparr>vs_world := w3\<rparr>))))"

section \<open>Listing a directory\<close>

text \<open>The walk of \<open>get_dirid\<close> asks for node IDs; during it this thread alone uses the cache.\<close>

definition parms_env :: "'w afp_ops \<Rightarrow> 'w did_env" where
  "parms_env ops = \<lparr>de_time = op_time ops, de_parms = \<lambda>w c did name.
     (case op_getfiledirparms ops did kFPNodeIDBit kFPNodeIDBit name w of (rc, fi, w') \<Rightarrow> (rc, fi, c, w'))\<rparr>"

definition volume_dirid ::
  "(nat \<Rightarrow> bool) \<Rightarrow> file_volume \<Rightarrow> 'w afp_ops \<Rightarrow> bytes \<Rightarrow> 'w vol_state \<Rightarrow> ((int \<times> nat option \<times> bytes option) \<times> 'w vol_state) option" where
  "volume_dirid malloc_ok v ops path s =
     map_option (\<lambda>(r, c, w). (r, s\<lparr>vs_cache := c, vs_world := w\<rparr>))
       (get_dirid malloc_ok (parms_env ops) (vol_path_encoding (fv_volume v)) (Some path) True (vs_cache s) (vs_world s))"

abbreviation (input) kSupportsUTF8Names :: nat where "kSupportsUTF8Names \<equiv> 0x40"

definition readdir_bitmaps :: "file_volume \<Rightarrow> bool \<Rightarrow> nat \<times> nat" where
  "readdir_bitmaps v resource =
     (let filebitmap = kFPAttributeBit OR kFPParentDirIDBit OR kFPCreateDateBit OR kFPModDateBit OR kFPNodeIDBit;
          dirbitmap = filebitmap OR kFPOffspringCountBit OR kFPOwnerIDBit OR kFPGroupIDBit;
          unix = (if has_bit (vol_extra_flags (fv_volume v)) VOLUME_EXTRA_FLAGS_VOL_SUPPORTS_UNIX then kFPUnixPrivsBit else 0);
          names = (if has_bit (vol_attributes (fv_volume v)) kSupportsUTF8Names then kFPUTF8NameBit else kFPLongNameBit OR kFPShortNameBit)
      in (filebitmap OR unix OR names OR fork_length_bit v resource, dirbitmap OR unix OR names))"

definition enumerate_page ::
  "file_volume \<Rightarrow> 'w afp_ops \<Rightarrow> nat \<times> nat \<Rightarrow> nat \<Rightarrow> nat \<Rightarrow> bytes \<Rightarrow> afp_listing \<Rightarrow> 'w \<Rightarrow> int \<times> afp_listing \<times> 'w" where
  "enumerate_page v ops bitmaps dirid startindex basename l w =
     (if av_number v < 30 then op_enumerate ops dirid (fst bitmaps) (snd bitmaps) 256 (u16 startindex) basename l w
      else if av_number v = 30 then op_enumerateext ops dirid (fst bitmaps) (snd bitmaps) 256 (u16 startindex) basename l w
      else op_enumerateext2 ops dirid (fst bitmaps) (snd bitmaps) 32767 startindex basename l w)"

text \<open>The loop over the pages: 0 or a positive errno, the listing, and the state.\<close>

partial_function (option) readdir_loop ::
  "(nat \<Rightarrow> bool) \<Rightarrow> file_volume \<Rightarrow> 'w afp_ops \<Rightarrow> bytes \<Rightarrow> nat \<times> nat \<Rightarrow> nat \<Rightarrow> bytes \<Rightarrow> bool \<Rightarrow> nat \<Rightarrow> afp_listing
     \<Rightarrow> 'w vol_state \<Rightarrow> (int \<times> afp_listing \<times> 'w vol_state) option" where
  "readdir_loop malloc_ok v ops path bitmaps dirid basename resolved startindex l s =
     (case enumerate_page v ops bitmaps dirid startindex basename l (vs_world s) of
        (rc, l1, w) \<Rightarrow>
          let s1 = s\<lparr>vs_world := w\<rparr>; next_index = startindex + u32 (ls_count l1 + (2 ^ 32 - ls_count l)) in
          if rc = 0 \<or> rc = kFPObjectNotFound then
            (if ls_count l1 = ls_count l \<or> rc = kFPObjectNotFound then Some (0, l1, s1)
             else if next_index > 65535 \<and> av_number v \<le> 30 then Some (EOVERFLOW, l1, s1)
             else readdir_loop malloc_ok v ops path bitmaps dirid basename resolved next_index l1 s1)
          else if rc = kFPAccessDenied then Some (EACCES, l1, s1)
          else if rc = kFPDirNotFound then
            (if resolved then Some (ENOENT, l1, s1)
             else case remove_did_lineage (op_time ops) path (vs_cache s1) (vs_world s1) of
               (c, w1) \<Rightarrow>
                 (case volume_dirid malloc_ok v ops path (s1\<lparr>vs_cache := c, vs_world := w1\<rparr>) of
                    None \<Rightarrow> None
                  | Some ((ret, newdid, base), s2) \<Rightarrow>
                      if ret = 0 \<and> newdid \<noteq> Some dirid
                      then readdir_loop malloc_ok v ops path bitmaps (the newdid) (the base) True 1
                             (l1\<lparr>ls_count := 0, ls_pool_used := 0\<rparr>) s2
                      else Some (ENOENT, l1, s2)))
          else Some (EIO, l1, s1))"

text \<open>What the cache learns of the entries.\<close>

definition readdir_learn ::
  "(nat \<Rightarrow> bool) \<Rightarrow> 'w afp_ops \<Rightarrow> bytes \<Rightarrow> afp_listing \<Rightarrow> 'w vol_state \<Rightarrow> 'w vol_state option" where
  "readdir_learn malloc_ok ops path l s =
     (if ls_count l = 0 then
        (case remove_did_subtree (op_time ops) path (vs_cache s) (vs_world s) of
           (c, w) \<Rightarrow> Some (s\<lparr>vs_cache := c, vs_world := w\<rparr>))
      else
        let e = ls_entries l ! 0 in
        map_option (\<lambda>(c, w). s\<lparr>vs_cache := c, vs_world := w\<rparr>)
          (check_did_entry malloc_ok (op_time ops) path
             (if has_bit (de_valid e) kFPParentDirIDBit then de_parent_did e else 0) (Some l) (vs_cache s) (vs_world s)))"

definition ll_readdir ::
  "(nat \<Rightarrow> bool) \<Rightarrow> file_volume \<Rightarrow> 'w afp_ops \<Rightarrow> bytes \<Rightarrow> afp_listing \<Rightarrow> bool \<Rightarrow> 'w vol_state
     \<Rightarrow> (int \<times> afp_listing \<times> 'w vol_state) option" where
  "ll_readdir malloc_ok v ops path l resource s =
     (if invalid_filename (vol_path_encoding (fv_volume v)) (Some (int (av_number v))) (Some path)
      then Some (- ENAMETOOLONG, empty_listing, s)
      else case volume_dirid malloc_ok v ops path s of
          None \<Rightarrow> None
        | Some ((ret, dirid, basename), s1) \<Rightarrow>
            if ret < 0 then Some (- ENOENT, empty_listing, s1)
            else case readdir_loop malloc_ok v ops path (readdir_bitmaps v resource) (the dirid) (the basename) False 1 l s1 of
                None \<Rightarrow> None
              | Some (err, l1, s2) \<Rightarrow>
                  if err \<noteq> 0 then Some (- err, empty_listing, s2)
                  else case listing_drop_unnamed l1 of
                      None \<Rightarrow> None
                    | Some l2 \<Rightarrow> map_option (\<lambda>s3. (0, l2, s3)) (readdir_learn malloc_ok ops path l2 s2))"

section \<open>Attributes\<close>

text \<open>The return value, with the \<open>stat\<close> buffer where it is filled.\<close>

definition getattr_query :: "file_volume \<Rightarrow> bytes \<Rightarrow> bool \<Rightarrow> nat \<Rightarrow> bytes \<Rightarrow> nat \<times> nat \<times> nat \<times> bytes" where
  "getattr_query v path resource dirid basename =
     (let dirbitmap = kFPAttributeBit OR kFPCreateDateBit OR kFPModDateBit OR kFPNodeIDBit OR kFPParentDirIDBit OR kFPOffspringCountBit;
          filebitmap = kFPAttributeBit OR kFPCreateDateBit OR kFPModDateBit OR kFPNodeIDBit OR kFPFinderInfoBit OR kFPParentDirIDBit
                       OR fork_length_bit v resource;
          unix = has_bit (vol_extra_flags (fv_volume v)) VOLUME_EXTRA_FLAGS_VOL_SUPPORTS_UNIX;
          root2 = (av_number v < 30 \<and> path = [slash])
      in (if root2 then 1 else dirid,
          if unix then filebitmap OR kFPUnixPrivsBit else filebitmap,
          if unix then dirbitmap OR kFPUnixPrivsBit else dirbitmap OR kFPOwnerIDBit OR kFPGroupIDBit,
          if root2 then take 1020 (vol_name (fv_volume v)) else basename))"

definition ll_getattr ::
  "(nat \<Rightarrow> bool) \<Rightarrow> file_volume \<Rightarrow> 'w afp_ops \<Rightarrow> bytes \<Rightarrow> bool \<Rightarrow> 'w vol_state \<Rightarrow> (int \<times> stat_buf option \<times> 'w vol_state) option" where
  "ll_getattr malloc_ok v ops path resource s =
     (if invalid_filename (vol_path_encoding (fv_volume v)) (Some (int (av_number v))) (Some path) then Some (- ENAMETOOLONG, None, s)
      else case volume_dirid malloc_ok v ops path s of
          None \<Rightarrow> None
        | Some ((ret, dirid, basename), s1) \<Rightarrow>
            if ret < 0 then Some (- ENOENT, None, s1)
            else case getattr_query v path resource (the dirid) (the basename) of
              (did, fb, db, name) \<Rightarrow>
                (case op_getfiledirparms ops did fb db name (vs_world s1) of
                   (rc, e, w) \<Rightarrow>
                     if rc = kFPAccessDenied then Some (- EACCES, None, s1\<lparr>vs_world := w\<rparr>)
                     else if rc = kFPObjectNotFound then Some (- ENOENT, None, s1\<lparr>vs_world := w\<rparr>)
                     else if rc \<noteq> kFPNoErr then Some (- EIO, None, s1\<lparr>vs_world := w\<rparr>)
                     else
                       let (c, w1) = (if de_isdir e \<noteq> 0 \<and> has_bit (de_valid e) kFPNodeIDBit
                                      then check_did_indexed (op_time ops) path (de_cnid e) None (vs_cache s1) w else (vs_cache s1, w));
                           s2 = s1\<lparr>vs_cache := c, vs_world := w1\<rparr>;
                           e1 = e\<lparr>de_kind := (if resource then AFP_META_RESOURCE else 0)\<rparr>;
                           e2 = (if path = [slash] \<and> de_isdir e \<noteq> 0
                                 then e1\<lparr>de_create_ns := afp_ns_from_sec (fv_mount_time v), de_mod_ns := afp_ns_from_sec (fv_mount_time v),
                                        de_valid := de_valid e1 OR kFPCreateDateBit OR kFPModDateBit\<rparr>
                                 else e1)
                       in Some (case dirent_to_stat (fv_ids v) e2 of None \<Rightarrow> (- EIO, None, s2) | Some st \<Rightarrow> (0, Some st, s2))))"

end
