(* ===== verification/Fork_Transfer.thy ===== *)
theory Fork_Transfer
  imports Lowlevel
begin

text \<open>
  What reads and writes of a fork do to its file.  A server keeps the bytes of the fork in its state; it may cap a
  reply, refuse a request, or grant a part of a write, and other requests leave the file alone.  The transfer loops
  of \<open>ll_read\<close> and \<open>ll_write\<close> are then a read and a write of the file.
\<close>

section \<open>Files\<close>

lemma file_put_Nil: "off \<le> length f \<Longrightarrow> file_put f off [] = f"
  by (simp add: file_put_def)

lemma length_file_put: "length (file_put f off bs) = max (length f) (off + length bs)"
  by (simp add: file_put_def)

lemma file_put_append: "file_put (file_put f off a) (off + length a) b = file_put f off (a @ b)"
proof -
  let ?g = "take off (f @ replicate (off - length f) 0)"
  have l: "length ?g = off" by simp
  have "take (off + length a) (file_put f off a @ replicate (off + length a - length (file_put f off a)) 0) = ?g @ a"
    unfolding file_put_def using l by simp
  moreover have "drop (off + length a + length b) (file_put f off a) = drop (off + length (a @ b)) f"
    unfolding file_put_def using l by (simp add: add.commute add.left_commute)
  ultimately show ?thesis unfolding file_put_def [of "file_put f off a"] by (simp add: file_put_def)
qed

section \<open>What a server promises\<close>

text \<open>Locks and flushes leave the file as it is.\<close>

definition leaves_file :: "('w \<Rightarrow> bytes) \<Rightarrow> 'w afp_ops \<Rightarrow> bool" where
  "leaves_file file ops \<longleftrightarrow>
     (\<forall>flag fork off n w. file (snd (op_byterangelock ops flag fork off n w)) = file w) \<and>
     (\<forall>flag fork off n w. file (snd (op_byterangelockext ops flag fork off n w)) = file w) \<and>
     (\<forall>fork wait w. file (snd (op_flushfork ops fork wait w)) = file w) \<and>
     (\<forall>w. file (op_sleep ops w) = file w)"

text \<open>A read of the bytes from an offset: some of those asked for, or the end of the file with what is there, or
  a refusal.\<close>

definition reads_file :: "('w \<Rightarrow> bytes) \<Rightarrow> (nat \<Rightarrow> nat \<Rightarrow> nat \<Rightarrow> 'w \<Rightarrow> int \<times> bytes \<times> 'w) \<Rightarrow> nat \<Rightarrow> bool" where
  "reads_file file get fork \<longleftrightarrow>
     (\<forall>off n w rc bs w'. 0 < n \<longrightarrow> get fork off n w = (rc, bs, w') \<longrightarrow> file w' = file w \<and>
        (rc = kFPNoErr \<longrightarrow> 0 < length bs \<and> length bs \<le> n \<and> off + length bs \<le> length (file w) \<and> bs = take (length bs) (drop off (file w))) \<and>
        (rc = kFPEOFErr \<longrightarrow> length (file w) < off + n \<and> bs = drop off (file w)))"

text \<open>A write puts some of the bytes at their offset and answers with the offset behind them, or refuses.\<close>

definition writes_file :: "('w \<Rightarrow> bytes) \<Rightarrow> (nat \<Rightarrow> nat \<Rightarrow> bytes \<Rightarrow> 'w \<Rightarrow> int \<times> nat \<times> 'w) \<Rightarrow> nat \<Rightarrow> bool" where
  "writes_file file put fork \<longleftrightarrow>
     (\<forall>off bs w rc reply w'. bs \<noteq> [] \<longrightarrow> put fork off bs w = (rc, reply, w') \<longrightarrow>
        (rc = kFPNoErr \<longrightarrow> (\<exists>k. 0 < k \<and> k \<le> length bs \<and> reply = off + k \<and> file w' = file_put (file w) off (take k bs))) \<and>
        (rc \<noteq> kFPNoErr \<longrightarrow> file w' = file w))"

section \<open>Locks\<close>

lemma lock_tries_keeps:
  assumes "\<And>w. P w \<Longrightarrow> P (snd (range_lock v ops 0 fork off n w))" "\<And>w. P w \<Longrightarrow> P (op_sleep ops w)"
  shows "P w \<Longrightarrow> P (snd (lock_tries k v ops fork off n w))"
proof (induction k arbitrary: w)
  case (Suc k)
  obtain rc w' where r: "range_lock v ops 0 fork off n w = (rc, w')" by fastforce
  then have "P w'" using assms(1) [OF Suc.prems] by simp
  then show ?case using Suc.IH assms(2) r by simp
qed simp

lemma locking_keeps:
  assumes "\<And>flag w. P w \<Longrightarrow> P (snd (range_lock v ops flag fork off n w))" "\<And>w. P w \<Longrightarrow> P (op_sleep ops w)" "P w"
  shows "P (snd (ll_handle_locking v ops fork off n w))" "P (snd (ll_handle_unlocking v ops fork off n w))"
  using lock_tries_keeps [of P v ops fork off n w 10] assms
  by (auto simp: ll_handle_locking_def ll_handle_unlocking_def case_prod_beta)

lemma locking_file:
  assumes "leaves_file file ops"
  shows "file (snd (ll_handle_locking v ops fork off n w)) = file w" "file (snd (ll_handle_unlocking v ops fork off n w)) = file w"
  using locking_keeps [of "\<lambda>w'. file w' = file w" v ops fork off n w] assms
  by (auto simp: leaves_file_def range_lock_def)

lemma flush_records_keep:
  assumes "\<And>fork wait w. P w \<Longrightarrow> P (snd (op_flushfork ops fork wait w))"
  shows "P (vs_world s) \<Longrightarrow> flush_records ops rs s = Some s' \<Longrightarrow> P (vs_world s')"
proof (induction rs arbitrary: s)
  case (Cons r rs)
  obtain rc w where w: "op_flushfork ops (dr_forkid r) DSI_DEFAULT_TIMEOUT (vs_world s) = (rc, w)" by fastforce
  then have "P w" using assms [OF Cons.prems(1), of "dr_forkid r" DSI_DEFAULT_TIMEOUT] by simp
  moreover obtain m where "flush_records ops rs (s\<lparr>vs_records := m, vs_world := w\<rparr>) = Some s'"
    using Cons.prems(2) w by (auto split: option.splits)
  ultimately show ?case using Cons.IH [of "s\<lparr>vs_records := m, vs_world := w\<rparr>"] by simp
qed simp

text \<open>What a read on an Apple server starts with.\<close>

lemma flush_apple:
  assumes "\<And>fork wait w. P w \<Longrightarrow> P (snd (op_flushfork ops fork wait w))" "P (vs_world s)" "wf_forks s" "vs_records s p = Some f"
  shows "\<exists>s1. (if b then flush_dirty_forks_for_file malloc_ok ops p s else Some s) = Some s1 \<and> wf_forks s1 \<and>
    vs_open_forks s1 = vs_open_forks s \<and> vs_cache s1 = vs_cache s \<and> P (vs_world s1)"
proof (cases b)
  case True
  have p: "p \<in> dom (vs_records s)" using assms(4) by auto
  have "P (vs_world s1)" if d: "flush_dirty_forks_for_file malloc_ok ops p s = Some s1" for s1
  proof -
    obtain rs s0 where "flush_records ops rs s0 = Some s1" "vs_world s0 = vs_world s"
      using d by (fastforce simp: flush_dirty_forks_for_file_def split: option.splits)
    then show ?thesis using flush_records_keep [where P = P and ops = ops, OF assms(1)] assms(2) by metis
  qed
  then show ?thesis
    using flush_others.returns [OF assms(3) p, of malloc_ok ops] flush_others.keeps_wf [OF assms(3) p, of malloc_ok ops] True by auto
qed (use assms in simp)

section \<open>The loops\<close>

lemma read_loop_reads:
  assumes "reads_file file (op_readext ops) fork" "0 < fv_quantum v" "av_number v \<ge> 30" "offset + sz < 2 ^ 64" "0 < sz"
    "fork_read_loop v ops fork offset sz acc w = (err, bs, eof, w')" "acc = take (length acc) (drop offset (file w))" "length acc \<le> sz"
  shows "file w' = file w \<and> (err = 0 \<longrightarrow> bs = take sz (drop offset (file w)) \<and> (eof \<longleftrightarrow> length (file w) < offset + sz))"
  using assms(6-8)
proof (induction "sz - length acc" arbitrary: acc w rule: less_induct)
  case less
  show ?case
  proof (cases "length acc = sz")
    case True
    then have "length (drop offset (file w)) \<ge> sz" using less.prems(2) by (metis length_take min.cobounded1)
    then show ?thesis using less.prems True assms(5) by (simp add: fork_read_loop.simps [of v ops fork offset sz acc])
  next
    case False
    then have lt: "length acc < sz" using less.prems(3) by simp
    let ?n = "min (fv_quantum v) (sz - length acc)"
    have n: "0 < ?n" "?n \<le> sz - length acc" using assms(2) lt by simp_all
    have off: "u64 (offset + length acc) = offset + length acc" using assms(4) lt by (simp add: u64_def)
    obtain rc b w1 where r: "op_readext ops fork (offset + length acc) ?n w = (rc, b, w1)" by (metis prod_cases3)
    note b = assms(1) [unfolded reads_file_def, rule_format, OF n(1) r]
    have acc: "length acc \<le> length (file w) - offset" using less.prems(2) by (metis length_drop length_take min.cobounded1)
    note step = fork_read_loop.simps [of v ops fork offset sz acc w, unfolded Let_def off r prod.case]
    show ?thesis
    proof (cases "rc = kFPNoErr")
      case True
      then have ok: "0 < length b" "length b \<le> ?n" "offset + length acc + length b \<le> length (file w)"
        "b = take (length b) (drop (offset + length acc) (file w))" using b by auto
      have run: "fork_read_loop v ops fork offset sz (acc @ b) w1 = (err, bs, eof, w')"
        using less.prems(1) step True ok(1) lt assms(3) r off by auto
      have "take (length (acc @ b)) (drop offset (file w)) = acc @ b"
        using less.prems(2) ok(4) by (metis add.commute drop_drop length_append take_add)
      then have acc': "acc @ b = take (length (acc @ b)) (drop offset (file w1))" using b by simp
      have "sz - length (acc @ b) < sz - length acc" "length (acc @ b) \<le> sz" using ok(1,2) lt by (auto intro: diff_less_mono2)
      from less.hyps [OF this(1) run acc' this(2)] show ?thesis using b by simp
    next
      case no: False
      show ?thesis
      proof (cases "rc = kFPEOFErr")
        case True
        then have e: "length (file w) < offset + length acc + ?n" "b = drop (offset + length acc) (file w)" using b by auto
        have "err = 0" "bs = acc @ b" "eof" "w' = w1" using less.prems(1) step True lt assms(3) r off by auto
        moreover have "acc @ b = take sz (drop offset (file w))"
        proof -
          have "drop offset (file w) = acc @ b" using less.prems(2) e(2) by (metis add.commute append_take_drop_id drop_drop)
          moreover have "length (drop offset (file w)) \<le> sz" using e(1) n(2) lt by simp
          ultimately show ?thesis by simp
        qed
        ultimately show ?thesis using b e(1) n(2) lt by auto
      next
        case False
        then have "err \<noteq> 0" "w' = w1" using less.prems(1) step no lt assms(3) r off by (auto split: if_splits)
        then show ?thesis using b by simp
      qed
    qed
  qed
qed

lemma write_loop_writes:
  assumes "writes_file file (op_writeext ops) fork" "0 < fv_quantum v" "av_number v \<ge> 30" "0 \<le> offset" "nat offset + length data < 2 ^ 64"
    "fork_write_loop v ops fork data offset k dirty w = (err, n, dirty', w')" "k \<le> length data"
  shows "k \<le> n \<and> n \<le> length data \<and> (err = 0 \<longrightarrow> n = length data) \<and> 0 \<le> err \<and> (dirty' \<longleftrightarrow> dirty \<or> k < n) \<and>
    file w' = (if k < n then file_put (file w) (nat offset + k) (take (n - k) (drop k data)) else file w)"
  using assms(6-7)
proof (induction "length data - k" arbitrary: k dirty w rule: less_induct)
  case less
  show ?case
  proof (cases "k = length data")
    case True
    then show ?thesis using less.prems by (simp add: fork_write_loop.simps [of v ops fork data offset "length data"])
  next
    case False
    then have lt: "k < length data" using less.prems(2) by simp
    let ?m = "min (fv_quantum v) (length data - k)"
    have m: "0 < ?m" "?m \<le> length data - k" using assms(2) lt by simp_all
    let ?c = "take ?m (drop k data)"
    have c: "?c \<noteq> []" "length ?c = ?m" using m by auto
    have off: "nat ((offset + int k) mod 2 ^ 64) = nat offset + k" using assms(4,5) lt by (simp add: nat_add_distrib)
    obtain rc reply w1 where r: "op_writeext ops fork (nat offset + k) ?c w = (rc, reply, w1)" by (metis prod_cases3)
    note b = assms(1) [unfolded writes_file_def, rule_format, OF c(1) r]
    note step = fork_write_loop.simps [of v ops fork data offset k dirty w, unfolded Let_def off r prod.case]
    show ?thesis
    proof (cases "rc = kFPNoErr")
      case True
      then obtain j where j: "0 < j" "j \<le> ?m" "reply = nat offset + k + j" "file w1 = file_put (file w) (nat offset + k) (take j ?c)"
        using b c by auto
      have run: "fork_write_loop v ops fork data offset (k + j) True w1 = (err, n, dirty', w')"
        using less.prems(1) step True j(1-3) lt assms(3) m r off by auto
      have tj: "take j ?c = take j (drop k data)" "length (take j (drop k data)) = j" using j(2) m by (simp_all add: min_def)
      have "length data - (k + j) < length data - k" "k + j \<le> length data" using j(1,2) m(2) lt by auto
      note ih = less.hyps [OF this(1) run this(2)]
      show ?thesis
      proof (cases "k + j < n")
        case True
        then have "take (n - k) (drop k data) = take j (drop k data) @ take (n - (k + j)) (drop (k + j) data)"
          using take_add [of j "n - (k + j)" "drop k data"] by (simp add: add.commute)
        then show ?thesis
          using ih True j file_put_append [of "file w" "nat offset + k" "take j (drop k data)" "take (n - (k + j)) (drop (k + j) data)"] tj
          by (simp add: add.assoc)
      next
        case False
        then have "n = k + j" using ih by simp
        then show ?thesis using ih j tj by simp
      qed
    next
      case no: False
      then have "err \<noteq> 0" "0 \<le> err" "n = k" "dirty' = dirty" "w' = w1"
        using less.prems(1) step no lt assms(3) m r off by (auto split: if_splits)
      then show ?thesis using b no lt by simp
    qed
  qed
qed

text \<open>A round of the read loop, with the request it sends.\<close>

definition asked :: "file_volume \<Rightarrow> 'w afp_ops \<Rightarrow> nat \<Rightarrow> nat \<Rightarrow> nat \<Rightarrow> nat \<Rightarrow> 'w \<Rightarrow> int \<times> bytes \<times> 'w" where
  "asked v ops fork offset sz got w =
     (if av_number v < 30 then op_read ops fork (u32 (u64 (offset + got))) (u32 (min (fv_quantum v) (sz - got))) w
      else op_readext ops fork (u64 (offset + got)) (min (fv_quantum v) (sz - got)) w)"

lemma read_loop_cases:
  assumes "fork_read_loop v ops fork offset sz acc w = (err, bs, eof, w')" "length acc < sz"
    "asked v ops fork offset sz (length acc) w = (rc, bs1, w1)"
  shows "(w' = w1 \<and> 0 \<le> err \<and> bs = acc @ bs1) \<or> bs1 \<noteq> [] \<and> fork_read_loop v ops fork offset sz (acc @ bs1) w1 = (err, bs, eof, w')"
  using assms(1,2) unfolding fork_read_loop.simps [of v ops fork offset sz acc w] Let_def assms(3) [unfolded asked_def]
  by (auto split: if_splits)

lemma read_loop_error: "fork_read_loop v ops fork offset sz acc w = (err, bs, eof, w') \<Longrightarrow> 0 \<le> err"
proof (induction "sz - length acc" arbitrary: acc w rule: less_induct)
  case less
  obtain rc bs1 w1 where g: "asked v ops fork offset sz (length acc) w = (rc, bs1, w1)" by (metis prod_cases3)
  have "bs1 \<noteq> [] \<Longrightarrow> length acc < sz \<Longrightarrow> sz - length (acc @ bs1) < sz - length acc" by (cases bs1) auto
  then show ?case
    using less.hyps [of "acc @ bs1" w1] read_loop_cases [OF less.prems _ g] less.prems
    by (cases "length acc < sz") (auto simp: fork_read_loop.simps [of v ops fork offset sz acc w])
qed

text \<open>A server that keeps a property of its state as long as no AFP 2 request reaches past the bound, and whose reply to
  a read is no longer than the request.\<close>

definition keeps_within_bound :: "('w \<Rightarrow> bool) \<Rightarrow> 'w afp_ops \<Rightarrow> bool" where
  "keeps_within_bound P ops \<longleftrightarrow>
     (\<forall>fork off n w. P w \<longrightarrow> off + n \<le> AFP_MAX_AFP2_FILESIZE + 1 \<longrightarrow>
        P (snd (snd (op_read ops fork off n w))) \<and> length (fst (snd (op_read ops fork off n w))) \<le> n) \<and>
     (\<forall>flag fork off n w. P w \<longrightarrow> off + n \<le> AFP_MAX_AFP2_FILESIZE + 1 \<longrightarrow> P (snd (op_byterangelock ops flag fork off n w))) \<and>
     (\<forall>did fb db name w. P w \<longrightarrow> P (snd (snd (op_getfiledirparms ops did fb db name w)))) \<and>
     (\<forall>fork wait w. P w \<longrightarrow> P (snd (op_flushfork ops fork wait w))) \<and> (\<forall>w. P w \<longrightarrow> P (op_sleep ops w))"

lemma read_loop_within:
  assumes "keeps_within_bound P ops" "av_number v < 30" "offset + sz \<le> AFP_MAX_AFP2_FILESIZE + 1"
  shows "fork_read_loop v ops fork offset sz acc w = (err, bs, eof, w') \<Longrightarrow> P w \<Longrightarrow> length acc \<le> sz \<Longrightarrow> P w' \<and> length bs \<le> sz"
proof (induction "sz - length acc" arbitrary: acc w rule: less_induct)
  case less
  show ?case
  proof (cases "length acc < sz")
    case True
    obtain rc bs1 w1 where g: "asked v ops fork offset sz (length acc) w = (rc, bs1, w1)" by (metis prod_cases3)
    let ?n = "min (fv_quantum v) (sz - length acc)"
    have "u32 (u64 (offset + length acc)) = offset + length acc" "u32 ?n = ?n"
      using assms(3) True by (auto simp: u32_def u64_def)
    then have "op_read ops fork (offset + length acc) ?n w = (rc, bs1, w1)" using g assms(2) by (simp add: asked_def)
    moreover have "offset + length acc + ?n \<le> AFP_MAX_AFP2_FILESIZE + 1" using assms(3) True by auto
    ultimately have k: "P w1" "length bs1 \<le> ?n"
      using assms(1) less.prems(2) unfolding keeps_within_bound_def by (metis fst_conv snd_conv)+
    have "bs1 \<noteq> [] \<Longrightarrow> sz - length (acc @ bs1) < sz - length acc" using True by (cases bs1) auto
    then show ?thesis
      using less.hyps [of "acc @ bs1" w1] read_loop_cases [OF less.prems(1) True g] k True by auto
  qed (use less.prems in \<open>auto simp: fork_read_loop.simps [of v ops fork offset sz acc w]\<close>)
qed

section \<open>Properties\<close>

text \<open>C4: A read is a read of the file. On an AFP 3 session, whatever the server caps its replies to and whichever
  requests it refuses, \<open>ll_read\<close> returns, leaves the file and the list of open forks as they are, and when it does not
  return an error it has put exactly the file's bytes of the range into the buffer, returned their number, and
  set the end-of-file flag just when the range reaches past the file's end.\<close>

theorem ll_read_reads:
  assumes "reads_file file (op_readext ops) (fi_forkid f)" "leaves_file file ops" "0 < fv_quantum v" "av_number v \<ge> 30"
    "wf_forks s" "vs_records s p = Some f" "fi_forkid f \<noteq> 0" "0 \<le> offset" "nat offset < 2 ^ 63" "0 < n" "n \<le> nat INT_MAX"
  shows "\<exists>r s'. ll_read malloc_ok v ops n offset (Some p) s = Some (r, s') \<and> file (vs_world s') = file (vs_world s) \<and>
    wf_forks s' \<and> vs_open_forks s' = vs_open_forks s \<and>
    (0 \<le> rr_ret r \<longrightarrow> rr_bytes r = take n (drop (nat offset) (file (vs_world s))) \<and> rr_ret r = int (length (rr_bytes r)) \<and>
      (rr_eof r \<longleftrightarrow> length (file (vs_world s)) < nat offset + n))"
proof -
  obtain s1 where s1: "(if server_is_apple (fv_server v) then flush_dirty_forks_for_file malloc_ok ops p s else Some s) = Some s1"
    and k1: "wf_forks s1" "vs_open_forks s1 = vs_open_forks s" "file (vs_world s1) = file (vs_world s)"
    using flush_apple [where P = "\<lambda>w. file w = file (vs_world s)", OF _ refl assms(5,6), of ops "server_is_apple (fv_server v)" malloc_ok]
      assms(2) by (auto simp: leaves_file_def)
  let ?k = "fi_forkid f" and ?o = "nat offset"
  obtain rc w1 where l: "ll_handle_locking v ops ?k ?o n (vs_world s1) = (rc, w1)" by fastforce
  obtain err bs eof w2 where r: "fork_read_loop v ops ?k ?o n [] w1 = (err, bs, eof, w2)" by (metis prod_cases4)
  obtain u w3 where u: "ll_handle_unlocking v ops ?k ?o n w2 = (u, w3)" by fastforce
  obtain u4 w4 where u4: "ll_handle_unlocking v ops ?k ?o n w3 = (u4, w4)" by fastforce
  have w1: "file w1 = file (vs_world s)" using locking_file(1) [OF assms(2), of v ?k ?o n "vs_world s1"] l k1(3) by simp
  have "?o + n < 2 ^ 64" using assms(9,11) by simp
  note rd = read_loop_reads [OF assms(1,3,4) this assms(10) r]
  have w34: "file w3 = file w2" "file w4 = file w3"
    using locking_file(2) [OF assms(2), of v ?k ?o n w2] locking_file(2) [OF assms(2), of v ?k ?o n w3] u u4 by simp_all
  have sz: "min n (nat INT_MAX) = n" using assms(11) by simp
  note run = ll_read_def [of malloc_ok v ops n offset "Some p" s, unfolded option.case assms(6) s1 Let_def sz]
  have wf: "wf_forks (s1\<lparr>vs_world := w\<rparr>)" for w using k1(1) by (simp add: wf_forks_def)
  have "0 \<le> err" using read_loop_error [OF r] .
  then show ?thesis
    unfolding run using assms(3,4,7,8,10) w1 k1 w34 rd wf by (auto simp: l r u u4)
qed

text \<open>C16: No AFP 2 read passes the bound. On an AFP 2 session, whose requests carry 32-bit offsets, \<open>ll_read\<close> sends
  no read and no lock that reaches past byte \<open>2 ^ 31\<close>, however large the offset and the count it is called with: any
  property of the server that requests within the bound keep is kept. It returns, and it puts no more bytes into
  the buffer than the buffer holds.\<close>

theorem afp2_read_within_bound:
  assumes "keeps_within_bound P ops" "av_number v < 30" "wf_forks s" "vs_records s p = Some f" "P (vs_world s)"
  shows "\<exists>r s'. ll_read malloc_ok v ops n offset (Some p) s = Some (r, s') \<and> P (vs_world s') \<and> length (rr_bytes r) \<le> n"
proof -
  note kb = assms(1) [unfolded keeps_within_bound_def]
  obtain s1 where s1: "(if server_is_apple (fv_server v) then flush_dirty_forks_for_file malloc_ok ops p s else Some s) = Some s1"
    and k1: "P (vs_world s1)"
    using flush_apple [where P = P, OF _ assms(5,3,4), of ops "server_is_apple (fv_server v)" malloc_ok] kb by auto
  let ?k = "fi_forkid f" and ?o = "nat offset" and ?sz = "min (min n 2147483647) (Suc (2147483647 - nat offset))"
  obtain rc w1 where l: "ll_handle_locking v ops ?k ?o ?sz (vs_world s1) = (rc, w1)" by fastforce
  obtain err bs eof w2 where r: "fork_read_loop v ops ?k ?o ?sz [] w1 = (err, bs, eof, w2)" by (metis prod_cases4)
  obtain u w3 where u: "ll_handle_unlocking v ops ?k ?o ?sz w2 = (u, w3)" by fastforce
  obtain u4 w4 where u4: "ll_handle_unlocking v ops ?k ?o ?sz w3 = (u4, w4)" by fastforce
  obtain ret w5 where q: "afp2_fork_reaches v ops f ?o (vs_world s1) = (ret, w5)" by fastforce
  have q5: "P w5"
    using q kb k1 by (auto simp: afp2_fork_reaches_def Let_def split: if_splits prod.splits) (metis snd_conv)+
  have far: "?thesis" if "AFP_MAX_AFP2_FILESIZE < ?o"
    using that assms(2,4,5) k1 q5 by (auto simp: ll_read_def s1 q Let_def)
  have near: "?thesis" if o: "?o \<le> AFP_MAX_AFP2_FILESIZE"
  proof -
    have sz: "?o + ?sz \<le> AFP_MAX_AFP2_FILESIZE + 1" using o by simp
    have lk: "P (snd (range_lock v ops flag ?k ?o ?sz w))" if "P w" for flag w
    proof -
      have "u32 ?o = ?o" "u32 ?sz = ?sz" using o by (auto simp: u32_def)
      then show ?thesis using kb that sz assms(2) by (simp add: range_lock_def)
    qed
    note keeps = locking_keeps [where P = P and v = v and ops = ops and fork = ?k and off = ?o and n = ?sz, OF lk]
    have w1: "P w1" using keeps(1) [of "vs_world s1"] kb k1 l by simp
    have w2: "P w2" "length bs \<le> n" using read_loop_within [OF assms(1,2) sz r w1] by auto
    have w3: "P w3" using keeps(2) [of w2] kb w2 u by simp
    have w4: "P w4" using keeps(2) [of w3] kb w3 u4 by simp
    show ?thesis using o assms(2,4,5) k1 w1 w2 w3 w4 by (auto simp: ll_read_def s1 l r u u4 Let_def)
  qed
  show ?thesis using far near by (cases "?o \<le> AFP_MAX_AFP2_FILESIZE") auto
qed

text \<open>C5: A write is a write to the file. On an AFP 3 session, however the server splits the writes it accepts and
  whichever it refuses, \<open>ll_write\<close> returns; the count it reports is the number of the caller's bytes that are now in the
  file at the offset, in order and with the rest of the file untouched, the count is all of them when it returns
  success, the fork is marked dirty when anything was written, and an AFP reply can never count a byte that
  was not sent.\<close>

theorem ll_write_writes:
  assumes "writes_file file (op_writeext ops) (fi_forkid f)" "leaves_file file ops" "0 < fv_quantum v" "av_number v \<ge> 30"
    "vs_records s p = Some f" "fi_forkid f \<noteq> 0" "0 \<le> offset" "nat offset + length data < 2 ^ 64"
  shows "\<exists>ret n s'. ll_write v ops data offset (Some p) s = Some (ret, n, s') \<and> n \<le> length data \<and> ret \<le> 0 \<and>
    (ret = 0 \<longrightarrow> n = length data) \<and> vs_open_forks s' = vs_open_forks s \<and>
    file (vs_world s') = (if n = 0 then file (vs_world s) else file_put (file (vs_world s)) (nat offset) (take n data)) \<and>
    vs_records s' = (vs_records s)(p \<mapsto> (if n = 0 then f else f\<lparr>fi_dirty := 1\<rparr>))"
proof -
  let ?k = "fi_forkid f" and ?o = "nat offset" and ?n = "length data"
  have o: "nat (offset mod 2 ^ 64) = ?o" using assms(7,8) by (simp add: mod_pos_pos_trivial nat_less_iff)
  obtain rc w1 where l: "ll_handle_locking v ops ?k ?o ?n (vs_world s) = (rc, w1)" by fastforce
  obtain err n dirty w2 where r: "fork_write_loop v ops ?k data offset 0 False w1 = (err, n, dirty, w2)" by (metis prod_cases4)
  obtain u w3 where u: "ll_handle_unlocking v ops ?k ?o ?n w2 = (u, w3)" by fastforce
  obtain u4 w4 where u4: "ll_handle_unlocking v ops ?k ?o ?n w3 = (u4, w4)" by fastforce
  have w1: "file w1 = file (vs_world s)" using locking_file(1) [OF assms(2), of v ?k ?o ?n "vs_world s"] l by simp
  have w34: "file w3 = file w2" "file w4 = file w3"
    using locking_file(2) [OF assms(2), of v ?k ?o ?n w2] locking_file(2) [OF assms(2), of v ?k ?o ?n w3] u u4 by simp_all
  note wr = write_loop_writes [OF assms(1,3,4,7,8) r le0]
  have keep: "vs_records s = (vs_records s)(p \<mapsto> f)" using assms(5) by (simp add: map_upd_triv)
  note run = ll_write_def [of v ops data offset "Some p" s, unfolded option.case assms(5) Let_def o]
  show ?thesis
    unfolding run using assms(3,4,6) w1 w34 wr keep by (auto simp: l r u u4 set_record_def)
qed

section \<open>Witnesses\<close>

definition session_volume :: "nat \<Rightarrow> nat \<Rightarrow> file_volume" where
  "session_volume version quantum = \<lparr>fv_volume = sample_volume,
     fv_server = \<lparr>id_type = Type_unknown, id_version = \<lparr>sv_major = 0, sv_minor = 0, sv_patch = 0\<rparr>, id_timeout = 0, id_using = version\<rparr>,
     fv_quantum = quantum, fv_ids = \<lparr>vi_mapping = 0, vi_pw_uid = 0, vi_pw_gid = 0, vi_server_uid = 0, vi_server_gid = None,
       vi_connect_time = 0\<rparr>, fv_mount_time = 0, fv_icon = replicate 256 0\<rparr>"

lemma file_server_run:
  "op_readext (file_server c) = serve_read c" "op_writeext (file_server c) = serve_write c"
  "ll_handle_locking v (file_server c) fork off n w = (0, w)" "ll_handle_unlocking v (file_server c) fork off n w = (0, w)"
  using lock_tries.simps(2) [of 9 v "file_server c" fork off n w]
  by (simp_all add: file_server_def ll_handle_locking_def ll_handle_unlocking_def range_lock_def)



lemma write_loop_run: "fork_write_loop (session_volume 34 3) (file_server 2) 1 [9, 8, 7, 6] 2 0 False [1, 2, 3] = (0, 4, True, [1, 2, 9, 8, 7, 6])"
  by (simp add: session_volume_def file_server_run serve_write_def file_put_def
    fork_write_loop.simps [of _ _ _ _ _ 0] fork_write_loop.simps [of _ _ _ _ _ "Suc (Suc 0)"]
    fork_write_loop.simps [of _ _ _ _ _ "Suc (Suc (Suc (Suc 0)))"] fork_write_loop.simps [of _ _ _ _ _ 4])

lemma read_loop_run: "fork_read_loop (session_volume 34 3) (file_server 2) 1 1 5 [] [1, 2, 3] = (0, [2, 3], True, [1, 2, 3])"
  by (simp add: session_volume_def file_server_run serve_read_def
      fork_read_loop.simps [of _ _ _ _ _ "[]"] fork_read_loop.simps [of _ _ _ _ _ "[2, 3]"])

lemma take_min_length: "take (min (length bs) cap) bs = take cap bs"
  by (metis take_all_iff min_def nle_le)

lemma file_server_file:
  "leaves_file id (file_server cap)" "0 < cap \<Longrightarrow> reads_file id (op_readext (file_server cap)) fork"
  "0 < cap \<Longrightarrow> writes_file id (op_writeext (file_server cap)) fork"
  by (auto simp: leaves_file_def reads_file_def writes_file_def file_server_def serve_read_def serve_write_def
      take_min_length split: if_splits)

text \<open>A server that answers every AFP 2 read with one byte and keeps the ranges it was asked for.\<close>

definition range_server :: "(nat \<times> nat) list afp_ops" where
  "range_server = \<lparr>
     op_byterangelock = \<lambda>flag fork off n l. (kFPNoErr, (off, n) # l), op_byterangelockext = \<lambda>flag fork off n l. (kFPNoErr, (off, n) # l),
     op_read = \<lambda>fork off n l. (kFPNoErr, take n [7], (off, n) # l), op_readext = \<lambda>fork off n l. (kFPNoErr, [], (off, n) # l),
     op_write = \<lambda>fork off bs l. (kFPNoErr, off + length bs, (off, length bs) # l),
     op_writeext = \<lambda>fork off bs l. (kFPNoErr, off + length bs, (off, length bs) # l),
     op_setforkparms = \<lambda>fork bitmap n l. (kFPNoErr, l),
     op_createfile = \<lambda>flag did name l. (-5017, l), op_delete = \<lambda>did name l. (kFPNoErr, l),
     op_openfork = \<lambda>fork did aflags bitmap name fp l. (kFPNoErr, fp\<lparr>fi_forkid := 1\<rparr>, l),
     op_closefork = \<lambda>fork l. (kFPNoErr, l), op_flushfork = \<lambda>fork wait l. (kFPNoErr, l),
     op_syncfork = \<lambda>fork wait l. (kFPNoErr, l),
     op_getfiledirparms = \<lambda>did fb db name l. (kFPNoErr, no_entry\<lparr>de_size := 5000000000\<rparr>, l),
     op_enumerate = \<lambda>did fb db n start name ds l. (kFPObjectNotFound, ds, l),
     op_enumerateext = \<lambda>did fb db n start name ds l. (kFPObjectNotFound, ds, l),
     op_enumerateext2 = \<lambda>did fb db n start name ds l. (kFPObjectNotFound, ds, l),
     op_setfiledirparms = \<lambda>did name bitmap e l. (kFPNoErr, l), op_setdirparms = \<lambda>did name bitmap e l. (kFPNoErr, l),
     op_createdir = \<lambda>did name l. (-5017, l), op_copyfile = \<lambda>did name did' name' wait l. (kFPNoErr, l),
     op_moveandrename = \<lambda>did did' name path name' l. (kFPNoErr, l),
     op_exchangefiles = \<lambda>did did' name name' l. (kFPNoErr, l),
     op_opendt = \<lambda>ref l. (-5024, ref, l), op_getcomment = \<lambda>did name l. (-5012, [], l),
     op_addcomment = \<lambda>did name c l. (-5024, l), op_getextattr = \<lambda>did max name attr l. (-5012, (0, []), l),
     op_setextattr = \<lambda>did bitmap name attr c l. (-5024, l), op_listextattr = \<lambda>did max name l. (kFPNoErr, (0, []), l),
     op_removeextattr = \<lambda>did name attr l. (-5012, l),
     op_transfer_wait = \<lambda>n rate l. 5, op_time = \<lambda>l. (0, l), op_sleep = \<lambda>l. l\<rparr>"

definition range_state :: "(nat \<times> nat) list vol_state" where
  "range_state = \<lparr>vs_records = [1 \<mapsto> open_file 1 0], vs_open_forks = [1], vs_cache = stale_cache, vs_dtrefnum = 0,
     vs_no_desktop = False, vs_world = []\<rparr>"

theorem ll_read_reads_witness:
  "\<exists>r s'. ll_read (\<lambda>_. True) (session_volume 34 3) (file_server 2) 5 1 (Some 1) two_forks = Some (r, s') \<and>
     rr_bytes r = [2, 3] \<and> rr_ret r = 2 \<and> rr_eof r \<and> vs_world s' = [1, 2, 3]"
proof -
  let ?v = "session_volume 34 3"
  have h: "reads_file id (op_readext (file_server 2)) (fi_forkid (open_file 1 1))" "leaves_file id (file_server 2)" "0 < fv_quantum ?v"
    "av_number ?v \<ge> 30" "wf_forks two_forks" "vs_records two_forks 1 = Some (open_file 1 1)" "fi_forkid (open_file 1 1) \<noteq> 0"
    by (simp_all add: file_server_file session_volume_def wf_forks_def two_forks_def open_file_def)
  have "0 \<le> rr_ret (fst (the (ll_read (\<lambda>_. True) ?v (file_server 2) 5 1 (Some 1) two_forks)))"
    using read_loop_run by (simp add: ll_read_def server_is_apple_def two_forks_def open_file_def file_server_run session_volume_def)
  then show ?thesis
    using ll_read_reads [OF h, of 1 5 "\<lambda>_. True"] by (auto simp: two_forks_def)
qed

theorem afp2_read_within_bound_witness:
  "\<exists>r s'. ll_read (\<lambda>_. True) (session_volume 22 3) range_server 10 2147483646 (Some 1) range_state = Some (r, s') \<and>
     list_all (\<lambda>(off, n). off + n \<le> 2147483648) (vs_world s') \<and> length (rr_bytes r) \<le> 10"
proof -
  let ?P = "list_all (\<lambda>(off, n). off + n \<le> 2147483648)"
  have "keeps_within_bound ?P range_server" "av_number (session_volume 22 3) < 30" "wf_forks range_state"
    "vs_records range_state 1 = Some (open_file 1 0)" "?P (vs_world range_state)"
    by (auto simp: keeps_within_bound_def range_server_def session_volume_def wf_forks_def range_state_def)
  from afp2_read_within_bound [OF this] show ?thesis by blast
qed

theorem ll_write_writes_witness:
  "\<exists>ret n s'. ll_write (session_volume 34 3) (file_server 2) [9, 8, 7, 6] 2 (Some 1) two_forks = Some (ret, n, s') \<and>
     ret = 0 \<and> n = 4 \<and> vs_world s' = [1, 2, 9, 8, 7, 6] \<and> vs_records s' = (vs_records two_forks)(1 \<mapsto> (open_file 1 1)\<lparr>fi_dirty := 1\<rparr>)"
proof -
  let ?v = "session_volume 34 3"
  have h: "writes_file id (op_writeext (file_server 2)) (fi_forkid (open_file 1 1))" "leaves_file id (file_server 2)" "0 < fv_quantum ?v"
    "av_number ?v \<ge> 30" "vs_records two_forks 1 = Some (open_file 1 1)" "fi_forkid (open_file 1 1) \<noteq> 0"
    by (simp_all add: file_server_file session_volume_def two_forks_def open_file_def)
  have "fst (the (ll_write ?v (file_server 2) [9, 8, 7, 6] 2 (Some 1) two_forks)) = 0"
    using write_loop_run by (simp add: ll_write_def two_forks_def open_file_def file_server_run session_volume_def)
  then show ?thesis
    using ll_write_writes [OF h, of 2 "[9, 8, 7, 6]"] by (auto simp: two_forks_def file_put_def)
qed

end
