(* ===== verification/Appledouble.thy ===== *)
theory Appledouble
  imports Fork_Transfer "HOL-Library.Monad_Syntax"
begin

text \<open>
  The AppleDouble view of a volume, \<open>lib/resource.c\<close>: resource forks, Finder information and comments as
  pseudo-files of a directory \<open>.AppleDouble\<close>, and the server's icon.  The length and the opening of a resource
  fork by its file's path come from \<open>lib/midlevel.c\<close>.
\<close>

unbundle bit_operations_syntax

abbreviation (input) kFPItemNotFound :: int where "kFPItemNotFound \<equiv> -5012"
abbreviation (input) AFPC_MAX_UTF8_PATH_BYTES :: nat where "AFPC_MAX_UTF8_PATH_BYTES \<equiv> 65535"
abbreviation (input) EFAULT :: int where "EFAULT \<equiv> 14"
abbreviation (input) AFP_META_APPLEDOUBLE :: nat where "AFP_META_APPLEDOUBLE \<equiv> 2"
abbreviation (input) AFP_META_SERVER_ICON :: nat where "AFP_META_SERVER_ICON \<equiv> 5"
abbreviation (input) AFP_COMMENT_MAX :: nat where "AFP_COMMENT_MAX \<equiv> 199"
abbreviation (input) AFP_SERVER_ICON_LEN :: nat where "AFP_SERVER_ICON_LEN \<equiv> 256"
abbreviation (input) VOLUME_EXTRA_FLAGS_SHOW_APPLEDOUBLE :: nat where "VOLUME_EXTRA_FLAGS_SHOW_APPLEDOUBLE \<equiv> 0x4"
abbreviation (input) S_IFLNK :: nat where "S_IFLNK \<equiv> 0xA000"

definition appledouble :: bytes where "appledouble = bytes_of ''.AppleDouble''"
definition finderinfo_string :: bytes where "finderinfo_string = bytes_of ''.finderinfo''"
definition comment_string :: bytes where "comment_string = bytes_of ''.comment''"
definition servericon_string :: bytes where "servericon_string = bytes_of ''/.servericon''"
definition symlink_finderinfo :: bytes where "symlink_finderinfo = bytes_of ''slnkrhap''"

text \<open>A command on the world of a volume's state.\<close>

definition on_world :: "('w \<Rightarrow> 'a \<times> 'w) \<Rightarrow> 'w vol_state \<Rightarrow> 'a \<times> 'w vol_state" where
  "on_world f s = (case f (vs_world s) of (r, w) \<Rightarrow> (r, s\<lparr>vs_world := w\<rparr>))"

definition on_world2 :: "('w \<Rightarrow> 'a \<times> 'b \<times> 'w) \<Rightarrow> 'w vol_state \<Rightarrow> 'a \<times> 'b \<times> 'w vol_state" where
  "on_world2 f s = (case f (vs_world s) of (r, x, w) \<Rightarrow> (r, x, s\<lparr>vs_world := w\<rparr>))"

section \<open>The paths of the view\<close>

text \<open>The first whole component \<open>.AppleDouble\<close> with something behind it.\<close>

function view_component :: "bytes \<Rightarrow> nat \<Rightarrow> nat option" where
  "view_component path p =
     (case strstr (drop p path) appledouble of
        None \<Rightarrow> None
      | Some j \<Rightarrow>
          let k = p + j in
          if k > 0 \<and> path ! (k - 1) = slash \<and> k + 12 < length path \<and> path ! (k + 12) = slash then Some k
          else if k < length path then view_component path (k + 1) else None)"
  by pat_completeness auto
termination
  by (relation "measure (\<lambda>(path, p). length path - p)") auto

declare view_component.simps [simp del]

definition pseudo_suffix :: "bytes \<Rightarrow> bytes \<Rightarrow> bytes option" where
  "pseudo_suffix newpath suff =
     (if length newpath > length suff \<and> drop (length newpath - length suff) newpath = suff
      then Some (take (length newpath - length suff) newpath) else None)"

text \<open>The kind of pseudo-file, 0 or a negative errno, and the path it stands for.\<close>

definition extra_translate :: "(nat \<Rightarrow> bool) \<Rightarrow> file_volume \<Rightarrow> bytes \<Rightarrow> int \<times> bytes option" where
  "extra_translate malloc_ok v path =
     (if \<not> has_bit (vol_extra_flags (fv_volume v)) VOLUME_EXTRA_FLAGS_SHOW_APPLEDOUBLE then (0, None)
      else if path = servericon_string then (int AFP_META_SERVER_ICON, None)
      else if length path < 13 then (0, None)
      else case strrchr path slash of
          None \<Rightarrow> (0, None)
        | Some i \<Rightarrow>
            if drop (i + 1) path = appledouble then
              (if \<not> malloc_ok (length path) then (- ENOMEM, None)
               else (int AFP_META_APPLEDOUBLE, Some (if length path = 13 then [slash] else take (length path - 13) path)))
            else (case view_component path 0 of
                None \<Rightarrow> (0, None)
              | Some k \<Rightarrow>
                  let rest = drop (k + 13) path; newpath = take k path @ rest in
                  if \<not> malloc_ok (k + length rest + 1) then (- ENOMEM, None)
                  else (case pseudo_suffix newpath finderinfo_string of
                      Some p \<Rightarrow> (int AFP_META_FINDERINFO, Some p)
                    | None \<Rightarrow>
                        (case pseudo_suffix newpath comment_string of
                           Some p \<Rightarrow> (int AFP_META_COMMENT, Some p)
                         | None \<Rightarrow> (int AFP_META_RESOURCE, Some newpath)))))"

definition appledouble_shadows :: "file_volume \<Rightarrow> bytes \<Rightarrow> bytes \<Rightarrow> bool" where
  "appledouble_shadows v dir name \<longleftrightarrow>
     has_bit (vol_extra_flags (fv_volume v)) VOLUME_EXTRA_FLAGS_SHOW_APPLEDOUBLE
     \<and> (name = appledouble \<or> dir = [slash] \<and> name = drop 1 servericon_string)"

section \<open>Comments\<close>

definition ensure_dt_opened :: "'w afp_ops \<Rightarrow> 'w vol_state \<Rightarrow> int \<times> 'w vol_state" where
  "ensure_dt_opened ops s =
     (if vs_dtrefnum s > 0 then (0, s)
      else if vs_no_desktop s then (- ENOENT, s)
      else case op_opendt ops (vs_dtrefnum s) (vs_world s) of
        (rc, refnum, w) \<Rightarrow>
          let s1 = s\<lparr>vs_dtrefnum := refnum, vs_world := w\<rparr> in
          if rc = kFPCallNotSupported then (- ENOENT, s1\<lparr>vs_no_desktop := True\<rparr>)
          else (if rc = kFPNoErr then 0 else - EIO, s1))"

text \<open>The return value and the bytes put into a buffer of the size given.\<close>

definition read_comment :: "'w afp_ops \<Rightarrow> bytes \<Rightarrow> nat \<Rightarrow> nat option \<Rightarrow> 'w vol_state \<Rightarrow> int \<times> bytes \<times> 'w vol_state" where
  "read_comment ops basename did buf s =
     (case ensure_dt_opened ops s of
        (ret, s1) \<Rightarrow>
          if ret \<noteq> 0 then (ret, [], s1)
          else case on_world2 (op_getcomment ops did basename) s1 of
            (rc, comment, s2) \<Rightarrow>
              if rc = kFPNoErr \<or> rc = kFPItemNotFound then
                (case buf of
                   Some sz \<Rightarrow> (int (min sz (length comment)), take sz comment, s2)
                 | None \<Rightarrow> (int (length comment), [], s2))
              else (if rc = kFPAccessDenied then - EACCES else if rc = kFPObjectNotFound then - ENOENT else - EIO, [], s2))"

definition set_comment_length :: "'w afp_ops \<Rightarrow> bytes \<Rightarrow> nat \<Rightarrow> int \<Rightarrow> 'w vol_state \<Rightarrow> int \<times> 'w vol_state" where
  "set_comment_length ops basename did len s =
     (if len < 0 then (- EINVAL, s)
      else if len > int AFP_COMMENT_MAX then (- EFBIG, s)
      else case ensure_dt_opened ops s of
        (ret, s1) \<Rightarrow>
          if ret \<noteq> 0 then (ret, s1)
          else case (if len > 0 then read_comment ops basename did (Some AFP_COMMENT_MAX) s1 else (0, [], s1)) of
            (got, comment, s2) \<Rightarrow>
              if got < 0 then (got, s2)
              else case on_world (op_addcomment ops did basename (take (nat len) (comment @ replicate (nat len - length comment) 0))) s2 of
                (rc, s3) \<Rightarrow> (- ll_answer_errno rc, s3))"

section \<open>What the view refuses\<close>

definition appledouble_creat :: "(nat \<Rightarrow> bool) \<Rightarrow> file_volume \<Rightarrow> bytes \<Rightarrow> int" where
  "appledouble_creat malloc_ok v path =
     (let resource = fst (extra_translate malloc_ok v path) in
      if resource < 0 then resource
      else if resource = int AFP_META_RESOURCE \<or> resource = int AFP_META_FINDERINFO \<or> resource = int AFP_META_COMMENT then 1
      else if resource = int AFP_META_APPLEDOUBLE then - EBADF
      else if resource = int AFP_META_SERVER_ICON then - EPERM
      else 0)"

text \<open>The body that the calls which no pseudo-file takes share.\<close>

definition refuse_pseudo :: "(nat \<Rightarrow> bool) \<Rightarrow> file_volume \<Rightarrow> bytes \<Rightarrow> int" where
  "refuse_pseudo malloc_ok v path =
     (let resource = fst (extra_translate malloc_ok v path) in if resource \<le> 0 then resource else - EPERM)"

definition appledouble_setattr :: "(nat \<Rightarrow> bool) \<Rightarrow> file_volume \<Rightarrow> bytes \<Rightarrow> int" where
  "appledouble_setattr = refuse_pseudo"

definition appledouble_unlink :: "(nat \<Rightarrow> bool) \<Rightarrow> file_volume \<Rightarrow> bytes \<Rightarrow> int" where
  "appledouble_unlink = refuse_pseudo"

definition appledouble_mkdir :: "(nat \<Rightarrow> bool) \<Rightarrow> file_volume \<Rightarrow> bytes \<Rightarrow> int" where
  "appledouble_mkdir = refuse_pseudo"

definition appledouble_readlink :: "(nat \<Rightarrow> bool) \<Rightarrow> file_volume \<Rightarrow> bytes \<Rightarrow> int" where
  "appledouble_readlink = refuse_pseudo"

definition appledouble_rmdir :: "(nat \<Rightarrow> bool) \<Rightarrow> file_volume \<Rightarrow> bytes \<Rightarrow> int" where
  "appledouble_rmdir = refuse_pseudo"

definition appledouble_symlink :: "(nat \<Rightarrow> bool) \<Rightarrow> file_volume \<Rightarrow> bytes \<Rightarrow> bytes \<Rightarrow> int" where
  "appledouble_symlink malloc_ok v path1 path2 = refuse_pseudo malloc_ok v path2"

definition appledouble_rename :: "(nat \<Rightarrow> bool) \<Rightarrow> file_volume \<Rightarrow> bytes \<Rightarrow> bytes \<Rightarrow> int" where
  "appledouble_rename malloc_ok v path_from path_to = refuse_pseudo malloc_ok v path_to"

section \<open>Open pseudo-files\<close>

definition appledouble_close :: "file_volume \<Rightarrow> 'w afp_ops \<Rightarrow> nat \<Rightarrow> 'w vol_state \<Rightarrow> (int \<times> 'w vol_state) option" where
  "appledouble_close v ops fp s = do {
     f \<leftarrow> vs_records s fp;
     if fi_resource f = AFP_META_RESOURCE then do {
       (ret0, s1) \<leftarrow> ml_close_flush v ops fp s;
       f1 \<leftarrow> vs_records s1 fp;
       let (ret, s2) = (if ret0 = 0 \<and> fi_dirty f1 \<noteq> 0 \<and> server_is_apple (fv_server v)
                        then (case on_world (op_flushfork ops (fi_forkid f1) DSI_DEFAULT_TIMEOUT) s1 of
                                (rc, s2) \<Rightarrow> (if rc \<noteq> kFPNoErr then - EIO else ret0, s2))
                        else (ret0, s1));
       let (rc, s3) = on_world (op_closefork ops (fi_forkid f1)) s2;
       Some (if rc = kFPNoErr then ret else - EIO, remove_opened_fork fp s3)
     }
     else if fi_resource f = AFP_META_APPLEDOUBLE then Some (- EBADF, s)
     else Some (0, s)
   }"

definition S_ISLNK :: "nat \<Rightarrow> bool" where
  "S_ISLNK mode \<longleftrightarrow> mode AND S_IFMT = S_IFLNK"

definition ml_carries_time :: "afp_dirent \<Rightarrow> bool" where
  "ml_carries_time e \<longleftrightarrow> has_bit (de_valid e) kFPModDateBit \<and> de_mod_ns e \<ge> 0 \<and> \<not> S_ISLNK (up_permissions (de_unixprivs e))
     \<and> take 8 (de_finderinfo e) \<noteq> symlink_finderinfo"

text \<open>A write to the 32 bytes of Finder information.  The count is an \<open>int\<close>, as \<open>towrite\<close> in the code: one that does not
  fit is negative, and the copy leaves the buffer.\<close>

definition write_finderinfo ::
  "file_volume \<Rightarrow> 'w afp_ops \<Rightarrow> afp_file_info \<Rightarrow> bytes \<Rightarrow> int \<Rightarrow> 'w vol_state \<Rightarrow> (int \<times> nat \<times> 'w vol_state) option" where
  "write_finderinfo v ops f data offset s =
     (if offset < 0 \<or> offset \<ge> 32 then Some (- EINVAL, 0, s)
      else
        let n = s32 (length data);
            towrite = (if n > 32 - offset then 32 - offset else n);
            bitmap = kFPFinderInfoBit OR kFPModDateBit
                     OR (if has_bit (vol_extra_flags (fv_volume v)) VOLUME_EXTRA_FLAGS_VOL_SUPPORTS_UNIX then kFPUnixPrivsBit else 0);
            (rc, e, s1) = on_world2 (op_getfiledirparms ops (fi_did f) bitmap bitmap (fi_basename f)) s
        in if rc \<noteq> kFPNoErr then Some (- ll_answer_errno rc, 0, s1)
           else if towrite < 0 then None
           else
             let e1 = e\<lparr>de_finderinfo := write_at (de_finderinfo e) (nat offset) (take (nat towrite) data)\<rparr>;
                 keeps_time = (ml_carries_time e \<and> take 8 (de_finderinfo e1) \<noteq> symlink_finderinfo);
                 (rc, s2) = on_world (op_setfiledirparms ops (fi_did f) (fi_basename f)
                                        (kFPFinderInfoBit OR (if keeps_time then kFPModDateBit else 0)) e1) s1
             in if rc \<noteq> kFPNoErr then Some (- ll_answer_errno rc, 0, s2) else Some (1, nat towrite, s2))"

definition write_comment :: "'w afp_ops \<Rightarrow> afp_file_info \<Rightarrow> bytes \<Rightarrow> int \<Rightarrow> 'w vol_state \<Rightarrow> int \<times> nat \<times> 'w vol_state" where
  "write_comment ops f data offset s =
     (if offset < 0 then (- EINVAL, 0, s)
      else if offset \<ge> int AFP_COMMENT_MAX then (- EFBIG, 0, s)
      else if data = [] then (1, 0, s)
      else case read_comment ops (fi_basename f) (fi_did f) (Some AFP_COMMENT_MAX) s of
        (len, comment, s1) \<Rightarrow>
          if len < 0 then (len, 0, s1)
          else
            let off = nat offset; bs = take (AFP_COMMENT_MAX - off) data;
                padded = comment @ replicate (off - length comment) 0;
                (rc, s2) = on_world (op_addcomment ops (fi_did f) (fi_basename f) (write_at padded off bs)) s1
            in if rc \<noteq> kFPNoErr then (- ll_answer_errno rc, 0, s2) else (1, length bs, s2))"

definition appledouble_write ::
  "file_volume \<Rightarrow> 'w afp_ops \<Rightarrow> nat \<Rightarrow> bytes \<Rightarrow> int \<Rightarrow> 'w vol_state \<Rightarrow> (int \<times> nat \<times> 'w vol_state) option" where
  "appledouble_write v ops fp data offset s = do {
     f \<leftarrow> vs_records s fp;
     if fi_resource f = AFP_META_RESOURCE then do {
       (ret, written, s1) \<leftarrow> ll_write v ops data offset (Some fp) s;
       Some (if ret < 0 then ret else 1, written, s1)
     }
     else if fi_resource f = AFP_META_APPLEDOUBLE then Some (- EBADF, 0, s)
     else if fi_resource f = AFP_META_FINDERINFO then write_finderinfo v ops f data offset s
     else if fi_resource f = AFP_META_COMMENT then Some (write_comment ops f data offset s)
     else if fi_resource f = AFP_META_SERVER_ICON then Some (- EPERM, 0, s)
     else Some (0, 0, s)
   }"

text \<open>The return value, the bytes read and the end-of-file flag.\<close>

definition read_finderinfo :: "'w afp_ops \<Rightarrow> afp_file_info \<Rightarrow> nat \<Rightarrow> int \<Rightarrow> 'w vol_state \<Rightarrow> int \<times> bytes \<times> bool \<times> 'w vol_state" where
  "read_finderinfo ops f sz offset s =
     (if offset < 0 \<or> offset > 32 then (- EFAULT, [], False, s)
      else case on_world2 (op_getfiledirparms ops (fi_did f) kFPFinderInfoBit kFPFinderInfoBit (fi_basename f)) s of
        (rc, info, s1) \<Rightarrow>
          if rc \<noteq> kFPNoErr then (- ll_answer_errno rc, [], False, s1)
          else let tocopy = min sz (32 - nat offset) in
            (1, take tocopy (drop (nat offset) (de_finderinfo info)), nat offset + tocopy = 32, s1))"

definition read_comment_at :: "'w afp_ops \<Rightarrow> afp_file_info \<Rightarrow> nat \<Rightarrow> int \<Rightarrow> 'w vol_state \<Rightarrow> int \<times> bytes \<times> bool \<times> 'w vol_state" where
  "read_comment_at ops f sz offset s =
     (case read_comment ops (fi_basename f) (fi_did f) (Some AFP_COMMENT_MAX) s of
        (len, comment, s1) \<Rightarrow>
          if len < 0 then (len, [], False, s1)
          else if offset < 0 then (- EINVAL, [], False, s1)
          else let tocopy = (if offset < len then min sz (nat (len - offset)) else 0) in
            (1, take tocopy (drop (nat offset) comment), offset + int tocopy \<ge> len, s1))"

definition appledouble_read ::
  "(nat \<Rightarrow> bool) \<Rightarrow> file_volume \<Rightarrow> 'w afp_ops \<Rightarrow> nat \<Rightarrow> nat \<Rightarrow> int \<Rightarrow> 'w vol_state
     \<Rightarrow> (int \<times> bytes \<times> bool \<times> 'w vol_state) option" where
  "appledouble_read malloc_ok v ops fp sz offset s = do {
     f \<leftarrow> vs_records s fp;
     if fi_resource f = AFP_META_RESOURCE then do {
       (r, s1) \<leftarrow> ll_read malloc_ok v ops sz offset (Some fp) s;
       Some (if rr_ret r < 0 then (rr_ret r, [], rr_eof r, s1) else (1, rr_bytes r, rr_eof r, s1))
     }
     else if fi_resource f = AFP_META_APPLEDOUBLE then Some (- EBADF, [], False, s)
     else if fi_resource f = AFP_META_FINDERINFO then Some (read_finderinfo ops f sz offset s)
     else if fi_resource f = AFP_META_COMMENT then Some (read_comment_at ops f sz offset s)
     else if fi_resource f = AFP_META_SERVER_ICON then
       (if offset < 0 \<or> offset > int AFP_SERVER_ICON_LEN then Some (- EFAULT, [], False, s)
        else Some (1, take (min sz (AFP_SERVER_ICON_LEN - nat offset)) (drop (nat offset) (fv_icon v)), True, s))
     else Some (0, [], False, s)
   }"

definition appledouble_ftruncate :: "'w afp_ops \<Rightarrow> afp_file_info \<Rightarrow> int \<Rightarrow> 'w vol_state \<Rightarrow> int \<times> 'w vol_state" where
  "appledouble_ftruncate ops f offset s =
     (if fi_resource f = AFP_META_FINDERINFO then (1, s)
      else if fi_resource f = AFP_META_COMMENT then
        (case set_comment_length ops (fi_basename f) (fi_did f) offset s of (ret, s1) \<Rightarrow> (if ret < 0 then ret else 1, s1))
      else if fi_resource f = AFP_META_SERVER_ICON then (- EPERM, s)
      else (0, s))"

section \<open>Opening\<close>

text \<open>A record of zeros, and what \<open>get_dirid\<close> leaves in a record.\<close>

definition no_file :: afp_file_info where
  "no_file = \<lparr>fi_size = 0, fi_did = 0, fi_cnid = 0, fi_resource = 0, fi_forkid = 0, fi_sync = 0, fi_writable = 0, fi_dirty = 0,
     fi_created = 0, fi_basename = []\<rparr>"

definition record_dirid ::
  "(nat \<Rightarrow> bool) \<Rightarrow> file_volume \<Rightarrow> 'w afp_ops \<Rightarrow> bytes \<Rightarrow> nat \<Rightarrow> 'w vol_state \<Rightarrow> (int \<times> 'w vol_state) option" where
  "record_dirid malloc_ok v ops path fp s = do {
     ((ret, did, base), s1) \<leftarrow> volume_dirid malloc_ok v ops path s;
     f \<leftarrow> vs_records s1 fp;
     Some (ret, set_record fp (f\<lparr>fi_did := (case did of Some d \<Rightarrow> d | None \<Rightarrow> fi_did f),
                                 fi_basename := (case base of Some b \<Rightarrow> b | None \<Rightarrow> fi_basename f)\<rparr>) s1)
   }"

definition appledouble_open ::
  "(nat \<Rightarrow> bool) \<Rightarrow> file_volume \<Rightarrow> 'w afp_ops \<Rightarrow> bytes \<Rightarrow> open_flags \<Rightarrow> nat \<Rightarrow> 'w vol_state \<Rightarrow> (int \<times> 'w vol_state) option" where
  "appledouble_open malloc_ok v ops path flags fp s =
     (case extra_translate malloc_ok v path of
        (resource, newpath) \<Rightarrow>
          if resource < 0 then Some (resource, s)
          else do {
            f \<leftarrow> vs_records s fp;
            let s1 = set_record fp (f\<lparr>fi_resource := nat resource\<rparr>) s;
            if resource = int AFP_META_RESOURCE then do {
              (ret, s2) \<leftarrow> record_dirid malloc_ok v ops (the newpath) fp s1;
              if ret < 0 then Some (ret, s2)
              else do {
                (ret, s3) \<leftarrow> ll_open v ops flags fp s2;
                Some (if ret < 0 then ret else 1, s3)
              }
            }
            else if resource = int AFP_META_APPLEDOUBLE then Some (- EISDIR, s1)
            else if resource = int AFP_META_FINDERINFO then do {
              (ret, s2) \<leftarrow> record_dirid malloc_ok v ops (the newpath) fp s1;
              Some (if ret < 0 then ret else 1, s2)
            }
            else if resource = int AFP_META_COMMENT then do {
              (ret, s2) \<leftarrow> record_dirid malloc_ok v ops (the newpath) fp s1;
              if ret < 0 then Some (ret, s2)
              else
                let (ret, s3) = ensure_dt_opened ops s2 in
                if ret \<noteq> 0 then Some (ret, s3)
                else if of_trunc flags then do {
                  f3 \<leftarrow> vs_records s3 fp;
                  let (ret, s4) = set_comment_length ops (fi_basename f3) (fi_did f3) 0 s3;
                  Some (if ret < 0 then ret else 1, s4)
                }
                else Some (1, s3)
            }
            else if resource = int AFP_META_SERVER_ICON then
              Some (if of_access flags = O_RDONLY \<and> \<not> of_trunc flags then 1 else - EPERM, s1)
            else Some (0, s1)
          })"

definition appledouble_open_meta ::
  "(nat \<Rightarrow> bool) \<Rightarrow> file_volume \<Rightarrow> 'w afp_ops \<Rightarrow> bytes \<Rightarrow> nat \<Rightarrow> open_flags \<Rightarrow> nat \<Rightarrow> 'w vol_state \<Rightarrow> (int \<times> 'w vol_state) option" where
  "appledouble_open_meta malloc_ok v ops path resource flags fp s =
     (let s1 = set_record fp (no_file\<lparr>fi_resource := resource\<rparr>) s in
      if resource = AFP_META_RESOURCE then do {
        (ret, s2) \<leftarrow> record_dirid malloc_ok v ops path fp s1;
        if ret < 0 then Some (ret, s2) else ll_open v ops flags fp s2
      }
      else if resource = AFP_META_FINDERINFO then record_dirid malloc_ok v ops path fp s1
      else Some (- EINVAL, s1))"

definition convert_path_to_afp_alloc :: "(nat \<Rightarrow> bool) \<Rightarrow> file_volume \<Rightarrow> bytes \<Rightarrow> (int \<times> bytes) option" where
  "convert_path_to_afp_alloc malloc_ok v path =
     (case path_validate (Some (string_of path)) AFPC_MAX_UTF8_PATH_BYTES of
        (ret, len) \<Rightarrow>
          if ret \<noteq> 0 then Some (ret, [])
          else if \<not> malloc_ok (len * 4 + 1) then Some (- ENOMEM, [])
          else do {
            (rc, converted) \<leftarrow> convert_path_to_afp malloc_ok (vol_path_encoding (fv_volume v)) path (len * 4 + 1);
            Some (if rc \<noteq> 0 then (- EINVAL, [])
                  else if length (cstr converted) > AFPC_MAX_UTF8_PATH_BYTES then (- ENAMETOOLONG, [])
                  else (0, cstr converted))
          })"

definition open_appledouble_meta ::
  "(nat \<Rightarrow> bool) \<Rightarrow> file_volume \<Rightarrow> 'w afp_ops \<Rightarrow> bytes \<Rightarrow> nat \<Rightarrow> open_flags \<Rightarrow> nat \<Rightarrow> 'w vol_state \<Rightarrow> (int \<times> 'w vol_state) option" where
  "open_appledouble_meta malloc_ok v ops path resource flags fp s = do {
     (ret, converted) \<leftarrow> convert_path_to_afp_alloc malloc_ok v path;
     if ret \<noteq> 0 then Some (ret, s)
     else if invalid_filename (vol_path_encoding (fv_volume v)) (Some (int (av_number v))) (Some converted) then Some (- ENAMETOOLONG, s)
     else appledouble_open_meta malloc_ok v ops converted resource flags fp s
   }"

section \<open>Lengths by path\<close>

definition ml_ftruncate :: "file_volume \<Rightarrow> 'w afp_ops \<Rightarrow> nat \<Rightarrow> int \<Rightarrow> 'w vol_state \<Rightarrow> (int \<times> 'w vol_state) option" where
  "ml_ftruncate v ops fp offset s =
     (if offset < 0 then Some (- EINVAL, s)
      else do {
        f \<leftarrow> vs_records s fp;
        let (ret, s1) = appledouble_ftruncate ops f offset s;
        if ret \<noteq> 0 then Some (if ret < 0 then ret else 0, s1)
        else if fi_forkid f = 0 then Some (- EIO, s1)
        else
          let (err, s2) = on_world (ll_setfork_size v ops (fi_forkid f) (fi_resource f = AFP_META_RESOURCE) (nat offset)) s1 in
          Some (- err, if err = 0 then set_record fp (f\<lparr>fi_size := nat offset, fi_dirty := 1\<rparr>) s2 else s2)
      })"

definition read_write :: open_flags where
  "read_write = \<lparr>of_access = O_RDWR, of_creat = False, of_excl = False, of_trunc = False, of_append = False, of_sync = False\<rparr>"

text \<open>A record on the caller's stack leaves memory when the call returns.\<close>

definition drop_record :: "nat \<Rightarrow> 'w vol_state \<Rightarrow> 'w vol_state" where
  "drop_record fp s = s\<lparr>vs_records := (vs_records s)(fp := None)\<rparr>"

definition ml_truncateresourcefork ::
  "(nat \<Rightarrow> bool) \<Rightarrow> file_volume \<Rightarrow> 'w afp_ops \<Rightarrow> bytes \<Rightarrow> nat \<Rightarrow> nat \<Rightarrow> 'w vol_state \<Rightarrow> (int \<times> 'w vol_state) option" where
  "ml_truncateresourcefork malloc_ok v ops path len fp s =
     (if len > 2 ^ 63 - 1 then Some (- EFBIG, s)
      else if volume_is_readonly v then Some (- EROFS, s)
      else do {
        (ret, s1) \<leftarrow> open_appledouble_meta malloc_ok v ops path AFP_META_RESOURCE read_write fp (set_record fp no_file s);
        if ret < 0 then Some (ret, drop_record fp s1)
        else do {
          (ret, s2) \<leftarrow> ml_ftruncate v ops fp (int len) s1;
          (close_ret, s3) \<leftarrow> appledouble_close v ops fp s2;
          Some (if ret \<noteq> 0 then ret else if close_ret < 0 then close_ret else 0, drop_record fp s3)
        }
      })"

definition appledouble_truncate ::
  "(nat \<Rightarrow> bool) \<Rightarrow> file_volume \<Rightarrow> 'w afp_ops \<Rightarrow> bytes \<Rightarrow> int \<Rightarrow> nat \<Rightarrow> 'w vol_state \<Rightarrow> (int \<times> 'w vol_state) option" where
  "appledouble_truncate malloc_ok v ops path offset fp s =
     (case extra_translate malloc_ok v path of
        (resource, newpath) \<Rightarrow>
          if resource < 0 then Some (resource, s)
          else if resource = int AFP_META_RESOURCE then do {
            (ret, s1) \<leftarrow> ml_truncateresourcefork malloc_ok v ops (the newpath) (nat (offset mod 2 ^ 64)) fp s;
            Some (if ret < 0 then ret else 1, s1)
          }
          else Some (if resource = int AFP_META_APPLEDOUBLE then - EISDIR
                     else if resource = int AFP_META_FINDERINFO then 1
                     else if resource = int AFP_META_SERVER_ICON then - EPERM else 0, s))"

section \<open>Attributes and the listing of the view\<close>

definition S_ISREG :: "nat \<Rightarrow> bool" where
  "S_ISREG mode \<longleftrightarrow> mode AND S_IFMT = S_IFREG"

text \<open>The caller passes a buffer of zeros.\<close>

definition no_stat :: stat_buf where
  "no_stat = \<lparr>st_mode = 0, st_ino = 0, st_uid = 0, st_gid = 0, st_blksize = 0, st_nlink = 0, st_size = 0, st_blocks = 0,
     st_ctim = (0, 0), st_mtim = (0, 0)\<rparr>"

definition appledouble_getattr ::
  "(nat \<Rightarrow> bool) \<Rightarrow> file_volume \<Rightarrow> 'w afp_ops \<Rightarrow> bytes \<Rightarrow> 'w vol_state \<Rightarrow> (int \<times> stat_buf option \<times> 'w vol_state) option" where
  "appledouble_getattr malloc_ok v ops path s =
     (case extra_translate malloc_ok v path of
        (resource, newpath) \<Rightarrow>
          if resource < 0 then Some (resource, None, s)
          else if resource = int AFP_META_RESOURCE then do {
            (ret, st, s1) \<leftarrow> ll_getattr malloc_ok v ops (the newpath) True s;
            Some (if ret < 0 then (ret, None, s1)
                  else if \<not> S_ISREG (st_mode (the st)) then (- ENOENT, None, s1)
                  else (1, st, s1))
          }
          else if resource = int AFP_META_APPLEDOUBLE then Some (1, Some (no_stat\<lparr>st_mode := 448 OR S_IFDIR\<rparr>), s)
          else if resource = int AFP_META_FINDERINFO then do {
            (ret, st, s1) \<leftarrow> ll_getattr malloc_ok v ops (the newpath) False s;
            Some (if ret < 0 then (ret, None, s1) else (1, Some (pseudo_file_stat 32 (the st)), s1))
          }
          else if resource = int AFP_META_COMMENT then do {
            (ret, st, s1) \<leftarrow> ll_getattr malloc_ok v ops (the newpath) False s;
            if ret < 0 then Some (ret, None, s1)
            else do {
              ((ret, did, base), s2) \<leftarrow> volume_dirid malloc_ok v ops (the newpath) s1;
              if ret < 0 then Some (ret, None, s2)
              else
                let (len, _, s3) = read_comment ops (the base) (the did) None s2 in
                Some (if len < 0 then (len, None, s3) else (1, Some (pseudo_file_stat (nat len) (the st)), s3))
            }
          }
          else if resource = int AFP_META_SERVER_ICON then
            Some (1, Some (pseudo_file_stat AFP_SERVER_ICON_LEN (no_stat\<lparr>st_mode := 292\<rparr>)), s)
          else Some (0, None, s))"

definition names_pseudo_file :: "bytes \<Rightarrow> bool" where
  "names_pseudo_file name \<longleftrightarrow>
     length name \<ge> length finderinfo_string \<and> drop (length name - length finderinfo_string) name = finderinfo_string
     \<or> length name \<ge> length comment_string \<and> drop (length name - length comment_string) name = comment_string"

text \<open>The loop over the entries of the directory beside the view, with the number of entries left and kept so far.  After
  a failed append the listing is freed, so the rest of that round leaves nothing.\<close>

fun view_loop ::
  "(nat \<Rightarrow> bool) \<Rightarrow> file_volume \<Rightarrow> 'w afp_ops \<Rightarrow> nat \<Rightarrow> nat \<Rightarrow> nat \<Rightarrow> afp_listing \<Rightarrow> 'w vol_state
     \<Rightarrow> (int \<times> nat \<times> afp_listing \<times> 'w vol_state) option" where
  "view_loop malloc_ok v ops 0 i kept l s = Some (0, kept, l, s)"
| "view_loop malloc_ok v ops (Suc n) i kept l s =
     (let e = ls_entries l ! i in do {
        (ret, l1) \<leftarrow> listing_append malloc_ok l e finderinfo_string AFP_META_FINDERINFO 32;
        if ret \<noteq> 0 then Some (ret, kept, l1, s)
        else do {
          name \<leftarrow> dirent_name l1 e;
          (rc, afp_name) \<leftarrow> convert_path_to_afp malloc_ok (vol_path_encoding (fv_volume v)) name AFPC_MAX_NAME_BYTES;
          let (len, _, s1) = (if rc = 0 then read_comment ops (cstr afp_name) (de_parent_did e) None s else (0, [], s));
          (ret, l2) \<leftarrow> (if len > 0 then listing_append malloc_ok l1 e comment_string AFP_META_COMMENT (nat len) else Some (0, l1));
          if ret \<noteq> 0 then Some (ret, kept, l2, s1)
          else if S_ISREG (dirent_mode e) \<and> de_resourcesize e \<noteq> 0 \<and> \<not> names_pseudo_file name
          then view_loop malloc_ok v ops n (Suc i) (Suc kept)
                 (l2\<lparr>ls_entries := (ls_entries l2)[kept := e\<lparr>de_kind := AFP_META_RESOURCE\<rparr>]\<rparr>) s1
          else view_loop malloc_ok v ops n (Suc i) kept l2 s1
        }
      })"

text \<open>The pseudo-files close up behind the entries kept.\<close>

definition close_up :: "nat \<Rightarrow> nat \<Rightarrow> afp_listing \<Rightarrow> afp_listing" where
  "close_up kept real l =
     l\<lparr>ls_entries := take kept (ls_entries l) @ take (ls_count l - real) (drop real (ls_entries l))
                      @ drop (kept + (ls_count l - real)) (ls_entries l),
       ls_count := ls_count l - (real - kept)\<rparr>"

definition appledouble_readdir ::
  "(nat \<Rightarrow> bool) \<Rightarrow> file_volume \<Rightarrow> 'w afp_ops \<Rightarrow> bytes \<Rightarrow> afp_listing \<Rightarrow> 'w vol_state
     \<Rightarrow> (int \<times> afp_listing \<times> 'w vol_state) option" where
  "appledouble_readdir malloc_ok v ops path l s =
     (case extra_translate malloc_ok v path of
        (resource, newpath) \<Rightarrow>
          if resource \<le> 0 then Some (resource, l, s)
          else if resource = int AFP_META_APPLEDOUBLE then do {
            (ret, l1, s1) \<leftarrow> ll_readdir malloc_ok v ops (the newpath) l True s;
            if ret < 0 then Some (ret, l1, s1)
            else do {
              (ret, kept, l2, s2) \<leftarrow> view_loop malloc_ok v ops (ls_count l1) 0 0 l1 s1;
              Some (if ret < 0 then (ret, empty_listing, s2) else (1, close_up kept (ls_count l1) l2, s2))
            }
          }
          else Some (- ENOTDIR, l, s))"

section \<open>The paths the view answers for\<close>

lemma strstr_Some: "strstr s pat = Some j \<Longrightarrow> take (length pat) (drop j s) = pat \<and> (\<forall>i < j. take (length pat) (drop i s) \<noteq> pat)"
proof (induction s arbitrary: j)
  case Nil
  then show ?case by (subst (asm) strstr.simps) (auto split: if_splits)
next
  case (Cons c s)
  show ?case
  proof (cases "take (length pat) (c # s) = pat")
    case False
    then obtain j' where j: "j = Suc j'" "strstr s pat = Some j'"
      using Cons.prems by (subst (asm) strstr.simps) auto
    have "take (length pat) (drop i (c # s)) \<noteq> pat" if "i < j" for i
      using that False Cons.IH [OF j(2)] j(1) by (cases i) auto
    then show ?thesis using Cons.IH [OF j(2)] j(1) by simp
  qed (use Cons.prems in \<open>simp add: strstr.simps [of "c # s"]\<close>)
qed

lemma strstr_None_all: "pat \<noteq> [] \<Longrightarrow> strstr s pat = None \<Longrightarrow> take (length pat) (drop i s) \<noteq> pat"
proof (induction s arbitrary: i)
  case (Cons c s)
  have "take (length pat) (c # s) \<noteq> pat" "strstr s pat = None"
    using Cons.prems(2) by (subst (asm) strstr.simps, simp split: if_splits)+
  then show ?case using Cons.IH [OF Cons.prems(1)] by (cases i) auto
qed simp

lemma string_constants:
  "length appledouble = 12" "slash \<notin> set appledouble" "length finderinfo_string = 11" "slash \<notin> set finderinfo_string"
  "length comment_string = 8" "slash \<notin> set comment_string" "length servericon_string = 12"
  by code_simp+

definition view_at :: "bytes \<Rightarrow> nat \<Rightarrow> bool" where
  "view_at path k \<longleftrightarrow> 0 < k \<and> take 12 (drop k path) = appledouble \<and> path ! (k - 1) = slash \<and> k + 12 < length path \<and> path ! (k + 12) = slash"

lemma view_component_first:
  "(\<forall>k. view_component path p = Some k \<longrightarrow> view_at path k \<and> (\<forall>i. p \<le> i \<and> i < k \<longrightarrow> \<not> view_at path i)) \<and>
   (view_component path p = None \<longrightarrow> (\<forall>i \<ge> p. \<not> view_at path i))"
proof (induction path p rule: view_component.induct)
  case (1 path p)
  note step = view_component.simps [of path p]
  have shift: "drop i (drop p path) = drop (p + i) path" for i by (simp add: add.commute)
  show ?case
  proof (cases "strstr (drop p path) appledouble")
    case None
    then have "take 12 (drop i path) \<noteq> appledouble" if "p \<le> i" for i
      using strstr_None_all [of appledouble "drop p path" "i - p"] that string_constants(1) shift [of "i - p"] by fastforce
    then show ?thesis using None by (auto simp: step view_at_def)
  next
    case (Some j)
    have at: "take 12 (drop (p + j) path) = appledouble" "\<And>i. i < j \<Longrightarrow> take 12 (drop (p + i) path) \<noteq> appledouble"
      using strstr_Some [OF Some] string_constants(1) shift by auto
    have before: "\<not> view_at path i" if "p \<le> i" "i < p + j" for i
      using at(2) [of "i - p"] that by (auto simp: view_at_def)
    have len: "p + j < length path" using at(1) string_constants(1) by (metis drop_all length_greater_0_conv linorder_not_less list.size(3) take_Nil zero_neq_numeral)
    show ?thesis
    proof (cases "view_at path (p + j)")
      case True
      then show ?thesis using Some before at(1) by (auto simp: step view_at_def)
    next
      case False
      then have rec: "view_component path p = view_component path (p + j + 1)"
        using Some at(1) len by (auto simp: step view_at_def Let_def)
      have "\<not> view_at path i" if "p \<le> i" "i < p + j + 1" for i
        using before [OF that(1)] False that(2) by (cases "i = p + j") auto
      moreover have "(\<forall>k. view_component path (p + j + 1) = Some k \<longrightarrow> view_at path k \<and>
          (\<forall>i. p + j + 1 \<le> i \<and> i < k \<longrightarrow> \<not> view_at path i)) \<and>
        (view_component path (p + j + 1) = None \<longrightarrow> (\<forall>i \<ge> p + j + 1. \<not> view_at path i))"
        by (rule 1 [OF Some refl _ len]) (use False at(1) in \<open>simp add: view_at_def\<close>)
      ultimately show ?thesis unfolding rec by (meson not_le_imp_less)
    qed
  qed
qed

definition clean_dir :: "bytes \<Rightarrow> bool" where
  "clean_dir dir \<longleftrightarrow> strstr (dir @ [slash]) (slash # appledouble @ [slash]) = None"

lemma take_drop_pred: "0 < i \<Longrightarrow> i \<le> length xs \<Longrightarrow> take (Suc n) (drop (i - 1) xs) = xs ! (i - 1) # take n (drop i xs)"
  by (cases i) (simp_all flip: Cons_nth_drop_Suc)

lemma take_drop_next: "i + n < length xs \<Longrightarrow> take (Suc n) (drop i xs) = take n (drop i xs) @ [xs ! (i + n)]"
  by (simp add: take_Suc_conv_app_nth)

lemma view_after_dir:
  assumes "clean_dir dir" "view_at (dir @ slash # r) i"
  shows "length dir < i"
proof (rule ccontr)
  assume "\<not> length dir < i"
  then have i: "0 < i" "i \<le> length dir" using assms(2) by (simp_all add: view_at_def)
  let ?path = "dir @ slash # r"
  have at: "take 12 (drop i ?path) = appledouble" "?path ! (i - 1) = slash" "?path ! (i + 12) = slash"
    using assms(2) by (simp_all add: view_at_def)
  have inside: "i + 12 \<le> length dir"
  proof (rule ccontr)
    assume far: "\<not> i + 12 \<le> length dir"
    then have "take 12 (drop i ?path) ! (length dir - i) = slash" using i by (simp add: nth_append)
    moreover have "length dir - i < length (take 12 (drop i ?path))" using far i string_constants(1) at(1) by simp
    ultimately show False using at(1) string_constants(2) nth_mem by metis
  qed
  have "take 14 (drop (i - 1) (dir @ [slash])) = slash # appledouble @ [slash]"
  proof -
    have "take 14 (drop (i - 1) (dir @ [slash])) = take 14 (drop (i - 1) ?path)" using inside i by (auto simp: take_Cons')
    also have "\<dots> = ?path ! (i - 1) # take 13 (drop i ?path)"
      using take_drop_pred [of i ?path 13] i by simp
    also have "take 13 (drop i ?path) = take 12 (drop i ?path) @ [?path ! (i + 12)]"
      using take_drop_next [of i 12 ?path] inside by simp
    finally show ?thesis using at by simp
  qed
  then show False
    using strstr_None_all [of "slash # appledouble @ [slash]" "dir @ [slash]" "i - 1"] assms(1) string_constants(1)
    by (simp add: clean_dir_def)
qed

lemma view_component_view:
  assumes "clean_dir dir"
  shows "view_component (dir @ slash # appledouble @ slash # x) 0 = Some (length dir + 1)"
proof -
  let ?path = "dir @ slash # appledouble @ slash # x"
  have at: "view_at ?path (length dir + 1)"
    using string_constants(1) by (simp add: view_at_def nth_append nth_Cons')
  moreover have "\<not> view_at ?path i" if "i < length dir + 1" for i
    using view_after_dir [OF assms, of "appledouble @ slash # x" i] that by auto
  ultimately show ?thesis
    using view_component_first [of ?path 0] by (cases "view_component ?path 0") (blast, metis le0 linorder_neqE_nat option.inject)
qed

lemma view_component_plain:
  assumes "clean_dir dir" "slash \<notin> set name"
  shows "view_component (dir @ slash # name) 0 = None"
proof -
  have "\<not> view_at (dir @ slash # name) i" for i
  proof
    assume a: "view_at (dir @ slash # name) i"
    then have "length dir < i" using view_after_dir [OF assms(1)] by blast
    then obtain j where "i = length dir + Suc j" using less_imp_Suc_add by auto
    then have "name ! (j + 12) = slash" "j + 12 < length name" using a by (simp_all add: view_at_def nth_append add.commute)
    then show False using assms(2) nth_mem [of "j + 12" name] by simp
  qed
  then show ?thesis using view_component_first [of "dir @ slash # name" 0] by (cases "view_component (dir @ slash # name) 0") simp_all
qed

lemma last_strings:
  "last finderinfo_string = 0x6f" "last comment_string = 0x74" "last appledouble = 0x65"
  "finderinfo_string \<noteq> []" "comment_string \<noteq> []"
  by code_simp+

lemma suffix_differs:
  "x @ finderinfo_string \<noteq> appledouble" "x @ comment_string \<noteq> appledouble" "x @ comment_string \<noteq> y @ finderinfo_string"
  using last_strings by (auto dest: arg_cong [where f = last])

lemma pseudo_suffix_cut: "x \<noteq> [] \<Longrightarrow> pseudo_suffix (x @ suff) suff = Some x"
  by (simp add: pseudo_suffix_def)

lemma pseudo_suffix_other: "(\<And>y. newpath \<noteq> y @ suff) \<Longrightarrow> pseudo_suffix newpath suff = None"
  by (auto simp: pseudo_suffix_def) (metis append_take_drop_id)

lemma translate_view:
  assumes "has_bit (vol_extra_flags (fv_volume v)) VOLUME_EXTRA_FLAGS_SHOW_APPLEDOUBLE" "clean_dir dir" "slash \<notin> set x"
    "x \<noteq> appledouble" "malloc_ok (length dir + 1 + length x + 1)"
  shows "extra_translate malloc_ok v (dir @ slash # appledouble @ slash # x) =
    (case pseudo_suffix (dir @ slash # x) finderinfo_string of
       Some p \<Rightarrow> (3, Some p)
     | None \<Rightarrow> (case pseudo_suffix (dir @ slash # x) comment_string of Some p \<Rightarrow> (4, Some p) | None \<Rightarrow> (1, Some (dir @ slash # x))))"
proof -
  let ?path = "dir @ slash # appledouble @ slash # x"
  have "strrchr ?path slash = Some (length dir + 13)"
    using strrchr_append [OF assms(3), of "dir @ slash # appledouble"] string_constants(1) by simp
  moreover have "?path \<noteq> servericon_string" using string_constants(1,7) by (auto dest: arg_cong [where f = length])
  ultimately show ?thesis
    using assms(1,4,5) view_component_view [OF assms(2), of x] string_constants(1)
    by (simp add: extra_translate_def Let_def split: option.split)
qed

lemma translate_plain:
  assumes "has_bit (vol_extra_flags (fv_volume v)) VOLUME_EXTRA_FLAGS_SHOW_APPLEDOUBLE" "clean_dir dir" "slash \<notin> set name"
    "name \<noteq> appledouble" "dir @ slash # name \<noteq> servericon_string"
  shows "extra_translate malloc_ok v (dir @ slash # name) = (0, None)"
  using assms(1,4,5) view_component_plain [OF assms(2,3)] strrchr_append [OF assms(3), of dir]
  by (simp add: extra_translate_def)

lemma translate_folder:
  assumes "has_bit (vol_extra_flags (fv_volume v)) VOLUME_EXTRA_FLAGS_SHOW_APPLEDOUBLE" "\<And>n. malloc_ok n"
  shows "extra_translate malloc_ok v (dir @ slash # appledouble) = (int AFP_META_APPLEDOUBLE, Some (if dir = [] then [slash] else dir))"
proof -
  have "dir @ slash # appledouble \<noteq> servericon_string" using string_constants(1,7) by (auto dest: arg_cong [where f = length])
  then show ?thesis
    using assms strrchr_append [OF string_constants(2), of dir] string_constants(1) by (simp add: extra_translate_def)
qed

lemma plain_name_suffix:
  assumes "\<not> names_pseudo_file name"
  shows "pseudo_suffix (dir @ slash # name) finderinfo_string = None" "pseudo_suffix (dir @ slash # name) comment_string = None"
proof -
  have *: "pseudo_suffix (dir @ slash # name) suff = None"
    if s: "slash \<notin> set suff" "\<not> (length name \<ge> length suff \<and> drop (length name - length suff) name = suff)" for suff
  proof (rule pseudo_suffix_other)
    fix y
    show "dir @ slash # name \<noteq> y @ suff"
    proof
      assume a: "dir @ slash # name = y @ suff"
      then obtain us where "dir @ [slash] = y @ us \<and> us @ name = suff \<or> (dir @ [slash]) @ us = y \<and> name = us @ suff"
        using append_eq_append_conv2 [of "dir @ [slash]" name y suff] by auto
      then show False
      proof
        assume b: "dir @ [slash] = y @ us \<and> us @ name = suff"
        then have "us = [] \<or> last us = slash" by (metis last_appendR last_snoc)
        then show False using b s by (cases us rule: rev_cases) auto
      qed (use s(2) in auto)
    qed
  qed
  show "pseudo_suffix (dir @ slash # name) finderinfo_string = None" "pseudo_suffix (dir @ slash # name) comment_string = None"
    using assms string_constants * by (auto simp: names_pseudo_file_def)
qed

text \<open>A file's comment on the server: reading and setting it, whatever else the server does or refuses.\<close>

definition keeps_comment :: "('w \<Rightarrow> bytes) \<Rightarrow> 'w afp_ops \<Rightarrow> nat \<Rightarrow> bytes \<Rightarrow> bool" where
  "keeps_comment note ops did name \<longleftrightarrow>
     (\<forall>ref w. note (snd (snd (op_opendt ops ref w))) = note w) \<and>
     (\<forall>w rc c w'. op_getcomment ops did name w = (rc, c, w') \<longrightarrow> note w' = note w \<and>
        (rc = kFPNoErr \<or> rc = kFPItemNotFound \<longrightarrow> c = note w)) \<and>
     (\<forall>c w rc w'. op_addcomment ops did name c w = (rc, w') \<longrightarrow> note w' = (if rc = kFPNoErr then c else note w))"

lemma dt_opened_note:
  assumes "keeps_comment note ops did name" "ensure_dt_opened ops s = (ret, s1)"
  shows "note (vs_world s1) = note (vs_world s) \<and> ret \<le> 0 \<and> vs_records s1 = vs_records s"
proof -
  obtain rc ref w where o: "op_opendt ops (vs_dtrefnum s) (vs_world s) = (rc, ref, w)" by (metis prod_cases3)
  then have "note w = note (vs_world s)" using assms(1) unfolding keeps_comment_def by (metis snd_conv)
  then show ?thesis using assms(2) o by (auto simp: ensure_dt_opened_def Let_def split: if_splits)
qed

lemma read_comment_note:
  assumes "keeps_comment note ops did name" "read_comment ops name did buf s = (ret, c, s1)"
  shows "note (vs_world s1) = note (vs_world s) \<and> vs_records s1 = vs_records s \<and>
    (0 \<le> ret \<longrightarrow> c = (case buf of None \<Rightarrow> [] | Some n \<Rightarrow> take n (note (vs_world s))) \<and>
      ret = int (case buf of None \<Rightarrow> length (note (vs_world s)) | Some n \<Rightarrow> min n (length (note (vs_world s)))))"
proof -
  obtain r0 s0 where d: "ensure_dt_opened ops s = (r0, s0)" by fastforce
  note k0 = dt_opened_note [OF assms(1) d]
  obtain rc c1 w where g: "op_getcomment ops did name (vs_world s0) = (rc, c1, w)" by (metis prod_cases3)
  then have "note w = note (vs_world s0)" "rc = kFPNoErr \<or> rc = kFPItemNotFound \<Longrightarrow> c1 = note (vs_world s0)"
    using assms(1) unfolding keeps_comment_def by blast+
  then show ?thesis
    using assms(2) k0 g d by (auto simp: read_comment_def on_world2_def split: if_splits option.splits)
qed

lemma write_comment_puts:
  assumes "keeps_comment note ops (fi_did f) (fi_basename f)" "length (note (vs_world s)) \<le> AFP_COMMENT_MAX" "0 \<le> offset"
    "write_comment ops f data offset s = (ret, n, s')"
  shows "(if ret = 1 then n = min (length data) (AFP_COMMENT_MAX - nat offset) \<and>
        note (vs_world s') = (if n = 0 then note (vs_world s) else file_put (note (vs_world s)) (nat offset) (take n data))
      else ret < 0 \<and> note (vs_world s') = note (vs_world s)) \<and> length (note (vs_world s')) \<le> AFP_COMMENT_MAX"
proof -
  let ?off = "nat offset" and ?old = "note (vs_world s)"
  obtain len c s1 where r: "read_comment ops (fi_basename f) (fi_did f) (Some AFP_COMMENT_MAX) s = (len, c, s1)" by (metis prod_cases3)
  have k1: "note (vs_world s1) = ?old" "0 \<le> len \<Longrightarrow> c = ?old" using read_comment_note [OF assms(1) r] assms(2) by auto
  let ?bs = "take (AFP_COMMENT_MAX - ?off) data" and ?pad = "?old @ replicate (?off - length ?old) 0"
  have new: "write_at ?pad ?off ?bs = file_put ?old ?off ?bs"
    by (cases "?off \<le> length ?old") (simp_all add: write_at_def file_put_def)
  obtain rc w where a: "op_addcomment ops (fi_did f) (fi_basename f) (write_at ?pad ?off ?bs) (vs_world s1) = (rc, w)" by fastforce
  have k2: "note w = (if rc = kFPNoErr then file_put ?old ?off ?bs else ?old)"
    using assms(1) a k1(1) unfolding keeps_comment_def new by metis
  have len: "?off \<le> AFP_COMMENT_MAX \<Longrightarrow> length (file_put ?old ?off ?bs) \<le> AFP_COMMENT_MAX" using assms(2) by (simp add: length_file_put)
  show ?thesis
  proof (cases "data = [] \<or> offset \<ge> int AFP_COMMENT_MAX \<or> len < 0")
    case True
    then show ?thesis using assms(2,3,4) r k1 by (auto simp: write_comment_def split: if_splits)
  next
    case False
    then have "min (length data) (AFP_COMMENT_MAX - ?off) \<noteq> 0" "?off < AFP_COMMENT_MAX" by (auto simp: nat_less_iff)
    moreover have "(ret, n, s') = (if rc \<noteq> kFPNoErr then (- ll_answer_errno rc, 0, s1\<lparr>vs_world := w\<rparr>) else (1, length ?bs, s1\<lparr>vs_world := w\<rparr>))"
      using False assms(3,4) r k1 a by (simp add: write_comment_def on_world_def)
    ultimately show ?thesis
      using k2 len assms(2) take_min_length [of data "AFP_COMMENT_MAX - ?off"]
      by (auto simp: ll_answer_errno_def split: if_splits)
  qed
qed

lemma set_comment_length_cuts:
  assumes "keeps_comment note ops did name" "length (note (vs_world s)) \<le> AFP_COMMENT_MAX"
    "set_comment_length ops name did len s = (ret, s')"
  shows "(if ret = 0 then 0 \<le> len \<and> note (vs_world s') = take (nat len) (note (vs_world s) @ replicate (nat len) 0)
      else ret < 0 \<and> note (vs_world s') = note (vs_world s)) \<and> length (note (vs_world s')) \<le> AFP_COMMENT_MAX"
proof -
  let ?old = "note (vs_world s)"
  obtain r0 s0 where d: "ensure_dt_opened ops s = (r0, s0)" by fastforce
  note k0 = dt_opened_note [OF assms(1) d]
  obtain got c s1 where r: "(if len > 0 then read_comment ops name did (Some AFP_COMMENT_MAX) s0 else (0, [], s0)) = (got, c, s1)"
    by (metis prod_cases3)
  have k1: "note (vs_world s1) = ?old" "0 \<le> got \<Longrightarrow> 0 < len \<Longrightarrow> c = ?old"
    using read_comment_note [OF assms(1), of "Some AFP_COMMENT_MAX" s0 got c s1] r k0 assms(2) by (auto split: if_splits)
  let ?new = "take (nat len) (c @ replicate (nat len - length c) 0)"
  obtain rc w where a: "op_addcomment ops did name ?new (vs_world s1) = (rc, w)" by fastforce
  have k2: "note w = (if rc = kFPNoErr then ?new else ?old)" using assms(1) a k1(1) unfolding keeps_comment_def by metis
  have "?new = take (nat len) (?old @ replicate (nat len) 0)" if "0 \<le> got"
    using k1(2) [OF that] by (cases "0 < len") (simp_all add: min_def)
  then show ?thesis
    using assms(2,3) d k0 r k1(1) k2 a
    by (auto simp: set_comment_length_def on_world_def ll_answer_errno_def split: if_splits prod.splits)
qed

section \<open>Properties\<close>




definition comment_server :: "bytes afp_ops" where
  "comment_server = (file_server 4)\<lparr>op_opendt := \<lambda>ref c. (kFPNoErr, 1, c), op_getcomment := \<lambda>did name c. (kFPNoErr, c, c),
     op_addcomment := \<lambda>did name bs c. (kFPNoErr, bs)\<rparr>"

definition comment_state :: "bytes vol_state" where
  "comment_state = two_forks\<lparr>vs_records := [1 \<mapsto> (open_file 0 0)\<lparr>fi_resource := AFP_META_COMMENT\<rparr>], vs_open_forks := []\<rparr>"


end
