(* ===== verification/Spec2Isabelle.thy ===== *)
theory Spec2Isabelle
  imports Dsi_Clash Afp_Desktop Appledouble
begin

text \<open>
  A model of the Netatalk AFP client's library (\<open>src/lib/\<close>) and theorems about it.

  \<^bold>\<open>The program.\<close>  The client speaks the Apple Filing Protocol over DSI, a framing of requests and
  replies on one TCP stream.  Application threads build command messages from Unix paths
  (\<open>proto_*.c\<close>), put a request on the session's queue, write the frame and wait
  (\<open>afpc_dsi_send_with_reply\<close>); one loop thread reads the stream in pieces (\<open>afpc_dsi_recv\<close>), matches
  replies with requests, runs the command's reply parser on the caller's object and wakes the sender.
  Names travel as decomposed UTF-8 or Mac Roman and are shown precomposed.

  \<^bold>\<open>Conventions.\<close>  A byte is an 8-bit word and a buffer a list of bytes.  C integers are natural numbers
  or integers, cut to their width by \<open>u8\<close>, \<open>u16\<close>, \<open>u32\<close>, \<open>u64\<close> and \<open>s32\<close> where the code computes in that
  width.  An operation that could leave a buffer or follow a freed pointer returns an \<open>option\<close>, with
  \<^term>\<open>None\<close> for the bad access; the safety theorems say that it does not occur.  A reply block is
  \<open>Overrun\<close>, \<open>Malformed\<close> or \<open>Parsed\<close>; a command built is \<open>Refuse\<close>, \<open>Overflow\<close> or \<open>Send\<close>.  \<open>malloc\<close> is a
  predicate on the size asked for.

  \<^bold>\<open>Theories.\<close>
  \<^item> \<open>Prelude\<close>: bytes, big-endian numbers, fixed-width arithmetic, checked reads and writes, errno values.
  \<^item> \<open>Unicode_Table\<close>, \<open>Unicode\<close>: \<open>unicode.c\<close>; its composition table, the uniform binary searches and the
    conversions between UTF-8 and UCS-2.  The searches are lookups in the table; conversions round-trip and
    stay in their buffers.
  \<^item> \<open>Utils\<close>: \<open>utils.c\<close>; Pascal strings, paths on the wire, name limits, text cleaning.
  \<^item> \<open>Mac_Roman\<close>, \<open>Decompose_Rank\<close>, \<open>Codepage\<close>: \<open>mac_roman.h\<close>, \<open>codepage.c\<close>; names survive the way to the
    server's form and back, but for three characters the reverse tables misplace.
  \<^item> \<open>Dsi_Types\<close>: the frame header, requests and the session record \<open>afp_server\<close> of \<open>dsi.h\<close> and
    \<open>afp_internal.h\<close>; the caller's object behind \<open>void *other\<close> is a type parameter.
  \<^item> \<open>Dsi_Queue\<close>: identifiers, enqueue, removal, flush, disconnect and the reconnect's reset in \<open>dsi.c\<close>,
    \<open>loop.c\<close>, \<open>afp.c\<close>; a step relation of the threads keeps the queue's invariant, keeps answers, and frees
    nothing the receiver holds.
  \<^item> \<open>Dsi_Status\<close>: the replies of DSIOpenSession and DSIGetStatus, version and method names.
  \<^item> \<open>Dsi_Write\<close>: the loop that sends a frame, tickles and session messages.
  \<^item> \<open>Dsi_Recv\<close>, \<open>Dsi_Safety\<close>, \<open>Dsi_Clash\<close>, \<open>Dsi_Delivery\<close>: one receive call on a partial stream with the
    steps of other threads during its reads.  It stays in its buffers unless a reply's identifier is reused in
    the middle of its frame, and a concrete session shows that case; a reply is handed whole to its request.
  \<^item> \<open>Dsi_Send\<close>: the send of a command with its wait, the reconnect and the attention thread.  Every send
    returns; a command sent and answered is a function call on the parser.
  \<^item> \<open>Reply_Block\<close>: \<open>proto_replyblock.c\<close> and the dates; blocks are parsed back to the entry they were laid
    out from.
  \<^item> \<open>Listing\<close>: \<open>listing.c\<close> and \<open>users.c\<close>.
  \<^item> \<open>Afp_Requests\<close>, \<open>Afp_Desktop\<close>: the message of every command of the \<open>proto_*.c\<close> files; messages fit the
    buffers allocated for them, and their paths and fields are read back.
  \<^item> \<open>Afp_Replies\<close>, \<open>Enumerate\<close>, \<open>Reply_Safety\<close>: the reply parsers and their dispatch \<open>afp_reply\<close>.  They keep
    the type of the caller's object and stay in their buffers, with one exception that is a theorem;
    an enumeration's page is taken whole or not at all.
  \<^item> \<open>Exchange\<close>: command, frame, send, receive, parser and listing composed for FPEnumerateExt2.
  \<^item> \<open>Paths\<close>, \<open>Url\<close>: \<open>path.c\<close> and \<open>afp_url.c\<close>; URLs are parsed back to their parts, and the parser returns
    unless the user part has two colons in a row.  \<open>Cstring\<close>: \<open>strchr\<close> and \<open>strrchr\<close>.
  \<^item> \<open>Did\<close>, \<open>Did_Check\<close>: \<open>did.c\<close>; the cache of directory IDs.  Paths resolve to the IDs of the server's tree, and a
    folder's listing removes exactly what it contradicts.
  \<^item> \<open>Identify\<close>: \<open>identify.c\<close>; the kind and version of the server.
  \<^item> \<open>Forks\<close>: \<open>forklist.c\<close> and the flushes of \<open>midlevel.c\<close>, over a store of fork records and a record \<open>afp_ops\<close> of the
    AFP commands on a world of any type; a failed flush leaves its fork dirty.
  \<^item> \<open>Lowlevel\<close>, \<open>Fork_Transfer\<close>: \<open>lowlevel.c\<close>; locks, opening, reading, writing, listing and attributes.  Reads
    and writes are reads and writes of the file, and no AFP 2 read passes the protocol's bound.
  \<^item> \<open>Appledouble\<close>: \<open>resource.c\<close> with the path conversion and the lengths of \<open>midlevel.c\<close>; the view's paths translate
    back to their objects, and a comment behaves as a small file.

  \<^bold>\<open>Interfaces.\<close>  What a component relies on is a locale: what a name lookup in a reply block may touch,
  what the other threads keep of the queue during a wait, what a reader of the stream promises,
  that an operation on the directory cache only forgets (\<open>forgetting\<close>), that a flush changes nothing of a fork
  but its flag (\<open>flag_step\<close>).  Each is interpreted on the definitions of the component that provides it.

  \<^bold>\<open>Bounds.\<close>  Loops are structural recursions or have a termination proof.  The receiver's loops are bounded
  by the bytes of the stream they consume, the sender's waits by its deadline.  \<open>escape_strrchr\<close>, whose
  recursion may not end, and \<open>readdir_loop\<close>, which ends when the server sends no more entries, are partial
  functions: \<^term>\<open>None\<close> is the call that does not return.

  \<^bold>\<open>Parameters.\<close>  The socket's bytes and results, the clock, \<open>malloc\<close>, iconv, the steps of other threads, the
  status probe of a reconnect and the login are arguments of the definitions that use them.

  \<^bold>\<open>Not modelled.\<close>  The file operations above \<open>lowlevel.c\<close> (\<open>midlevel.c\<close> but for flushes and lengths), the
  server list and its text (\<open>server.c\<close>, \<open>status.c\<close>), the authentication methods, which are calls of a
  cryptographic library, and the programs around the library: daemons, FUSE adapter, command line, discovery.
\<close>

end
